(* ===== verification/Prelude.thy ===== *)
theory Prelude
  imports Main "HOL-Library.Word"
begin

text \<open>
  The prelude of the development: the machine integer types of the C code, the faults that
  stand for undefined behaviour (an access outside an object, a null or dangling pointer), the
  byte copy that the queues and frame builders use, and the arithmetic lemmas on nibbles and
  bytes that the BCD and byte-order proofs share.

  A C object of \<open>n\<close> bytes is a list of \<open>n\<close> bytes; its length is its allocated
  size.  A C function that may touch memory outside an object returns a sum, \<open>Inl\<close> the
  fault, \<open>Inr\<close> the result.
\<close>

unbundle bit_operations_syntax

type_synonym u8 = "8 word"
type_synonym u16 = "16 word"
type_synonym u32 = "32 word"
type_synonym u64 = "64 word"
type_synonym bytes = "u8 list"

text \<open>Collections: unfolding rules of the operations, and branch facts of result types.\<close>

named_theorems op_defs "the defining equations of a component's operations"
named_theorems inv_intros "introduction rules of the components' invariants"

datatype fault = BufferOverflow | OutOfBounds | NullDeref | UseAfterFree | DoubleFree

type_synonym 'a outcome = "fault + 'a"

definition is_fault :: "'a outcome \<Rightarrow> bool" where
  "is_fault r = (case r of Inl _ \<Rightarrow> True | Inr _ \<Rightarrow> False)"

lemma is_fault_simps [simp]: "is_fault (Inl e)" "\<not> is_fault (Inr x)"
  by (simp_all add: is_fault_def)

text \<open>\<open>memcpy(dst + off, src, n)\<close>: reads \<open>n\<close> bytes of the source object, writes them into
  the destination object; a read or a write past the object is the fault.\<close>

definition c_memcpy :: "bytes \<Rightarrow> nat \<Rightarrow> bytes \<Rightarrow> nat \<Rightarrow> bytes outcome" where
  "c_memcpy dst off src n =
     (if length src < n then Inl OutOfBounds
      else if length dst < off + n then Inl BufferOverflow
      else Inr (take off dst @ take n src @ drop (off + n) dst))"

lemma c_memcpy_Inr_iff:
  "c_memcpy dst off src n = Inr r \<longleftrightarrow>
     n \<le> length src \<and> off + n \<le> length dst \<and> r = take off dst @ take n src @ drop (off + n) dst"
  by (auto simp: c_memcpy_def)

lemma c_memcpy_length: "c_memcpy dst off src n = Inr r \<Longrightarrow> length r = length dst"
  by (auto simp: c_memcpy_Inr_iff)

lemma c_memcpy_0 [simp]:
  "n \<le> length src \<Longrightarrow> n \<le> length dst \<Longrightarrow> c_memcpy dst 0 src n = Inr (take n src @ drop n dst)"
  by (simp add: c_memcpy_def)

subsection \<open>Nibbles, bytes and bits\<close>

text \<open>Joining a shifted digit with a lower one by \<open>|\<close> is addition.\<close>

lemma or_shift_nat:
  fixes a b :: nat
  assumes "b < 2 ^ n"
  shows "push_bit n a OR b = a * 2 ^ n + b"
proof -
  have b: "take_bit n b = b"
    using assms by (simp add: take_bit_nat_eq_self)
  have "push_bit n a AND b = 0"
    by (subst b [symmetric], rule bit_eqI) (auto simp: bit_simps)
  then show ?thesis
    by (simp add: disjunctive_add_eq_or [symmetric] push_bit_eq_mult)
qed

lemma nat_and_15 [simp]: "(n::nat) AND 15 = n mod 16"
  using take_bit_eq_mask [of 4 n] by (simp add: mask_eq_exp_minus_1 take_bit_eq_mod)

lemma unat_u8_bound [simp]: "unat (x :: u8) < 256"
  using unsigned_less [of x, where 'a = nat] by simp

lemma unat_u16_bound [simp]: "unat (x :: u16) < 65536"
  using unsigned_less [of x, where 'a = nat] by simp

text \<open>Truncation on a store, before \<open>of_nat\<close> is distributed over the expression.\<close>

lemma unat_store_u8: "unat (word_of_nat n :: u8) = n mod 256"
  by (simp add: unsigned_of_nat take_bit_eq_mod)

lemma unat_store_u16: "unat (word_of_nat n :: u16) = n mod 65536"
  by (simp add: unsigned_of_nat take_bit_eq_mod)

lemma nibble_mod: "l < 16 \<Longrightarrow> (16 * h + l) mod 256 = 16 * (h mod 16) + (l::nat)"
  using mod_mult2_eq [of "16 * h + l" 16 16] by simp

lemma byte_mod: "l < 256 \<Longrightarrow> (256 * h + l) mod 65536 = 256 * (h mod 256) + (l::nat)"
  using mod_mult2_eq [of "256 * h + l" 256 256] by simp

text \<open>Ring indices: an index below twice the size is reduced by at most one subtraction.\<close>

lemma wrap_mod: "a < 2 * n \<Longrightarrow> a mod n = (if a < n then a else a - (n::nat))"
  by (cases "a < n") (auto simp: mod_if le_mod_geq)

subsection \<open>Byte order\<close>

text \<open>
  The target is little-endian: a \<open>uint16_t\<close> stored through a packed struct is its low byte,
  then its high byte. \<open>bswap_16\<close> of glibc swaps the two.
\<close>

definition bswap_16 :: "u16 \<Rightarrow> u16" where
  "bswap_16 x = push_bit 8 x OR drop_bit 8 x"

definition le16 :: "u16 \<Rightarrow> bytes" where
  "le16 x = [ucast x, ucast (drop_bit 8 x)]"

definition of_le16 :: "u8 \<Rightarrow> u8 \<Rightarrow> u16" where
  "of_le16 lo hi = push_bit 8 (ucast hi) OR ucast lo"

lemma length_le16 [simp]: "length (le16 x) = 2"
  by (simp add: le16_def)

lemma bswap_16_bswap_16 [simp]: "bswap_16 (bswap_16 x) = x"
  by (rule bit_word_eqI) (auto simp: bswap_16_def bit_simps)

lemma of_le16_le16 [simp]: "of_le16 (ucast x) (ucast (drop_bit 8 x)) = x"
  by (rule bit_word_eqI) (auto simp: of_le16_def bit_simps)

lemma ucast_of_le16 [simp]: "ucast (of_le16 lo hi) = lo" "ucast (drop_bit 8 (of_le16 lo hi)) = hi"
  by (rule bit_word_eqI; auto simp: of_le16_def bit_simps dest: bit_imp_le_length)+

lemma le16_of_le16: "le16 (of_le16 lo hi) = [lo, hi]"
  by (simp add: le16_def)

lemma bswap_16_inj [simp]: "bswap_16 x = bswap_16 y \<longleftrightarrow> x = y"
  by (metis bswap_16_bswap_16)

text \<open>Four and eight bytes.\<close>

definition bswap_32 :: "u32 \<Rightarrow> u32" where
  "bswap_32 x =
     push_bit 24 x OR push_bit 16 (take_bit 8 (drop_bit 8 x)) OR push_bit 8 (take_bit 8 (drop_bit 16 x)) OR drop_bit 24 x"

definition bswap_64 :: "u64 \<Rightarrow> u64" where
  "bswap_64 x = push_bit 32 (ucast (bswap_32 (ucast x))) OR ucast (bswap_32 (ucast (drop_bit 32 x)))"

definition le32 :: "u32 \<Rightarrow> bytes" where
  "le32 x = [ucast x, ucast (drop_bit 8 x), ucast (drop_bit 16 x), ucast (drop_bit 24 x)]"

definition le64 :: "u64 \<Rightarrow> bytes" where
  "le64 x = le32 (ucast x) @ le32 (ucast (drop_bit 32 x))"

lemma length_le32_le64 [simp]: "length (le32 x) = 4" "length (le64 y) = 8"
  by (simp_all add: le32_def le64_def)

lemma le16_bswap_16: "le16 (bswap_16 x) = rev (le16 x)"
  unfolding le16_def bswap_16_def by (simp, intro conjI; rule bit_word_eqI; auto simp: bit_simps dest: bit_imp_le_length)

lemma le32_bswap_32: "le32 (bswap_32 x) = rev (le32 x)"
  unfolding le32_def bswap_32_def
  by (simp, intro conjI; rule bit_word_eqI; auto simp: bit_simps dest: bit_imp_le_length)

text \<open>An unsigned value stored in a signed variable of its width keeps its value below half range.\<close>

lemma sint_eq_uint_u16: "sint (a :: u16) = uint a \<longleftrightarrow> a < 0x8000"
proof -
  have "- 32768 \<le> uint a" by (rule order_trans [OF _ uint_nonnegative]) simp
  then have "sint a = uint a \<longleftrightarrow> uint a < 32768"
    using sint_uint [of a]
      signed_take_bit_int_eq_self_iff [of "LENGTH(16) - Suc 0" "uint a"] by auto
  then show ?thesis by (simp add: word_less_alt)
qed

lemma ucast_ucast_id_u8 [simp]: "ucast (ucast (b :: u8) :: u16) = b"
  by (rule bit_word_eqI) (simp add: bit_simps)

end
