(* ===== verification/CFloat.thy ===== *)
theory CFloat
  imports Prelude
begin

text \<open>
  Binary floating point as the sources use it: a decimal text is rounded to the nearest
  \<open>double\<close> or \<open>float\<close> (ties to even) by \<open>sscanf\<close>, truncated when it is
  converted to an unsigned integer, and an unsigned integer is converted back, rounded, and stored
  with the IEEE 754 layout. A finite value is a mantissa and a power of two; the two zeros are not
  distinguished, no operation of the sources tells them apart. The lemmas say that rounding is
  exact on integers that fit the precision, and bound its error by half a unit in the last place.
\<close>

datatype flo = NaN | Infinite bool | Finite int int

fun bit_len :: "nat \<Rightarrow> nat" where
  "bit_len n = (if n = 0 then 0 else Suc (bit_len (n div 2)))"

declare bit_len.simps [simp del]

text \<open>The integer nearest to \<open>a / b\<close>, the even one of two.\<close>

definition round_even :: "nat \<Rightarrow> nat \<Rightarrow> nat" where
  "round_even a b =
     (let q = a div b; r = a mod b
      in if 2 * r < b \<or> 2 * r = b \<and> even q then q else Suc q)"

text \<open>
  The ratio \<open>a / b\<close> rounded to precision \<open>p\<close> with exponents from \<open>emin\<close>, infinite from
  \<open>2 ^ emax\<close>. The exponent is the one at which the mantissa has \<open>p\<close> bits.
\<close>

definition flo_exp :: "nat \<Rightarrow> int \<Rightarrow> nat \<Rightarrow> nat \<Rightarrow> int" where
  "flo_exp p emin a b =
     (let e = int (bit_len a) - int (bit_len b) - int p
      in max emin (if a * 2 ^ nat (- (e + int p)) < b * 2 ^ nat (e + int p) then e else e + 1))"

definition round_flo :: "nat \<Rightarrow> int \<Rightarrow> int \<Rightarrow> bool \<Rightarrow> nat \<Rightarrow> nat \<Rightarrow> flo" where
  "round_flo p emin emax neg a b =
     (if a = 0 then Finite 0 0
      else let e = flo_exp p emin a b;
               m = round_even (a * 2 ^ nat (- e)) (b * 2 ^ nat e)
           in if emax < int (bit_len m) + e then Infinite neg
              else Finite (if neg then - int m else int m) e)"

text \<open>The two formats.\<close>

definition to_double :: "bool \<Rightarrow> nat \<Rightarrow> nat \<Rightarrow> flo" where
  "to_double = round_flo 53 (-1074) 1024"

definition to_float :: "bool \<Rightarrow> nat \<Rightarrow> nat \<Rightarrow> flo" where
  "to_float = round_flo 24 (-149) 128"

text \<open>The integer part, towards zero.\<close>

definition trunc_flo :: "flo \<Rightarrow> int option" where
  "trunc_flo x =
     (case x of Finite m e \<Rightarrow> Some (if 0 \<le> e then m * 2 ^ nat e else sgn m * (\<bar>m\<bar> div 2 ^ nat (- e)))
      | _ \<Rightarrow> None)"

text \<open>
  Conversion to an unsigned integer of \<open>w\<close> bits: the integer part when it is representable.
  Otherwise C leaves the result undefined and processors differ (x86-64 wraps, AArch64 saturates): it
  is what the parameter \<open>oor\<close> says.
\<close>

definition flo_to_word :: "(flo \<Rightarrow> 'w word) \<Rightarrow> flo \<Rightarrow> 'w::len word" where
  "flo_to_word oor x =
     (case trunc_flo x of
        Some n \<Rightarrow> if 0 \<le> n \<and> n < 2 ^ LENGTH('w) then word_of_int n else oor x
      | None \<Rightarrow> oor x)"

text \<open>The IEEE bits of an integer: biased exponent above the mantissa without its leading one.\<close>

definition ieee_nat :: "nat \<Rightarrow> int \<Rightarrow> nat \<Rightarrow> nat" where
  "ieee_nat p emax n =
     (case round_flo p (- emax) emax False n 1 of
        Finite m e \<Rightarrow>
          if m = 0 then 0
          else (let l = bit_len (nat m)
                in nat (int l + e + emax - 2) * 2 ^ (p - 1) + (nat m * 2 ^ (p - 1) div 2 ^ (l - 1) - 2 ^ (p - 1)))
      | _ \<Rightarrow> 0)"

definition double_bits :: "u64 \<Rightarrow> u64" where
  "double_bits x = word_of_nat (ieee_nat 53 1024 (unat x))"

definition float_bits :: "u32 \<Rightarrow> u32" where
  "float_bits x = word_of_nat (ieee_nat 24 128 (unat x))"

subsection \<open>Rounding\<close>

lemma bit_len_0 [simp]: "bit_len 0 = 0"
  by (simp add: bit_len.simps)

lemma bit_len_bounds: "0 < n \<Longrightarrow> 2 ^ (bit_len n - 1) \<le> n \<and> n < 2 ^ bit_len n \<and> 0 < bit_len n"
proof (induction n rule: bit_len.induct)
  case (1 n)
  show ?case
  proof (cases "n div 2 = 0")
    case True
    with "1.prems" have "n = 1" by simp
    then show ?thesis by (simp add: bit_len.simps)
  next
    case False
    with "1.IH" "1.prems" have h: "2 ^ (bit_len (n div 2) - 1) \<le> n div 2" "n div 2 < 2 ^ bit_len (n div 2)"
      "0 < bit_len (n div 2)" by auto
    moreover have "bit_len n = Suc (bit_len (n div 2))" using "1.prems" by (subst bit_len.simps) simp
    ultimately show ?thesis by (cases "bit_len (n div 2)") auto
  qed
qed

lemma bit_len_le: "n < 2 ^ k \<Longrightarrow> bit_len n \<le> k"
proof (cases "n = 0")
  case False
  assume "n < 2 ^ k"
  with bit_len_bounds [of n] False have "(2::nat) ^ (bit_len n - 1) < 2 ^ k" by (meson le_less_trans neq0_conv)
  then show ?thesis by simp
qed simp

lemma round_even_exact [simp]: "0 < b \<Longrightarrow> round_even (q * b) b = q"
  by (simp add: round_even_def)

text \<open>The rounded value is within half of a unit.\<close>

lemma round_even_error:
  assumes "0 < b"
  shows "\<bar>int (round_even a b) * int b * 2 - int a * 2\<bar> \<le> int b"
proof -
  have "int a = int (a div b) * int b + int (a mod b)" by (metis div_mult_mod_eq of_nat_add of_nat_mult)
  moreover have "a mod b < b" using assms by simp
  ultimately show ?thesis by (simp add: round_even_def Let_def algebra_simps)
qed

text \<open>Integers that fit the precision are exact.\<close>

lemma round_flo_nat:
  assumes "n < 2 ^ p" "emin \<le> - int p" "int p \<le> emax"
  shows "trunc_flo (round_flo p emin emax neg n 1) = Some (if neg then - int n else int n)"
proof (cases "n = 0")
  case True
  then show ?thesis by (simp add: round_flo_def trunc_flo_def)
next
  case False
  define e where "e = flo_exp p emin n 1"
  have l: "bit_len n \<le> p" "0 < bit_len n" using bit_len_le [OF assms(1)] bit_len_bounds [of n] False by auto
  have one: "bit_len 1 = 1" by (simp add: bit_len.simps)
  have e: "e \<le> 0" "- int p \<le> e"
    using l one assms(2) by (auto simp: e_def flo_exp_def Let_def max_def)
  have m: "round_even (n * 2 ^ nat (- e)) (1 * 2 ^ nat e) = n * 2 ^ nat (- e)"
    using e(1) by (simp add: round_even_def)
  have bl: "int (bit_len (n * 2 ^ nat (- e))) + e \<le> emax"
  proof -
    have "n * 2 ^ nat (- e) < 2 ^ (p + nat (- e))" using assms(1) by (simp add: power_add)
    from bit_len_le [OF this] show ?thesis using e(1) assms(3) by simp
  qed
  have "e < 0 \<Longrightarrow> int n * 2 ^ nat (- e) div 2 ^ nat (- e) = int n" "\<not> int n * 2 ^ nat (- e) < 0"
    by (simp_all add: not_less)
  then show ?thesis
    using False e(1) m bl unfolding round_flo_def Let_def e_def [symmetric]
    by (cases "e = 0") (simp_all add: trunc_flo_def sgn_if abs_mult)
qed

end
