(* ===== verification/CString.thy ===== *)
theory CString
  imports CFloat
begin

text \<open>
  The C string and formatting functions the sources use, on character lists without the
  terminating NUL: decimal and hexadecimal conversion of \<open>printf\<close>, truncation by
  \<open>snprintf\<close>, searching (\<open>strstr\<close>, \<open>strncmp\<close>), splitting (\<open>strtok\<close>,
  \<open>basename\<close>), and the conversions of \<open>sscanf\<close>. The lemmas are the round trips
  (printed numbers and fields are scanned back) and the length bounds of printed numbers.
\<close>

subsection \<open>Printing\<close>

definition digit_char :: "nat \<Rightarrow> char" where
  "digit_char d = char_of (48 + d)"

definition hex_char :: "nat \<Rightarrow> char" where
  "hex_char d = (if d < 10 then char_of (48 + d) else char_of (87 + d))"

text \<open>\<open>%d\<close> of a non-negative value, \<open>%0wd\<close>, \<open>%02x\<close>.\<close>

fun dec :: "nat \<Rightarrow> string" where
  "dec n = (if n < 10 then [digit_char n] else dec (n div 10) @ [digit_char (n mod 10)])"

declare dec.simps [simp del]

definition pad0 :: "nat \<Rightarrow> string \<Rightarrow> string" where
  "pad0 w s = replicate (w - length s) CHR ''0'' @ s"

definition dec0 :: "nat \<Rightarrow> nat \<Rightarrow> string" where
  "dec0 w n = pad0 w (dec n)"

definition hex02 :: "u8 \<Rightarrow> string" where
  "hex02 x = [hex_char (unat x div 16), hex_char (unat x mod 16)]"

text \<open>\<open>snprintf(buf, size, ...)\<close> keeps at most \<open>size - 1\<close> characters.\<close>

definition snprintf :: "nat \<Rightarrow> string \<Rightarrow> string" where
  "snprintf sz s = take (sz - 1) s"

lemma snprintf_fits [simp]: "length s < sz \<Longrightarrow> snprintf sz s = s"
  by (simp add: snprintf_def)

subsection \<open>Searching and splitting\<close>

fun starts_with :: "string \<Rightarrow> string \<Rightarrow> bool" where
  "starts_with [] s = True"
| "starts_with (p # ps) [] = False"
| "starts_with (p # ps) (c # s) = (p = c \<and> starts_with ps s)"

text \<open>\<open>strstr(s, pat)\<close>: the suffix of \<open>s\<close> at the first occurrence.\<close>

fun strstr :: "string \<Rightarrow> string \<Rightarrow> string option" where
  "strstr [] pat = (if pat = [] then Some [] else None)"
| "strstr (c # s) pat = (if starts_with pat (c # s) then Some (c # s) else strstr s pat)"

definition contains :: "string \<Rightarrow> string \<Rightarrow> bool" where
  "contains s pat = (strstr s pat \<noteq> None)"

text \<open>\<open>strtok\<close> with the delimiters \<open>ds\<close>: the maximal non-empty runs free of them.\<close>

fun strtok :: "char list \<Rightarrow> string \<Rightarrow> string \<Rightarrow> string list" where
  "strtok ds acc [] = (if acc = [] then [] else [rev acc])"
| "strtok ds acc (c # s) =
     (if c \<in> set ds
      then (if acc = [] then strtok ds [] s else rev acc # strtok ds [] s)
      else strtok ds (c # acc) s)"

definition tokens :: "char list \<Rightarrow> string \<Rightarrow> string list" where
  "tokens ds s = strtok ds [] s"

text \<open>\<open>strncmp(a, b, n) == 0\<close> on C strings.\<close>

fun strncmp_eq :: "string \<Rightarrow> string \<Rightarrow> nat \<Rightarrow> bool" where
  "strncmp_eq a b 0 = True"
| "strncmp_eq [] [] (Suc n) = True"
| "strncmp_eq (x # a) (y # b) (Suc n) = (x = y \<and> strncmp_eq a b n)"
| "strncmp_eq _ _ (Suc n) = False"

lemma starts_with_iff: "starts_with p s \<longleftrightarrow> (\<exists>r. s = p @ r)"
  by (induction p s rule: starts_with.induct) auto

lemma starts_with_append [simp]: "starts_with p (p @ r)"
  by (auto simp: starts_with_iff)

lemma strstr_Some_iff: "strstr s pat \<noteq> None \<longleftrightarrow> (\<exists>a b. s = a @ pat @ b)"
proof (induction s)
  case Nil
  then show ?case by simp
next
  case (Cons c s)
  show ?case
  proof (cases "starts_with pat (c # s)")
    case True
    then have "\<exists>b. c # s = [] @ pat @ b" by (auto simp: starts_with_iff)
    with True show ?thesis by (auto intro: exI [of _ "[]"])
  next
    case False
    then have "(\<exists>a b. c # s = a @ pat @ b) \<longleftrightarrow> (\<exists>a b. s = a @ pat @ b)"
      by (auto simp: starts_with_iff Cons_eq_append_conv)
    with False Cons.IH show ?thesis by simp
  qed
qed

lemma contains_iff: "contains s pat \<longleftrightarrow> (\<exists>a b. s = a @ pat @ b)"
  by (simp add: contains_def strstr_Some_iff del: not_None_eq)

lemma contains_self [simp]: "contains s s"
  by (auto simp: contains_iff intro: exI [of _ "[]"])

lemma contains_Nil [simp]: "contains s []"
  by (auto simp: contains_iff)

lemma contains_length: "contains s pat \<Longrightarrow> length pat \<le> length s"
  by (auto simp: contains_iff)

lemma contains_empty [simp]: "contains [] pat \<longleftrightarrow> pat = []"
  by (auto simp: contains_iff)

text \<open>A pattern no proper suffix of which is a prefix is first found where it does not occur before.\<close>

definition unbordered :: "string \<Rightarrow> bool" where
  "unbordered p \<longleftrightarrow> (\<forall>k \<in> {1..<length p}. take (length p - k) p \<noteq> drop k p)"

lemma strstr_first:
  assumes "unbordered p" "\<not> contains a p"
  shows "strstr (a @ p @ b) p = Some (p @ b)"
  using assms(2)
proof (induction a)
  case Nil
  have "starts_with p (p @ b)" by simp
  then show ?case by (cases "p @ b") simp_all
next
  case (Cons c a)
  have "\<not> starts_with p (c # a @ p @ b)"
  proof
    assume "starts_with p (c # a @ p @ b)"
    then obtain r where r: "(c # a) @ p @ b = p @ r" by (auto simp: starts_with_iff)
    show False
    proof (cases "length p \<le> length (c # a)")
      case True
      then have "take (length p) (c # a) = p" using arg_cong [OF r, of "take (length p)"] by (simp del: append_Cons)
      then have "\<exists>z. c # a = [] @ p @ z" by (metis append_Nil append_take_drop_id)
      with Cons.prems show False unfolding contains_iff by blast
    next
      case False
      let ?k = "length (c # a)"
      have "drop ?k p = take (length p - ?k) (drop ?k (p @ r))" using False by simp
      also have "... = take (length p - ?k) (p @ b)" using r by (metis append_eq_conv_conj)
      finally have "drop ?k p = take (length p - ?k) p" using False by simp
      moreover have "?k \<in> {1..<length p}" using False by simp
      ultimately show False using assms(1) unfolding unbordered_def by metis
    qed
  qed
  moreover have "\<not> contains a p"
    using Cons.prems unfolding contains_iff by (metis append_Cons)
  ultimately show ?case using Cons.IH by simp
qed

lemma strncmp_eq_length: "strncmp_eq a b (length a) \<longleftrightarrow> starts_with a b"
  by (induction a b rule: starts_with.induct) auto

lemma strtok_no_delims: "\<forall>c \<in> set s. c \<notin> set ds \<Longrightarrow>
    strtok ds acc s = (if rev acc @ s = [] then [] else [rev acc @ s])"
  by (induction s arbitrary: acc) auto

lemma tokens_no_delims: "\<forall>c \<in> set s. c \<notin> set ds \<Longrightarrow> s \<noteq> [] \<Longrightarrow> tokens ds s = [s]"
  by (simp add: tokens_def strtok_no_delims)

lemma strtok_nonempty: "t \<in> set (strtok ds acc s) \<Longrightarrow> t \<noteq> []"
  by (induction ds acc s rule: strtok.induct) (auto split: if_splits)

lemma tokens_nonempty: "t \<in> set (tokens ds s) \<Longrightarrow> t \<noteq> []"
  unfolding tokens_def by (rule strtok_nonempty)

subsection \<open>Decimal numbers\<close>

definition is_digit :: "char \<Rightarrow> bool" where
  "is_digit c = (48 \<le> (of_char c :: nat) \<and> (of_char c :: nat) \<le> 57)"

definition digit_val :: "char \<Rightarrow> nat" where
  "digit_val c = of_char c - 48"

fun dec_val :: "nat \<Rightarrow> string \<Rightarrow> nat" where
  "dec_val acc [] = acc"
| "dec_val acc (c # s) = dec_val (10 * acc + digit_val c) s"

lemma of_char_digit_char [simp]: "d < 10 \<Longrightarrow> (of_char (digit_char d) :: nat) = 48 + d"
  by (simp add: digit_char_def)

lemma is_digit_digit_char [simp]: "d < 10 \<Longrightarrow> is_digit (digit_char d)"
  by (simp add: is_digit_def)

lemma digit_val_digit_char [simp]: "d < 10 \<Longrightarrow> digit_val (digit_char d) = d"
  by (simp add: digit_val_def)

lemma dec_nonempty [simp]: "dec n \<noteq> []"
  by (subst dec.simps) simp

lemma dec_digits: "c \<in> set (dec n) \<Longrightarrow> is_digit c"
proof (induction n rule: dec.induct)
  case (1 n)
  then show ?case by (cases "n < 10") (auto simp: dec.simps [of n])
qed

lemma dec_val_append: "dec_val acc (s @ t) = dec_val (dec_val acc s) t"
  by (induction acc s rule: dec_val.induct) auto

lemma dec_val_dec [simp]: "dec_val 0 (dec n) = n"
proof (induction n rule: dec.induct)
  case (1 n)
  then show ?case
    by (cases "n < 10") (auto simp: dec.simps [of n] dec_val_append)
qed

lemma length_dec_le: "n < 10 ^ k \<Longrightarrow> 0 < k \<Longrightarrow> length (dec n) \<le> k"
proof (induction n arbitrary: k rule: dec.induct)
  case (1 n)
  show ?case
  proof (cases "n < 10")
    case True
    with 1 show ?thesis by (simp add: dec.simps [of n])
  next
    case False
    with "1.prems" obtain j where k: "k = Suc j" "0 < j"
      by (cases k; cases "k - 1") auto
    with "1.prems" have "n div 10 < 10 ^ j" by (simp add: div_less_iff_less_mult mult.commute)
    with "1.IH" [OF False] k have "length (dec (n div 10)) \<le> j" by simp
    with False k show ?thesis by (simp add: dec.simps [of n])
  qed
qed

lemma length_dec_u16: "n < 65536 \<Longrightarrow> length (dec n) \<le> 5"
  by (rule length_dec_le) simp_all

lemma length_dec0: "length (dec0 w n) = max w (length (dec n))"
  by (simp add: dec0_def pad0_def)

lemma dec0_digits: "c \<in> set (dec0 w n) \<Longrightarrow> is_digit c"
  by (auto simp: dec0_def pad0_def is_digit_def dest: dec_digits split: if_splits)

lemma is_digit_not_comma: "is_digit c \<Longrightarrow> c \<noteq> CHR '',''"
  by (auto simp: is_digit_def)

subsection \<open>Scanning: the conversions of \<open>sscanf\<close>\<close>

text \<open>
  \<open>CSp\<close> is a space of the format, \<open>CLit c\<close> a literal, \<open>CUntil c\<close> is
  \<open>%[^c]\<close>, \<open>CWord\<close> is \<open>%s\<close>, \<open>CDec\<close> and \<open>CUDec\<close> are the signed
  and unsigned integer conversions, whose value is that of \<open>strtol\<close> and \<open>strtoul\<close>
  (saturating at 64 bits) before the length modifier truncates it on the store. \<open>CFlo\<close> is
  \<open>%f\<close> or \<open>%lf\<close>; its value is the text read, as a ratio that the store rounds. \<open>CChr\<close> is \<open>%c\<close>, any character.
  The result is the list of the values assigned before the first failure.
\<close>

datatype conv = CSp | CLit char | CUntil char | CWord | CDec | CUDec | CFlo | CChr

datatype flo_text = TNaN | TInf bool | TRatio bool nat nat

datatype sval = SStr string | SInt int | SFlo flo_text | SChr char

definition is_ws :: "char \<Rightarrow> bool" where
  "is_ws c = ((of_char c :: nat) \<in> {9, 10, 11, 12, 13, 32})"

definition skip_ws :: "string \<Rightarrow> string" where
  "skip_ws s = dropWhile is_ws s"

definition scan_digits :: "string \<Rightarrow> (nat \<times> string) option" where
  "scan_digits s =
     (let ds = takeWhile is_digit s
      in if ds = [] then None else Some (dec_val 0 ds, dropWhile is_digit s))"

fun scan_int :: "string \<Rightarrow> (int \<times> string) option" where
  "scan_int [] = None"
| "scan_int (c # s) =
     (if c = CHR ''-'' then map_option (\<lambda>(n, r). (- int n, r)) (scan_digits s)
      else if c = CHR ''+'' then map_option (\<lambda>(n, r). (int n, r)) (scan_digits s)
      else map_option (\<lambda>(n, r). (int n, r)) (scan_digits (c # s)))"

definition strtol_sat :: "int \<Rightarrow> int" where
  "strtol_sat v = max (- (2 ^ 63)) (min (2 ^ 63 - 1) v)"

definition strtoul_sat :: "int \<Rightarrow> int" where
  "strtoul_sat v = (if \<bar>v\<bar> < 2 ^ 64 then v mod 2 ^ 64 else 2 ^ 64 - 1)"

text \<open>
  The floating point conversion: a sign; then \<open>nan\<close>, \<open>inf\<close> or \<open>infinity\<close> in any case; or
  digits with at most one point, decimal, or hexadecimal after \<open>0x\<close>, and an exponent that may lack
  its digits. Once the input leaves a prefix of these the conversion fails, as glibc's does, which reads
  one character ahead only.
\<close>

definition to_lower :: "char \<Rightarrow> char" where
  "to_lower c = (let n = of_char c :: nat in if 65 \<le> n \<and> n \<le> 90 then char_of (n + 32) else c)"

definition hex_val :: "char \<Rightarrow> nat" where
  "hex_val c = (if is_digit c then digit_val c else of_char (to_lower c) - 87)"

definition is_hex :: "char \<Rightarrow> bool" where
  "is_hex c = (is_digit c \<or> to_lower c \<in> set ''abcdef'')"

fun base_val :: "nat \<Rightarrow> nat \<Rightarrow> string \<Rightarrow> nat" where
  "base_val b acc [] = acc"
| "base_val b acc (c # s) = base_val b (b * acc + hex_val c) s"

text \<open>The exponent after the letter \<open>x\<close>; no letter, no exponent.\<close>

definition scan_exponent :: "char \<Rightarrow> string \<Rightarrow> int \<times> string" where
  "scan_exponent x s =
     (case s of [] \<Rightarrow> (0, [])
      | c # r \<Rightarrow>
          if to_lower c \<noteq> x then (0, s)
          else let neg = (r \<noteq> [] \<and> hd r = CHR ''-'');
                   ds = (if r \<noteq> [] \<and> hd r \<in> set ''+-'' then tl r else r);
                   n = int (dec_val 0 (takeWhile is_digit ds))
               in (if neg then - n else n, dropWhile is_digit ds))"

definition scan_mantissa :: "(char \<Rightarrow> bool) \<Rightarrow> nat \<Rightarrow> string \<Rightarrow> (nat \<times> nat \<times> string) option" where
  "scan_mantissa dig b s =
     (let i = takeWhile dig s; r = dropWhile dig s;
          f = (if r \<noteq> [] \<and> hd r = CHR ''.'' then takeWhile dig (tl r) else []);
          r' = (if r \<noteq> [] \<and> hd r = CHR ''.'' then dropWhile dig (tl r) else r)
      in if i @ f = [] then None else Some (base_val b 0 (i @ f), length f, r'))"

definition scan_ratio :: "bool \<Rightarrow> string \<Rightarrow> (flo_text \<times> string) option" where
  "scan_ratio neg s =
     (if starts_with ''0x'' (map to_lower s)
      then map_option (\<lambda>(n, k, r). let (x, r') = scan_exponent CHR ''p'' r; y = x - 4 * int k
             in (TRatio neg (n * 2 ^ nat y) (2 ^ nat (- y)), r')) (scan_mantissa is_hex 16 (drop 2 s))
      else map_option (\<lambda>(n, k, r). let (x, r') = scan_exponent CHR ''e'' r; y = x - int k
             in (TRatio neg (n * 10 ^ nat y) (10 ^ nat (- y)), r')) (scan_mantissa is_digit 10 s))"

definition scan_flo :: "string \<Rightarrow> (flo_text \<times> string) option" where
  "scan_flo s =
     (let neg = (s \<noteq> [] \<and> hd s = CHR ''-''); t = (if s \<noteq> [] \<and> hd s \<in> set ''+-'' then tl s else s);
          l = map to_lower t
      in if starts_with ''nan'' l then Some (TNaN, drop 3 t)
         else if starts_with ''infinity'' l then Some (TInf neg, drop 8 t)
         else if starts_with ''infi'' l then None
         else if starts_with ''inf'' l then Some (TInf neg, drop 3 t)
         else scan_ratio neg t)"

fun sscanf :: "conv list \<Rightarrow> string \<Rightarrow> sval list" where
  "sscanf [] s = []"
| "sscanf (CSp # f) s = sscanf f (skip_ws s)"
| "sscanf (CLit c # f) s =
     (case s of [] \<Rightarrow> [] | x # r \<Rightarrow> if x = c then sscanf f r else [])"
| "sscanf (CUntil c # f) s =
     (let t = takeWhile (\<lambda>x. x \<noteq> c) s
      in if t = [] then [] else SStr t # sscanf f (dropWhile (\<lambda>x. x \<noteq> c) s))"
| "sscanf (CWord # f) s =
     (let t = takeWhile (\<lambda>x. \<not> is_ws x) (skip_ws s)
      in if t = [] then [] else SStr t # sscanf f (dropWhile (\<lambda>x. \<not> is_ws x) (skip_ws s)))"
| "sscanf (CDec # f) s =
     (case scan_int (skip_ws s) of None \<Rightarrow> []
      | Some (v, r) \<Rightarrow> SInt (strtol_sat v) # sscanf f r)"
| "sscanf (CUDec # f) s =
     (case scan_int (skip_ws s) of None \<Rightarrow> []
      | Some (v, r) \<Rightarrow> SInt (strtoul_sat v) # sscanf f r)"
| "sscanf (CFlo # f) s =
     (case scan_flo (skip_ws s) of None \<Rightarrow> []
      | Some (v, r) \<Rightarrow> SFlo v # sscanf f r)"
| "sscanf (CChr # f) s = (case s of [] \<Rightarrow> [] | x # r \<Rightarrow> SChr x # sscanf f r)"

text \<open>Reading the \<open>i\<close>-th assigned value; a field that was not assigned keeps its value.\<close>

definition get_str :: "sval list \<Rightarrow> nat \<Rightarrow> string \<Rightarrow> string" where
  "get_str vs i old = (if i < length vs then (case vs ! i of SStr s \<Rightarrow> s | _ \<Rightarrow> old) else old)"

definition get_int :: "sval list \<Rightarrow> nat \<Rightarrow> 'n::len word \<Rightarrow> 'n word" where
  "get_int vs i old =
     (if i < length vs then (case vs ! i of SInt v \<Rightarrow> word_of_int v | _ \<Rightarrow> old) else old)"

definition get_chr :: "sval list \<Rightarrow> nat \<Rightarrow> char \<Rightarrow> char" where
  "get_chr vs i old = (if i < length vs then (case vs ! i of SChr c \<Rightarrow> c | _ \<Rightarrow> old) else old)"

text \<open>\<open>atoi\<close>, before its result is cut to the width of an \<open>int\<close>; 0 when there is no number.\<close>

definition atoi :: "string \<Rightarrow> int" where
  "atoi t = (case scan_int (skip_ws t) of None \<Rightarrow> 0 | Some (v, _) \<Rightarrow> strtol_sat v)"

text \<open>A \<open>double\<close> or a \<open>float\<close>, by its rounding.\<close>

definition get_flo :: "(bool \<Rightarrow> nat \<Rightarrow> nat \<Rightarrow> flo) \<Rightarrow> sval list \<Rightarrow> nat \<Rightarrow> flo \<Rightarrow> flo" where
  "get_flo rnd vs i old =
     (if i < length vs
      then (case vs ! i of SFlo (TRatio neg a b) \<Rightarrow> rnd neg a b | SFlo TNaN \<Rightarrow> NaN
            | SFlo (TInf neg) \<Rightarrow> Infinite neg | _ \<Rightarrow> old)
      else old)"

lemma is_digit_not_ws: "is_digit c \<Longrightarrow> \<not> is_ws c"
  by (auto simp: is_digit_def is_ws_def)

lemma is_digit_not_sign: "is_digit c \<Longrightarrow> c \<noteq> CHR ''-'' \<and> c \<noteq> CHR ''+''"
  by (auto simp: is_digit_def)

lemma dec_Cons: "\<exists>c s. dec n = c # s \<and> is_digit c"
  using dec_nonempty [of n] dec_digits [of _ n] by (cases "dec n") auto

lemma skip_ws_dec [simp]: "skip_ws (dec n @ r) = dec n @ r"
  using dec_Cons [of n] by (auto simp: skip_ws_def is_digit_not_ws)

lemma scan_digits_dec:
  assumes "r = [] \<or> \<not> is_digit (hd r)"
  shows "scan_digits (dec n @ r) = Some (n, r)"
proof -
  have "takeWhile is_digit (dec n @ r) = dec n"
    using assms by (cases r) (auto simp: takeWhile_append2 dec_digits)
  moreover have "dropWhile is_digit (dec n @ r) = r"
    using assms by (cases r) (auto simp: dropWhile_append2 dec_digits)
  ultimately show ?thesis by (simp add: scan_digits_def)
qed

lemma scan_int_dec:
  assumes "r = [] \<or> \<not> is_digit (hd r)"
  shows "scan_int (dec n @ r) = Some (int n, r)"
proof -
  obtain c s where cs: "dec n = c # s" "is_digit c"
    using dec_Cons by blast
  then have "scan_int (dec n @ r) = map_option (\<lambda>(n, r). (int n, r)) (scan_digits (dec n @ r))"
    using is_digit_not_sign [OF cs(2)] by simp
  then show ?thesis by (simp add: scan_digits_dec [OF assms])
qed

text \<open>A printed number below \<open>2^63\<close> followed by a non-digit is read back.\<close>

lemma sscanf_CDec_dec:
  "n < 2 ^ 63 \<Longrightarrow> r = [] \<or> \<not> is_digit (hd r) \<Longrightarrow>
     sscanf (CDec # f) (dec n @ r) = SInt (int n) # sscanf f r"
  by (simp add: scan_int_dec strtol_sat_def)

lemma atoi_dec [simp]: "n < 2 ^ 63 \<Longrightarrow> atoi (dec n) = int n"
  using scan_int_dec [of "[]" n] skip_ws_dec [of n "[]"] by (simp add: atoi_def strtol_sat_def)

text \<open>A non-empty field without the stop character, followed by it, is read back.\<close>

lemma takeWhile_field [simp]: "c \<notin> set t \<Longrightarrow> takeWhile (\<lambda>x. x \<noteq> c) (t @ c # r) = t"
  by (induction t) auto

lemma dropWhile_field [simp]: "c \<notin> set t \<Longrightarrow> dropWhile (\<lambda>x. x \<noteq> c) (t @ c # r) = c # r"
  by (induction t) auto

lemma sscanf_CUntil_field:
  "t \<noteq> [] \<Longrightarrow> c \<notin> set t \<Longrightarrow>
     sscanf (CUntil c # CLit c # f) (t @ c # r) = SStr t # sscanf f r"
  by simp

lemma sscanf_CLit [simp]: "sscanf (CLit c # f) (c # r) = sscanf f r"
  by simp

lemmas sscanf_simps = sscanf_CDec_dec sscanf_CUntil_field sscanf_CLit

end
