(* ===== verification/Publib.thy ===== *)
theory Publib
  imports CString
begin

text \<open>
  \<open>lib/publib.c\<close>: the BCD conversions used by every frame that carries a device address or a
  time, the byte swap macros of \<open>publib.h\<close>, and \<open>get_system_time\<close>. C's \<open>int\<close>
  expressions on small non-negative values are natural numbers, truncated at each store to a
  \<open>uint8_t\<close> or \<open>uint16_t\<close>. The lemmas show where the conversions are inverse to
  each other, exactly.
\<close>

subsection \<open>BCD\<close>

definition db_to_bcd :: "u16 \<Rightarrow> u16" where
  "db_to_bcd value =
     (let high_byte = unat (word_of_nat (unat value div 100) :: u8);
          low_byte = unat (word_of_nat (unat value mod 100) :: u8);
          hi = unat (word_of_nat (push_bit 4 (high_byte div 10) OR (high_byte mod 10)) :: u16);
          lo = unat (word_of_nat (push_bit 4 (low_byte div 10) OR (low_byte mod 10)) :: u16)
      in word_of_nat (push_bit 8 hi OR lo))"

definition bcd_to_byte :: "u8 \<Rightarrow> int" where
  "bcd_to_byte value =
     int ((drop_bit 4 (unat value) AND 15) * 10 + (unat value AND 15))"

definition byte_to_bcd :: "u8 \<Rightarrow> u8" where
  "byte_to_bcd bcd = word_of_nat (push_bit 4 (unat bcd div 10) OR (unat bcd mod 10))"

definition bcd_to_db :: "u16 \<Rightarrow> int" where
  "bcd_to_db value =
     int ((drop_bit 12 (unat value) AND 15) * 1000 + (drop_bit 8 (unat value) AND 15) * 100
          + (drop_bit 4 (unat value) AND 15) * 10 + (unat value AND 15))"

definition BSWAP16 :: "u16 \<Rightarrow> u16" where
  "BSWAP16 x = ucast (((drop_bit 8 (ucast x :: u32)) AND 0x00FF) OR
                      ((push_bit 8 (ucast x :: u32)) AND 0xFF00))"

definition BSWAP32 :: "u32 \<Rightarrow> u32" where
  "BSWAP32 x = (drop_bit 24 x AND 0x000000FF) OR (drop_bit 8 x AND 0x0000FF00) OR
               (push_bit 8 x AND 0x00FF0000) OR (push_bit 24 x AND 0xFF000000)"

text \<open>The arithmetic the shifts and masks compute.\<close>

lemma byte_to_bcd_nat: "unat (byte_to_bcd v) = 16 * (unat v div 10 mod 16) + unat v mod 10"
proof -
  have "unat (byte_to_bcd v) = (16 * (unat v div 10) + unat v mod 10) mod 256"
    by (simp add: byte_to_bcd_def or_shift_nat unat_store_u8 mult.commute
        del: of_nat_add of_nat_mult)
  then show ?thesis by (simp add: nibble_mod)
qed

lemma bcd_to_byte_nat: "bcd_to_byte v = int (unat v div 16 mod 16 * 10 + unat v mod 16)"
  by (simp add: bcd_to_byte_def drop_bit_eq_div)

lemma bcd_to_db_nat:
  "bcd_to_db v = int (unat v div 4096 mod 16 * 1000 + unat v div 256 mod 16 * 100
                      + unat v div 16 mod 16 * 10 + unat v mod 16)"
  by (simp add: bcd_to_db_def drop_bit_eq_div)

lemma db_to_bcd_nat:
  "unat (db_to_bcd v) =
     (let h = unat v div 100 mod 256; l = unat v mod 100
      in 256 * (16 * (h div 10 mod 16) + h mod 10) + (16 * (l div 10) + l mod 10))"
proof -
  define h where "h = unat v div 100 mod 256"
  define l where "l = unat v mod 100"
  have h: "h < 256" and l: "l < 100" by (simp_all add: h_def l_def)
  have hi: "unat (word_of_nat (push_bit 4 (h div 10) OR (h mod 10)) :: u16) = 16 * (h div 10) + h mod 10"
    using h by (simp add: or_shift_nat unat_store_u16 mult.commute del: of_nat_add of_nat_mult)
  have lo: "unat (word_of_nat (push_bit 4 (l div 10) OR (l mod 10)) :: u16) = 16 * (l div 10) + l mod 10"
    using l by (simp add: or_shift_nat unat_store_u16 mult.commute del: of_nat_add of_nat_mult)
  have lb: "16 * (l div 10) + l mod 10 < 256" using l by simp
  have "unat (db_to_bcd v) = unat (word_of_nat (push_bit 8 (16 * (h div 10) + h mod 10)
          OR (16 * (l div 10) + l mod 10)) :: u16)"
    using h l by (simp only: db_to_bcd_def Let_def unat_store_u8 h_def [symmetric] l_def [symmetric]
        hi [symmetric] lo [symmetric] mod_less)
  also have "\<dots> = (256 * (16 * (h div 10) + h mod 10) + (16 * (l div 10) + l mod 10)) mod 65536"
    using lb by (simp add: or_shift_nat unat_store_u16 mult.commute del: of_nat_add of_nat_mult)
  also have "\<dots> = 256 * ((16 * (h div 10) + h mod 10) mod 256) + (16 * (l div 10) + l mod 10)"
    by (rule byte_mod [OF lb])
  finally show ?thesis
    by (simp add: Let_def nibble_mod h_def l_def)
qed

text \<open>Digits of a number, and when they give it back.\<close>

lemma two_digits_iff: "(n::nat) div 10 mod 16 * 10 + n mod 10 = n \<longleftrightarrow> n div 10 mod 16 = n div 10"
proof -
  have "n = n div 10 * 10 + n mod 10" by simp
  then show ?thesis by linarith
qed

lemma bcd_byte_value: "bcd_to_byte (byte_to_bcd v) = int (unat v div 10 mod 16 * 10 + unat v mod 10)"
proof -
  have "(16 * a + b) div 16 mod 16 = a mod 16 \<and> (16 * a + b) mod 16 = b" if "b < 10" for a b :: nat
    using that by simp
  from this [of "unat v mod 10" "unat v div 10 mod 16"] show ?thesis
    by (simp add: bcd_to_byte_nat byte_to_bcd_nat)
qed

lemma bcd_db_value:
  "bcd_to_db (db_to_bcd v) =
     (let h = unat v div 100 mod 256 in int ((h div 10 mod 16 * 10 + h mod 10) * 100 + unat v mod 100))"
proof -
  define h where "h = unat v div 100 mod 256"
  define l where "l = unat v mod 100"
  define x where "x = 16 * (h div 10 mod 16) + h mod 10"
  define y where "y = 16 * (l div 10) + l mod 10"
  have l: "l < 100" by (simp add: l_def)
  have y: "y < 256" using l by (simp add: y_def)
  have v: "unat (db_to_bcd v) = 256 * x + y"
    by (simp add: db_to_bcd_nat Let_def x_def y_def h_def l_def)
  have d1: "(256 * x + y) div 256 = x" using y by simp
  have d2: "(256 * x + y) div 4096 = x div 16"
    using div_mult2_eq [of "256 * x + y" 256 16] d1 by simp
  have d3: "(256 * x + y) div 16 mod 16 = y div 16"
  proof -
    have "(256 * x + y) div 16 = 16 * x + y div 16"
      using div_mult_self4 [of 16 "16 * x" y] by (simp add: mult.commute mult.left_commute)
    then show ?thesis using y by simp
  qed
  have d4: "(256 * x + y) mod 16 = y mod 16"
    using mod_mult_self2 [of y 16 "16 * x"] by (simp add: add.commute)
  note d = d1 d2 d3 d4
  have e: "x div 16 mod 16 = h div 10 mod 16" "x mod 16 = h mod 10"
    "y div 16 = l div 10" "y mod 16 = l mod 10"
    by (simp_all add: x_def y_def)
  have "bcd_to_db (db_to_bcd v) =
      int (h div 10 mod 16 * 1000 + h mod 10 * 100 + l div 10 * 10 + l mod 10)"
    by (simp only: bcd_to_db_nat v d e)
  moreover have "h div 10 mod 16 * 1000 + h mod 10 * 100 + l div 10 * 10 + l mod 10
      = (h div 10 mod 16 * 10 + h mod 10) * 100 + l"
    by (simp add: algebra_simps)
  ultimately show ?thesis
    by (simp only: Let_def h_def [symmetric] l_def [symmetric])
qed

lemma bcd_db_id: "bcd_to_db (db_to_bcd v) = int (unat v) \<longleftrightarrow> unat v < 16000"
proof -
  define h where "h = unat v div 100 mod 256"
  define l where "l = unat v mod 100"
  have l: "l < 100" by (simp add: l_def)
  have val: "bcd_to_db (db_to_bcd v) = int ((h div 10 mod 16 * 10 + h mod 10) * 100 + l)"
    by (simp add: bcd_db_value Let_def h_def l_def)
  show ?thesis
  proof (cases "unat v < 16000")
    case True
    then have "h = unat v div 100" "h div 10 mod 16 = h div 10" by (simp_all add: h_def)
    moreover have "h div 10 * 10 + h mod 10 = h" by simp
    ultimately show ?thesis using True by (simp add: val l_def)
  next
    case False
    have bound: "a \<le> 15 \<Longrightarrow> b \<le> 9 \<Longrightarrow> (a * 10 + b) * 100 + l < 16000" for a b :: nat
      using l mult_le_mono1 [of "a * 10 + b" 159 100] by linarith
    have "h div 10 mod 16 \<le> 15" "h mod 10 \<le> 9"
      by (simp_all flip: less_Suc_eq_le)
    then have "(h div 10 mod 16 * 10 + h mod 10) * 100 + l < 16000" by (rule bound)
    with False have "(h div 10 mod 16 * 10 + h mod 10) * 100 + l \<noteq> unat v" by metis
    with False show ?thesis unfolding val of_nat_eq_iff by blast
  qed
qed

text \<open>
  A device address put into a frame by \<open>db_to_bcd\<close> is read back by
  \<open>bcd_to_db\<close> exactly when it is below 16000: the four decimal digits of the protocol
  and the overhang of the high byte up to 159 survive, everything above is lost.
\<close>

theorem bcd_db_roundtrip: "bcd_to_db (db_to_bcd v) = int (unat v) \<longleftrightarrow> unat v < 16000"
  by (rule bcd_db_id)

lemma bcd_byte_id: "bcd_to_byte (byte_to_bcd v) = int (unat v) \<longleftrightarrow> unat v < 160"
proof -
  have "bcd_to_byte (byte_to_bcd v) = int (unat v) \<longleftrightarrow> unat v div 10 mod 16 = unat v div 10"
    unfolding bcd_byte_value of_nat_eq_iff by (rule two_digits_iff)
  also have "\<dots> \<longleftrightarrow> unat v < 160" by (auto simp: mod_eq_self_iff_div_eq_0)
  finally show ?thesis .
qed

text \<open>
  A one-byte field (year, month, day, hour, minute, second of the frames) survives
  \<open>byte_to_bcd\<close> followed by \<open>bcd_to_byte\<close> exactly when it is below 160.
\<close>

theorem bcd_byte_roundtrip: "bcd_to_byte (byte_to_bcd v) = int (unat v) \<longleftrightarrow> unat v < 160"
  by (rule bcd_byte_id)

text \<open>
  The four hexadecimal digits of the address field are the four decimal digits of the
  address, for every address the protocol allows (0 to 9999).
\<close>

theorem db_to_bcd_digits:
  assumes "unat v \<le> 9999"
  shows "unat (db_to_bcd v) = 4096 * (unat v div 1000) + 256 * (unat v div 100 mod 10)
           + 16 * (unat v div 10 mod 10) + unat v mod 10"
proof -
  let ?n = "unat v"
  have h: "?n div 100 mod 256 = ?n div 100" "?n div 100 div 10 mod 16 = ?n div 1000"
    using assms by (simp_all add: div_mult2_eq [symmetric])
  have l: "?n mod 100 div 10 = ?n div 10 mod 10" "?n mod 100 mod 10 = ?n mod 10"
    using mod_mult2_eq [of ?n 10 10] by simp_all
  show ?thesis by (simp add: db_to_bcd_nat Let_def h l)
qed

theorem db_to_bcd_digits_witness: "db_to_bcd 356 = 0x0356"
proof -
  have "unat (db_to_bcd 356) = 0x0356"
    by (subst db_to_bcd_digits) simp_all
  then show ?thesis by (simp add: word_unat_eq_iff)
qed

subsection \<open>Wall-clock time\<close>

text \<open>
  \<open>struct tm\<close> as \<open>localtime\<close> fills it (the C library's range of each field is a fact
  about that library); \<open>get_system_time\<close> copies it into the narrower \<open>CustomTime\<close>.
\<close>

record tm =
  tm_year :: int
  tm_mon :: int
  tm_mday :: int
  tm_hour :: int
  tm_min :: int
  tm_sec :: int

record CustomTime =
  usYear :: u16
  ucMonth :: u8
  ucDay :: u8
  ucHour :: u8
  ucMinute :: u8
  ucSecond :: u8

definition get_system_time :: "tm \<Rightarrow> CustomTime" where
  "get_system_time timeinfo =
     \<lparr> usYear = word_of_int (tm_year timeinfo + 1900),
       ucMonth = word_of_int (tm_mon timeinfo + 1),
       ucDay = word_of_int (tm_mday timeinfo),
       ucHour = word_of_int (tm_hour timeinfo),
       ucMinute = word_of_int (tm_min timeinfo),
       ucSecond = word_of_int (tm_sec timeinfo) \<rparr>"

text \<open>The range of a broken-down time, years 2000 to 2099 (the two-digit year of the frames).\<close>

definition valid_tm :: "tm \<Rightarrow> bool" where
  "valid_tm t = (tm_year t \<in> {100..199} \<and> tm_mon t \<in> {0..11} \<and> tm_mday t \<in> {1..31} \<and>
     tm_hour t \<in> {0..23} \<and> tm_min t \<in> {0..59} \<and> tm_sec t \<in> {0..60})"

text \<open>The fields of a valid time survive the BCD conversion.\<close>

lemma bcd_of_int: "0 \<le> n \<Longrightarrow> n < 160 \<Longrightarrow> bcd_to_byte (byte_to_bcd (word_of_int n)) = n"
proof -
  assume n: "0 \<le> n" "n < 160"
  then have "unat (word_of_int n :: u8) = nat n" by (simp add: unsigned_of_int take_bit_int_eq_self)
  with n bcd_byte_id [of "word_of_int n"] show ?thesis by simp
qed

lemma get_system_time_fields:
  assumes "valid_tm t"
  shows "uint (usYear (get_system_time t)) = tm_year t + 1900"
    "bcd_to_byte (byte_to_bcd (ucMonth (get_system_time t))) = tm_mon t + 1"
    "bcd_to_byte (byte_to_bcd (ucDay (get_system_time t))) = tm_mday t"
    "bcd_to_byte (byte_to_bcd (ucHour (get_system_time t))) = tm_hour t"
    "bcd_to_byte (byte_to_bcd (ucMinute (get_system_time t))) = tm_min t"
    "bcd_to_byte (byte_to_bcd (ucSecond (get_system_time t))) = tm_sec t"
  using assms by (simp_all add: valid_tm_def get_system_time_def bcd_of_int unsigned_of_int take_bit_int_eq_self
      del: of_int_add)

text \<open>A broken-down time used in examples: 2025-05-12 15:44:30.\<close>

definition tm_example :: tm where
  "tm_example = \<lparr> tm_year = 125, tm_mon = 4, tm_mday = 12, tm_hour = 15, tm_min = 44, tm_sec = 30 \<rparr>"

end
