(* ===== verification/World.thy ===== *)
theory World
  imports Publib "HOL-Library.State_Monad"
begin

text \<open>
  The world outside the program: shell, file system, clock, libssh, libcurl, the MQTT library, libevent, libusb, devices and buses.
  Every call the sources make to them is a \<open>request\<close>; what it answers is a parameter, the
  function \<open>env\<close> from the history and the request to a \<open>response\<close>: the return value,
  an auxiliary number, and the strings it delivers (the lines of a pipe, the blocks of a stream
  until its end). The program's calls and answers accumulate in \<open>trace\<close>. \<open>ub\<close> is the
  first memory fault; after it nothing more happens.

  \<open>localtime\<close> is the C library's, a function of the seconds \<open>time\<close> answers.

  A handle (session, channel, file, transfer) is the position in the trace of the call that
  created it, so no two live handles are equal and a second release of one is visible.
\<close>

datatype sys_req =
    Popen string | StatPath string | Access string | FOpen string string
  | FWrite nat string | FClose nat | FAppend string string | Chdir string | Getcwd
  | System string | LocalTime | Sleep

datatype ssh_req =
    SshNew | SshConnect nat string string | SshAuth nat string | SshDisconnect nat | SshFree nat
  | ChanNew nat | ChanOpen nat | ChanExec nat string | ChanEof nat | ChanClose nat | ChanFree nat

datatype sftp_req =
    SftpNew nat | SftpInit nat | SftpFree nat | SftpOpenR nat string | SftpOpenW nat string
  | SftpWrite nat string | SftpClose nat

datatype curl_req =
    CurlInit | CurlPost nat string string | CurlGet nat string string string
  | CurlPut nat string string string int | CurlCleanup nat | CurlGlobalInit | CurlGlobalCleanup

datatype mqtt_req =
    MqttCreate string string | MqttSetCallbacks nat | MqttConnect nat string string int int
  | MqttSend nat string bytes int bool | MqttSubscribe nat string int | MqttDestroy nat

datatype dev_req =
    Chmod string int | DevOpen string | TcGetAttr nat | TcRestore nat int | TcSetAttr nat "u32 list"
  | DevClose nat | DevRead nat nat | DevWrite nat string | Select nat int
  | Socket | SockConnect nat string int | SockSend nat string | SockClose nat | SockRead nat nat
  | OpenDir string | ReadDirType string string | RealPath string | CloseDir string | CurlHead nat string
  | DevSeek nat | SetRs485 nat u32 int

datatype usb_req =
    UsbInit | UsbOpen u16 u16 | UsbDevDesc nat | UsbConfDesc nat | UsbFreeConf nat | UsbClaim nat u8 | UsbRelease nat u8
  | UsbBulkOut nat u8 string u32 | UsbBulkIn nat u8 nat u32 | UsbClose nat | UsbExit

datatype bus_req =
    I2cSlave nat u8 | I2cTransfer nat "(u8 \<times> bool \<times> u16 \<times> string) list"
  | CanSocket | CanIndex nat string | CanFilter nat "string option" | CanBind nat int | CanRead nat | CanWrite nat u32 u8 bytes
  | Gettimeofday | ClockGettime

datatype evt_req =
    EvBaseNew | EvSignalNew nat int | EvReadNew nat nat | EvAdd nat | EvWait nat | EvLoopExit nat | EvFree nat | EvBaseFree nat
  | SrvReuse nat | SrvBind nat u16 | SrvListen nat int | SrvNonBlock nat | SrvAccept nat
  | BevNew nat nat | BevTimeouts nat int int | BevRead nat nat

datatype request = Sys sys_req | Ssh ssh_req | Sftp sftp_req | Curl curl_req | Mqtt mqtt_req | Dev dev_req
  | Usb usb_req | Bus bus_req | Evt evt_req

record response =
  rc :: int
  vl :: int
  out :: "string list"

type_synonym event = "request \<times> response"

record world =
  env :: "event list \<Rightarrow> request \<Rightarrow> response"
  localtime :: "int \<Rightarrow> tm"
  trace :: "event list"
  ub :: "fault option"

type_synonym 'a io = "(world, 'a) state"

abbreviation ret :: "'a \<Rightarrow> 'a io" where
  "ret \<equiv> State_Monad.return"

definition call :: "request \<Rightarrow> response io" where
  "call r = State (\<lambda>w.
     if ub w \<noteq> None then (\<lparr> rc = 0, vl = 0, out = [] \<rparr>, w)
     else let a = env w (trace w) r in (a, w\<lparr> trace := trace w @ [(r, a)] \<rparr>))"

text \<open>A call whose result is a handle, or \<open>NULL\<close> when the answer is 0.\<close>

definition call_handle :: "request \<Rightarrow> nat option io" where
  "call_handle r = State (\<lambda>w. case run_state (call r) w of
     (a, w') \<Rightarrow> (if rc a = 0 then None else Some (length (trace w)), w'))"

text \<open>A call that opens a stream: the handle and the answer with its blocks.\<close>

definition call_stream :: "request \<Rightarrow> (nat \<times> response) option io" where
  "call_stream r = State (\<lambda>w. case run_state (call r) w of
     (a, w') \<Rightarrow> (if rc a = 0 then None else Some (length (trace w), a), w'))"

definition fault_io :: "fault \<Rightarrow> unit io" where
  "fault_io e = State (\<lambda>w. ((), if ub w = None then w\<lparr> ub := Some e \<rparr> else w))"

definition check_io :: "bool \<Rightarrow> fault \<Rightarrow> unit io" where
  "check_io ok e = (if ok then ret () else fault_io e)"

definition tell :: "request \<Rightarrow> unit io" where
  "tell r = do { call r; ret () }"

text \<open>The calls of a loop over the blocks of a stream.\<close>

fun each_io :: "('a \<Rightarrow> unit io) \<Rightarrow> 'a list \<Rightarrow> unit io" where
  "each_io f [] = ret ()"
| "each_io f (x # xs) = do { f x; each_io f xs }"

text \<open>\<open>get_system_time\<close>: the clock, broken down.\<close>

definition read_clock :: "CustomTime io" where
  "read_clock = do {
     a \<leftarrow> call (Sys LocalTime);
     w \<leftarrow> State_Monad.get;
     ret (get_system_time (localtime w (vl a))) }"

definition events :: "'a io \<Rightarrow> world \<Rightarrow> event list" where
  "events m w = drop (length (trace w)) (trace (snd (run_state m w)))"

definition value_of :: "'a io \<Rightarrow> world \<Rightarrow> 'a" where
  "value_of m w = fst (run_state m w)"

subsection \<open>Executions only extend the trace\<close>

text \<open>\<open>extends\<close>: the environment is constant, the trace grows, a fault stays and freezes it.\<close>

definition extends :: "world \<Rightarrow> world \<Rightarrow> bool" where
  "extends w w' \<longleftrightarrow> env w' = env w \<and> (\<exists>es. trace w' = trace w @ es) \<and>
     (ub w \<noteq> None \<longrightarrow> ub w' = ub w \<and> trace w' = trace w)"

definition wf_io :: "'a io \<Rightarrow> bool" where
  "wf_io m \<longleftrightarrow> (\<forall>w. extends w (snd (run_state m w)))"

named_theorems wf_io_intros "the operations of the program are well-behaved on the world"

lemma extends_refl [simp]: "extends w w"
  by (simp add: extends_def)

lemma extends_trans: "extends w w' \<Longrightarrow> extends w' w'' \<Longrightarrow> extends w w''"
  unfolding extends_def by (metis append_assoc)

lemma wf_ret [wf_io_intros]: "wf_io (ret x)"
  by (simp add: wf_io_def)

lemma wf_bind [wf_io_intros]: "wf_io m \<Longrightarrow> (\<And>x. wf_io (f x)) \<Longrightarrow> wf_io (State_Monad.bind m f)"
  unfolding wf_io_def by (auto split: prod.split) (metis extends_trans snd_conv)

lemma wf_call [wf_io_intros]: "wf_io (call r)"
  by (auto simp: wf_io_def call_def extends_def Let_def)

lemma wf_call_handle [wf_io_intros]: "wf_io (call_handle r)"
  using wf_call [of r] by (simp add: wf_io_def call_handle_def case_prod_beta)

lemma wf_call_stream [wf_io_intros]: "wf_io (call_stream r)"
  using wf_call [of r] by (simp add: wf_io_def call_stream_def case_prod_beta)

lemma wf_fault [wf_io_intros]: "wf_io (fault_io e)"
  by (auto simp: wf_io_def fault_io_def extends_def)

lemma wf_check [wf_io_intros]: "wf_io (check_io ok e)"
  by (auto simp: check_io_def intro: wf_io_intros)

lemma wf_tell [wf_io_intros]: "wf_io (tell r)"
  unfolding tell_def by (intro wf_io_intros)

lemma wf_get [wf_io_intros]: "wf_io State_Monad.get"
  by (simp add: wf_io_def)

lemma wf_read_clock [wf_io_intros]: "wf_io read_clock"
  unfolding read_clock_def by (intro wf_io_intros)

lemma wf_each [wf_io_intros]: "(\<And>x. wf_io (f x)) \<Longrightarrow> wf_io (each_io f xs)"
  by (induction xs) (auto intro: wf_io_intros)

lemma wf_if [wf_io_intros]: "wf_io m \<Longrightarrow> wf_io n \<Longrightarrow> wf_io (if b then m else n)"
  by simp

lemma wf_case_option [wf_io_intros]:
  "wf_io m \<Longrightarrow> (\<And>x. wf_io (f x)) \<Longrightarrow> wf_io (case v of None \<Rightarrow> m | Some x \<Rightarrow> f x)"
  by (cases v) simp_all

lemma wf_case_prod [wf_io_intros]:
  "(\<And>x y. wf_io (f x y)) \<Longrightarrow> wf_io (case v of (x, y) \<Rightarrow> f x y)"
  by (cases v) simp

lemma wf_case_outcome [wf_io_intros]:
  "(\<And>e. wf_io (f e)) \<Longrightarrow> (\<And>x. wf_io (g x)) \<Longrightarrow> wf_io (case v of Inl e \<Rightarrow> f e | Inr x \<Rightarrow> g x)"
  by (cases v) simp_all

lemma wf_trace: "wf_io m \<Longrightarrow> trace (snd (run_state m w)) = trace w @ events m w"
  unfolding wf_io_def extends_def events_def by (metis append_eq_conv_conj)

lemma wf_env: "wf_io m \<Longrightarrow> env (snd (run_state m w)) = env w"
  unfolding wf_io_def extends_def by blast

subsection \<open>Events of composed operations\<close>

lemma events_ret [simp]: "events (ret x) w = []"
  by (simp add: events_def)

lemma value_of_ret [simp]: "value_of (ret x) w = x"
  by (simp add: value_of_def)

lemma run_value: "run_state m w = (value_of m w, snd (run_state m w))"
  by (simp add: value_of_def)

lemma value_of_bind [simp]:
  "value_of (State_Monad.bind m f) w = value_of (f (value_of m w)) (snd (run_state m w))"
  by (simp add: value_of_def split: prod.split)

lemma snd_bind:
  "snd (run_state (State_Monad.bind m f) w) = snd (run_state (f (value_of m w)) (snd (run_state m w)))"
  by (simp add: value_of_def split: prod.split)

lemma events_bind:
  assumes "wf_io m" "\<And>x. wf_io (f x)"
  shows "events (State_Monad.bind m f) w =
           events m w @ events (f (value_of m w)) (snd (run_state m w))"
  using wf_trace [OF assms(1), of w] wf_trace [OF assms(2), of "value_of m w" "snd (run_state m w)"]
  unfolding events_def [of "State_Monad.bind m f"] snd_bind by simp

text \<open>Running the primitive calls from a world without fault.\<close>

lemma run_call [simp]:
  "ub w = None \<Longrightarrow> run_state (call r) w =
     (env w (trace w) r, w\<lparr> trace := trace w @ [(r, env w (trace w) r)] \<rparr>)"
  by (simp add: call_def Let_def)

lemma run_call_handle [simp]:
  "ub w = None \<Longrightarrow> run_state (call_handle r) w =
     (if rc (env w (trace w) r) = 0 then None else Some (length (trace w)),
      w\<lparr> trace := trace w @ [(r, env w (trace w) r)] \<rparr>)"
  by (simp add: call_handle_def)

lemma run_call_stream [simp]:
  "ub w = None \<Longrightarrow> run_state (call_stream r) w =
     (if rc (env w (trace w) r) = 0 then None else Some (length (trace w), env w (trace w) r),
      w\<lparr> trace := trace w @ [(r, env w (trace w) r)] \<rparr>)"
  by (simp add: call_stream_def)

lemma run_tell [simp]:
  "ub w = None \<Longrightarrow> run_state (tell r) w = ((), w\<lparr> trace := trace w @ [(r, env w (trace w) r)] \<rparr>)"
  by (simp add: tell_def)

lemma run_read_clock [simp]:
  "ub w = None \<Longrightarrow> run_state read_clock w =
     (get_system_time (localtime w (vl (env w (trace w) (Sys LocalTime)))),
      w\<lparr> trace := trace w @ [(Sys LocalTime, env w (trace w) (Sys LocalTime))] \<rparr>)"
  by (simp add: read_clock_def)

text \<open>After a fault the calls change nothing.\<close>

lemma run_faulted [simp]:
  "ub w = Some e \<Longrightarrow> run_state (call r) w = (\<lparr> rc = 0, vl = 0, out = [] \<rparr>, w)"
  "ub w = Some e \<Longrightarrow> run_state (tell r) w = ((), w)"
  "ub w = Some e \<Longrightarrow> run_state (call_handle r) w = (None, w)"
  "ub w = Some e \<Longrightarrow> run_state (call_stream r) w = (None, w)"
  by (simp_all add: call_def tell_def call_handle_def call_stream_def)

subsection \<open>Releases\<close>

text \<open>The requests that give a handle back; twice the same one is a double free.\<close>

fun is_release :: "request \<Rightarrow> bool" where
  "is_release (Ssh (SshFree _)) = True"
| "is_release (Ssh (ChanFree _)) = True"
| "is_release (Sftp (SftpFree _)) = True"
| "is_release (Sftp (SftpClose _)) = True"
| "is_release (Sys (FClose _)) = True"
| "is_release (Curl (CurlCleanup _)) = True"
| "is_release (Usb (UsbClose _)) = True"
| "is_release (Usb (UsbFreeConf _)) = True"
| "is_release (Evt (EvFree _)) = True"
| "is_release (Evt (EvBaseFree _)) = True"
| "is_release _ = False"

definition releases :: "event list \<Rightarrow> request list" where
  "releases es = filter is_release (map fst es)"

lemma releases_simps [simp]:
  "releases [] = []" "releases (es @ fs) = releases es @ releases fs"
  "releases ((r, a) # es) = (if is_release r then r # releases es else releases es)"
  by (simp_all add: releases_def)

text \<open>A loop that only tells: the requests in order, each with its answer.\<close>

fun answers :: "(event list \<Rightarrow> request \<Rightarrow> response) \<Rightarrow> event list \<Rightarrow> request list \<Rightarrow> event list" where
  "answers e tr [] = []"
| "answers e tr (r # rs) = (r, e tr r) # answers e (tr @ [(r, e tr r)]) rs"

lemma fst_answers [simp]: "map fst (answers e tr rs) = rs"
  by (induction rs arbitrary: tr) auto

lemma in_answers: "(r, a) \<in> set (answers e tr rs) \<Longrightarrow> r \<in> set rs"
  by (metis fst_answers fst_conv image_eqI set_map)

lemma releases_answers [simp]: "releases (answers e tr rs) = filter is_release rs"
  by (simp add: releases_def)

lemma run_each_tell [simp]:
  "ub w = None \<Longrightarrow> run_state (each_io (\<lambda>b. tell (f b)) bs) w =
     ((), w\<lparr> trace := trace w @ answers (env w) (trace w) (map f bs) \<rparr>)"
  by (induction bs arbitrary: w) simp_all

subsection \<open>Which requests an operation can make\<close>

definition emits :: "(request \<Rightarrow> bool) \<Rightarrow> 'a io \<Rightarrow> bool" where
  "emits P m \<longleftrightarrow> wf_io m \<and> (\<forall>w. \<forall>e \<in> set (events m w). P (fst e))"

named_theorems emits_intros "requests of composed operations"

lemma emits_wf: "emits P m \<Longrightarrow> wf_io m"
  by (simp add: emits_def)

lemma emitsD: "emits P m \<Longrightarrow> (r, a) \<in> set (events m w) \<Longrightarrow> P r"
  unfolding emits_def by force

lemma emits_ret [emits_intros]: "emits P (ret x)"
  by (simp add: emits_def wf_ret)

lemma emits_get [emits_intros]: "emits P State_Monad.get"
  by (simp add: emits_def wf_get events_def)

lemma emits_fault [emits_intros]: "emits P (fault_io e)"
  using wf_fault [of e] by (simp add: emits_def events_def) (simp add: fault_io_def)

lemma emits_check [emits_intros]: "emits P (check_io b e)"
  by (simp add: check_io_def emits_ret emits_fault)

lemma emits_bind [emits_intros]:
  assumes "emits P m" "\<And>x. emits P (f x)"
  shows "emits P (State_Monad.bind m f)"
  using assms events_bind [OF emits_wf emits_wf, OF assms(1) assms(2)] unfolding emits_def
  by (auto intro: wf_bind)

lemma events_call: "events (call r) w = (if ub w = None then [(r, env w (trace w) r)] else [])"
  by (auto simp: events_def call_def Let_def)

lemma emits_call [emits_intros]: "P r \<Longrightarrow> emits P (call r)"
  by (simp add: emits_def wf_call events_call)

lemma emits_call_handle [emits_intros]: "P r \<Longrightarrow> emits P (call_handle r)"
  using events_call [of r] wf_call_handle [of r]
  by (auto simp: emits_def events_def call_handle_def case_prod_beta split: if_splits)

lemma emits_call_stream [emits_intros]: "P r \<Longrightarrow> emits P (call_stream r)"
  using events_call [of r] wf_call_stream [of r]
  by (auto simp: emits_def events_def call_stream_def case_prod_beta split: if_splits)

lemma emits_tell [emits_intros]: "P r \<Longrightarrow> emits P (tell r)"
  unfolding tell_def by (intro emits_intros)

lemma emits_read_clock [emits_intros]: "P (Sys LocalTime) \<Longrightarrow> emits P read_clock"
  unfolding read_clock_def by (intro emits_intros)

lemma emits_each [emits_intros]: "(\<And>x. emits P (f x)) \<Longrightarrow> emits P (each_io f xs)"
  by (induction xs) (auto intro: emits_intros)

lemma emits_if [emits_intros]: "(b \<Longrightarrow> emits P m) \<Longrightarrow> (\<not> b \<Longrightarrow> emits P n) \<Longrightarrow> emits P (if b then m else n)"
  by simp

lemma emits_case_option [emits_intros]:
  "emits P m \<Longrightarrow> (\<And>x. emits P (f x)) \<Longrightarrow> emits P (case v of None \<Rightarrow> m | Some x \<Rightarrow> f x)"
  by (cases v) simp_all

lemma emits_case_prod [emits_intros]:
  "(\<And>x y. emits P (f x y)) \<Longrightarrow> emits P (case v of (x, y) \<Rightarrow> f x y)"
  by (cases v) simp

lemma emits_case_sum [emits_intros]:
  "(\<And>e. emits P (f e)) \<Longrightarrow> (\<And>x. emits P (g x)) \<Longrightarrow> emits P (case v of Inl e \<Rightarrow> f e | Inr x \<Rightarrow> g x)"
  by (cases v) simp_all

text \<open>After a fault nothing is emitted, and a fault is never withdrawn.\<close>

lemma events_no_fault: "wf_io m \<Longrightarrow> e \<in> set (events m w) \<Longrightarrow> ub w = None"
  unfolding wf_io_def extends_def events_def by (metis drop_all empty_iff list.set(1) order_refl)

lemma fault_stays: "wf_io m \<Longrightarrow> ub (snd (run_state m w)) = None \<Longrightarrow> ub w = None"
  unfolding wf_io_def extends_def by metis

lemma fault_kept: "wf_io m \<Longrightarrow> ub w = Some e \<Longrightarrow> ub (snd (run_state m w)) = Some e"
  unfolding wf_io_def extends_def by simp

lemma no_fault_bind:
  assumes "\<And>x. wf_io (f x)"
  shows "ub (snd (run_state (State_Monad.bind m f) w)) = None \<longleftrightarrow>
     ub (snd (run_state m w)) = None \<and> ub (snd (run_state (f (value_of m w)) (snd (run_state m w)))) = None"
  using fault_stays [OF assms, of "value_of m w" "snd (run_state m w)"] by (auto simp: snd_bind simp del: run_state_bind)

text \<open>An event of either part is an event of the whole.\<close>

lemma in_events_bind:
  assumes "wf_io m" "\<And>x. wf_io (f x)"
  shows "e \<in> set (events (State_Monad.bind m f) w) \<longleftrightarrow>
     e \<in> set (events m w) \<or> e \<in> set (events (f (value_of m w)) (snd (run_state m w)))"
  using events_bind [OF assms, where w = w] by simp

subsection \<open>What an operation ensures unless it faults\<close>

definition ensures :: "('a \<Rightarrow> bool) \<Rightarrow> 'a io \<Rightarrow> bool" where
  "ensures P m \<longleftrightarrow> wf_io m \<and> (\<forall>w. ub (snd (run_state m w)) = None \<longrightarrow> P (value_of m w))"

named_theorems ensures_intros "results of composed operations"

lemma ensuresD: "ensures P m \<Longrightarrow> ub (snd (run_state m w)) = None \<Longrightarrow> P (value_of m w)"
  by (simp add: ensures_def)

lemma ensures_wf: "ensures P m \<Longrightarrow> wf_io m"
  by (simp add: ensures_def)

lemma ensures_ret [ensures_intros]: "P x \<Longrightarrow> ensures P (ret x)"
  by (simp add: ensures_def wf_ret)

lemma ensures_any: "wf_io m \<Longrightarrow> ensures (\<lambda>_. True) m"
  by (simp add: ensures_def)

lemma ensures_check: "ensures (\<lambda>_. ok) (check_io ok e)"
  by (auto simp: ensures_def check_io_def fault_io_def wf_ret wf_fault [unfolded fault_io_def] split: if_splits)

lemma ensures_bind:
  assumes "ensures Q m" "\<And>x. Q x \<Longrightarrow> ensures P (f x)" "\<And>x. wf_io (f x)"
  shows "ensures P (State_Monad.bind m f)"
  using assms wf_bind [OF ensures_wf [OF assms(1)] assms(3)]
  unfolding ensures_def by (simp add: no_fault_bind [OF assms(3)] del: run_state_bind)

text \<open>A step whose result does not matter.\<close>

lemma ensures_then [ensures_intros]:
  "wf_io m \<Longrightarrow> (\<And>x. ensures P (f x)) \<Longrightarrow> ensures P (State_Monad.bind m f)"
  by (rule ensures_bind [OF ensures_any]) (auto dest: ensures_wf)

lemma ensures_if [ensures_intros]: "(b \<Longrightarrow> ensures P m) \<Longrightarrow> (\<not> b \<Longrightarrow> ensures P n) \<Longrightarrow> ensures P (if b then m else n)"
  by simp

lemma ensures_case_prod [ensures_intros]:
  "(\<And>x y. ensures P (f x y)) \<Longrightarrow> ensures P (case v of (x, y) \<Rightarrow> f x y)"
  by (cases v) simp

lemma ensures_case_option [ensures_intros]:
  "ensures P m \<Longrightarrow> (\<And>x. ensures P (f x)) \<Longrightarrow> ensures P (case v of None \<Rightarrow> m | Some x \<Rightarrow> f x)"
  by (cases v) simp_all

end
