(* ===== verification/Shell.thy ===== *)
theory Shell
  imports World
begin

text \<open>
  The system helpers of \<open>lib/publib.c\<close> (\<open>_system_\<close>, \<open>dir_exists\<close>,
  \<open>is_file_empty\<close>, \<open>file_exists\<close>) and the log macros of
  \<open>services/firmware_updater.h\<close>. \<open>_system_\<close> reads the output of a command line by line into
  one buffer and keeps what the last read left there.
\<close>

definition newline :: char where "newline = CHR 0x0A"

text \<open>A C string ends at its first NUL.\<close>

definition c_str :: "string \<Rightarrow> string" where
  "c_str s = takeWhile (\<lambda>c. c \<noteq> CHR 0x00) s"

text \<open>\<open>fgets(buf, n + 1, fp)\<close>: at most \<open>n\<close> characters, through the first newline.\<close>

fun fgets :: "nat \<Rightarrow> string \<Rightarrow> string \<times> string" where
  "fgets 0 s = ([], s)"
| "fgets (Suc n) [] = ([], [])"
| "fgets (Suc n) (c # s) =
     (if c = newline then ([c], s) else (case fgets n s of (a, b) \<Rightarrow> (c # a, b)))"

lemma fgets_length: "fgets n s = (a, b) \<Longrightarrow> length s = length a + length b \<and> length a \<le> n"
  by (induction n s arbitrary: a b rule: fgets.induct) (auto split: if_splits prod.splits)

lemma fgets_progress: "0 < n \<Longrightarrow> s \<noteq> [] \<Longrightarrow> fgets n s = (a, b) \<Longrightarrow> length b < length s"
  by (cases "(n, s)" rule: fgets.cases) (auto split: if_splits prod.splits dest: fgets_length)

text \<open>The read loop: the buffer after the last successful \<open>fgets\<close>.\<close>

function last_chunk :: "nat \<Rightarrow> string \<Rightarrow> string \<Rightarrow> string" where
  "last_chunk n old s =
     (if n = 0 \<or> s = [] then old else (case fgets n s of (a, b) \<Rightarrow> last_chunk n a b))"
  by pat_completeness auto
termination
  by (relation "measure (\<lambda>(n, old, s). length s)") (auto split: prod.split dest: fgets_progress [rotated 2])

declare last_chunk.simps [simp del]

definition system_run :: "string \<Rightarrow> int io" where
  "system_run cmd = do {
     a \<leftarrow> call (Sys (Popen cmd));
     ret (if rc a = 0 then -2 else if vl a = -1 then -3 else 0) }"

text \<open>With a buffer of \<open>n\<close> characters that holds \<open>old\<close>: the return value and the buffer.\<close>

definition system_capture :: "string \<Rightarrow> nat \<Rightarrow> string \<Rightarrow> (int \<times> string) io" where
  "system_capture cmd n old = do {
     a \<leftarrow> call (Sys (Popen cmd));
     (if rc a = 0 then ret (-2, old)
      else let buf = c_str (last_chunk (n - 1) [] (concat (out a)))
           in ret (if vl a = -1 then -3 else 0, buf)) }"

definition S_ISDIR :: "int \<Rightarrow> bool" where
  "S_ISDIR mode = (mode div 4096 mod 16 = 4)"

definition dir_exists :: "string \<Rightarrow> bool io" where
  "dir_exists path = do { a \<leftarrow> call (Sys (StatPath path)); ret (rc a = 0 \<and> S_ISDIR (vl a)) }"

text \<open>The answer to the open carries the size \<open>ftell\<close> reports at the end.\<close>

definition is_file_empty :: "string \<Rightarrow> int io" where
  "is_file_empty filename = do {
     a \<leftarrow> call (Sys (FOpen filename ''r''));
     if rc a = 0 then ret (-1) else ret (if vl a = 0 then 1 else 0) }"

definition file_exists :: "string \<Rightarrow> bool io" where
  "file_exists path = do { a \<leftarrow> call (Sys (Access path)); ret (rc a = 0) }"

text \<open>\<open>UPDATE_LOG\<close> and \<open>UPDATE_LOG_FMT\<close>: open for append, print, close.\<close>

definition UPDATE_LOG :: "string \<Rightarrow> string \<Rightarrow> unit io" where
  "UPDATE_LOG file_name text = tell (Sys (FAppend file_name text))"

lemma wf_shell [wf_io_intros]:
  "wf_io (system_run cmd)" "wf_io (system_capture cmd n old)" "wf_io (dir_exists path)"
  "wf_io (is_file_empty path)" "wf_io (file_exists path)" "wf_io (UPDATE_LOG f t)"
  by (auto simp: system_run_def system_capture_def dir_exists_def is_file_empty_def file_exists_def
      UPDATE_LOG_def Let_def intro!: wf_io_intros)

lemma emits_shell [emits_intros]:
  "P (Sys (Popen cmd)) \<Longrightarrow> emits P (system_run cmd)"
  "P (Sys (Popen cmd)) \<Longrightarrow> emits P (system_capture cmd n old)"
  "P (Sys (StatPath path)) \<Longrightarrow> emits P (dir_exists path)"
  "P (Sys (FOpen path ''r'')) \<Longrightarrow> emits P (is_file_empty path)"
  "P (Sys (Access path)) \<Longrightarrow> emits P (file_exists path)"
  "P (Sys (FAppend f t)) \<Longrightarrow> emits P (UPDATE_LOG f t)"
  unfolding system_run_def system_capture_def dir_exists_def is_file_empty_def file_exists_def
    UPDATE_LOG_def Let_def by (intro emits_intros; assumption)+

subsection \<open>Only the last line of a command's output is kept\<close>

lemma fgets_line: "newline \<notin> set l \<Longrightarrow> length l \<le> n \<Longrightarrow> fgets n l = (l, [])"
  by (induction n l rule: fgets.induct) auto

lemma fgets_through:
  assumes "0 < n"
  shows "\<exists>a xs'. fgets n (xs @ newline # r) = (a, r) \<and> a \<noteq> [] \<or>
           (\<exists>ys. fgets n (xs @ newline # r) = (a, ys @ newline # r) \<and> length ys < length xs)"
  using assms
proof (induction xs arbitrary: n)
  case Nil
  then show ?case by (cases n) auto
next
  case (Cons c xs)
  then obtain m where n: "n = Suc m" by (cases n) auto
  show ?case
  proof (cases "c = newline")
    case True
    with n show ?thesis by auto
  next
    case False
    show ?thesis
    proof (cases m)
      case 0
      with n False show ?thesis by auto
    next
      case (Suc k)
      with Cons.IH [of m] n False show ?thesis by (auto split: prod.split)
    qed
  qed
qed

lemma last_chunk_line:
  assumes "0 < n" "newline \<notin> set l" "l \<noteq> []" "length l \<le> n"
  shows "last_chunk n old l = l"
  using assms by (simp add: last_chunk.simps [of n old] last_chunk.simps [of n l] fgets_line)

lemma last_chunk_last_line:
  assumes "0 < n" "newline \<notin> set l" "l \<noteq> []" "length l \<le> n"
  shows "last_chunk n old (xs @ newline # l) = l"
proof (induction xs arbitrary: old rule: measure_induct_rule [of length])
  case (less xs)
  from fgets_through [OF assms(1), of xs l] obtain a where
    "fgets n (xs @ newline # l) = (a, l) \<or>
     (\<exists>ys. fgets n (xs @ newline # l) = (a, ys @ newline # l) \<and> length ys < length xs)" by auto
  then show ?case
  proof
    assume "fgets n (xs @ newline # l) = (a, l)"
    then show ?thesis
      using assms(1) last_chunk_line [OF assms] by (simp add: last_chunk.simps [of n old])
  next
    assume "\<exists>ys. fgets n (xs @ newline # l) = (a, ys @ newline # l) \<and> length ys < length xs"
    then show ?thesis
      using assms(1) less.IH by (auto simp: last_chunk.simps [of n old])
  qed
qed

text \<open>
  \<open>_system_\<close> hands back the last line of the command's output, and only that: whatever was
  printed before it is overwritten in the buffer, at any buffer size the line fits.
\<close>

theorem system_keeps_last_line:
  assumes "ub w = None" "env w (trace w) (Sys (Popen cmd)) = \<lparr> rc = 1, vl = 0, out = [before @ newline # l] \<rparr>"
    and "newline \<notin> set l" "CHR 0x00 \<notin> set l" "l \<noteq> []" "length l < n"
  shows "fst (run_state (system_capture cmd n old) w) = (0, l)"
proof -
  have "last_chunk (n - 1) [] (before @ newline # l) = l"
    using assms(3,5,6) by (intro last_chunk_last_line) (auto simp: neq_Nil_conv)
  moreover have "c_str l = l"
    using assms(4) by (auto simp: c_str_def takeWhile_eq_all_conv)
  ultimately show ?thesis using assms by (simp add: system_capture_def call_def Let_def)
qed

definition shell_example :: world where
  "shell_example = \<lparr> env = \<lambda>_ _. \<lparr> rc = 1, vl = 0, out = [''first'' @ newline # ''second''] \<rparr>,
                     localtime = \<lambda>_. tm_example, trace = [], ub = None \<rparr>"

theorem system_keeps_last_line_witness:
  "fst (run_state (system_capture ''cat x'' 128 []) shell_example) = (0, ''second'')"
  by (rule system_keeps_last_line [where before = "''first''"])
    (simp_all add: shell_example_def newline_def)

end
