(* ===== verification/Serial.thy ===== *)
theory Serial
  imports Shell
begin

text \<open>
  \<open>hal/serial.c\<close>: the UART. \<open>serial_open\<close> opens the device without blocking,
  \<open>uart_configure\<close> computes its \<open>termios\<close> settings, \<open>serial_read\<close> collects what is there. The flag
  values are those of Linux.
\<close>

record SerialPort =
  fd :: nat
  is_open :: bool
  origin_tios :: int

definition uart_port_create :: SerialPort where
  "uart_port_create = \<lparr> fd = 0, is_open = False, origin_tios = 0 \<rparr>"

definition serial_open :: "SerialPort \<Rightarrow> string \<Rightarrow> (int \<times> SerialPort) io" where
  "serial_open p path = do {
     c \<leftarrow> call (Dev (Chmod path 438));
     if rc c = -1 then ret (-1, p)
     else do {
       f \<leftarrow> call_handle (Dev (DevOpen path));
       case f of None \<Rightarrow> ret (-1, p)
       | Some h \<Rightarrow> do {
           a \<leftarrow> call (Dev (TcGetAttr h));
           if rc a < 0 then do { tell (Dev (DevClose h)); ret (-2, p\<lparr> fd := h \<rparr>) }
           else ret (0, p\<lparr> fd := h, origin_tios := vl a, is_open := True \<rparr>) } } }"

definition serial_close :: "SerialPort \<Rightarrow> (int \<times> SerialPort) io" where
  "serial_close p =
     (if is_open p
      then do { tell (Dev (TcRestore (fd p) (origin_tios p))); tell (Dev (DevClose (fd p))); ret (0, p\<lparr> is_open := False \<rparr>) }
      else ret (0, p))"

definition serial_write :: "SerialPort \<Rightarrow> string \<Rightarrow> int io" where
  "serial_write p buf = (if \<not> is_open p then ret 0 else do { a \<leftarrow> call (Dev (DevWrite (fd p) buf)); ret (rc a) })"

subsection \<open>Reading\<close>

text \<open>
  \<open>read\<close> answers its return value, -1 when there is nothing to read, with the bytes read. The
  counters are \<open>size_t\<close>, so -1 is the largest value, is not \<open>\<le> 0\<close>, and is added to the total. The
  buffer is the caller's; the loop has fuel, \<open>None\<close> when it is used up.
\<close>

definition read_size :: "nat \<Rightarrow> nat" where
  "read_size cnt = (if 512 < cnt then 512 else cnt)"

fun serial_read_loop :: "nat \<Rightarrow> nat \<Rightarrow> nat \<Rightarrow> u64 \<Rightarrow> string \<Rightarrow> (u64 \<times> string) option io" where
  "serial_read_loop 0 f cnt t buf = ret None"
| "serial_read_loop (Suc n) f cnt t buf =
     (if t < of_nat (cnt - 1)
      then do {
        a \<leftarrow> call (Dev (DevRead f (read_size cnt)));
        let r = word_of_int (rc a); bs = take (nat (rc a)) (concat (out a)) in
        if r = 0 then ret (Some (t, buf))
        else do {
          check_io (unat t + length bs \<le> length buf) BufferOverflow;
          serial_read_loop n f cnt (t + r) (take (unat t) buf @ bs @ drop (unat t + length bs) buf) } }
      else ret (Some (t, buf)))"

text \<open>The return value is the total as a \<open>ssize_t\<close>.\<close>

definition serial_read :: "nat \<Rightarrow> SerialPort \<Rightarrow> string \<Rightarrow> nat \<Rightarrow> (int \<times> string) option io" where
  "serial_read fuel p buf cnt =
     (if \<not> is_open p then ret (Some (0, buf))
      else do {
        r \<leftarrow> serial_read_loop fuel (fd p) cnt 0 buf;
        ret (map_option (\<lambda>(t, b). (sint t, b)) r) })"

subsection \<open>Configuration\<close>

definition CBAUD :: u32 where "CBAUD = 0x100F"
definition CSIZE :: u32 where "CSIZE = 0x30"
definition CSTOPB :: u32 where "CSTOPB = 0x40"
definition CREAD :: u32 where "CREAD = 0x80"
definition PARENB :: u32 where "PARENB = 0x100"
definition PARODD :: u32 where "PARODD = 0x200"
definition CLOCAL :: u32 where "CLOCAL = 0x800"
definition CRTSCTS :: u32 where "CRTSCTS = 0x80000000"
definition INPCK :: u32 where "INPCK = 0x10"
definition ISTRIP :: u32 where "ISTRIP = 0x20"
definition IXON :: u32 where "IXON = 0x400"
definition IXANY :: u32 where "IXANY = 0x800"
definition IXOFF :: u32 where "IXOFF = 0x1000"

lemmas tio_flags = CBAUD_def CSIZE_def CSTOPB_def CREAD_def PARENB_def PARODD_def CLOCAL_def CRTSCTS_def INPCK_def ISTRIP_def
  IXON_def IXANY_def IXOFF_def

record Termios =
  c_iflag :: u32
  c_oflag :: u32
  c_cflag :: u32
  c_lflag :: u32
  c_speed :: u32

text \<open>\<open>cfmakeraw\<close> of a cleared structure: 8 data bits, nothing else.\<close>

definition raw_tios :: Termios where
  "raw_tios = \<lparr> c_iflag = 0, c_oflag = 0, c_cflag = 0x30, c_lflag = 0, c_speed = 0 \<rparr>"

record SerialPortInfo =
  speed :: nat
  data_bits :: int
  stop_bits :: int
  parity :: char
  fctl :: int

definition conv_baud :: "nat \<Rightarrow> u32" where
  "conv_baud b =
     (if b = 2400 then 11 else if b = 4800 then 12 else if b = 9600 then 13 else if b = 19200 then 14
      else if b = 38400 then 15 else if b = 57600 then 4097 else if b = 115200 then 4098
      else if b = 1000000 then 4104 else 13)"

text \<open>\<open>cfsetispeed\<close>, \<open>cfsetospeed\<close>: the speed replaces its bits of \<open>c_cflag\<close>.\<close>

definition cfsetspeed :: "u32 \<Rightarrow> u32 \<Rightarrow> u32" where
  "cfsetspeed v c = (c AND NOT CBAUD) OR v"

definition set_fctl :: "int \<Rightarrow> u32 \<Rightarrow> u32" where
  "set_fctl f c = (if f = 0 then c AND NOT CRTSCTS else if f = 1 then c OR CRTSCTS
     else if f = 2 then c OR (IXON OR IXOFF OR IXANY) else c)"

definition set_data_bits :: "int \<Rightarrow> u32 \<Rightarrow> u32 option" where
  "set_data_bits d c = (if d = 5 then Some c else if d = 6 then Some (c OR 0x10) else if d = 7 then Some (c OR 0x20)
     else if d = 8 then Some (c OR 0x30) else None)"

definition set_parity :: "char \<Rightarrow> u32 \<Rightarrow> u32 \<Rightarrow> (u32 \<times> u32) option" where
  "set_parity p i c = (if p = CHR ''O'' then Some (i OR (INPCK OR ISTRIP), c OR (PARENB OR PARODD))
     else if p = CHR ''E'' then Some (i OR (INPCK OR ISTRIP), (c OR PARENB) AND NOT PARODD)
     else if p = CHR ''N'' then Some (i, c AND NOT PARENB) else None)"

definition set_stop_bits :: "int \<Rightarrow> u32 \<Rightarrow> u32 option" where
  "set_stop_bits s c = (if s = 1 then Some (c AND NOT CSTOPB) else if s = 2 then Some (c OR CSTOPB) else None)"

definition uart_tios :: "SerialPortInfo \<Rightarrow> Termios option" where
  "uart_tios info =
     (let c = (c_cflag raw_tios OR (CLOCAL OR CREAD)) AND NOT CSIZE in
      case set_data_bits (data_bits info) (set_fctl (fctl info) c) of None \<Rightarrow> None
      | Some c \<Rightarrow>
          (case set_parity (parity info) (c_iflag raw_tios) c of None \<Rightarrow> None
           | Some (i, c) \<Rightarrow>
               (case set_stop_bits (stop_bits info) (cfsetspeed (conv_baud (speed info)) c) of None \<Rightarrow> None
                | Some c \<Rightarrow> Some (raw_tios\<lparr> c_iflag := i, c_cflag := c, c_speed := conv_baud (speed info) \<rparr>))))"

definition uart_configure :: "SerialPort \<Rightarrow> SerialPortInfo option \<Rightarrow> int io" where
  "uart_configure p info =
     (case Option.bind info uart_tios of None \<Rightarrow> ret (-1)
      | Some t \<Rightarrow> do {
          a \<leftarrow> call (Dev (TcSetAttr (fd p) [c_iflag t, c_oflag t, c_cflag t, c_lflag t, c_speed t]));
          ret (if rc a \<noteq> 0 then -1 else 0) })"

lemma wf_serial_loop [wf_io_intros]: "wf_io (serial_read_loop n f cnt t buf)"
  by (induction n arbitrary: t buf) (auto simp: Let_def intro!: wf_io_intros)

lemma wf_serial [wf_io_intros]:
  "wf_io (serial_open p path)" "wf_io (serial_close p)" "wf_io (serial_write p s)" "wf_io (serial_read fuel p buf cnt)"
  "wf_io (uart_configure p info)"
  unfolding serial_open_def serial_close_def serial_write_def serial_read_def uart_configure_def
  by (intro wf_io_intros)+

lemma and_zeroD: "(M :: u32) AND N = 0 \<Longrightarrow> bit M k \<Longrightarrow> \<not> bit N k"
  by (metis bit_and_iff bit_0_eq bot_apply bot_bool_def)

lemma cleared_bits: "(x AND NOT m) AND m = (0 :: u32)"
  by (rule bit_word_eqI) (simp add: bit_simps)

lemma added_bits: "(x OR m) AND m = (m :: u32)"
  by (rule bit_word_eqI) (auto simp: bit_simps)

lemma replaced_bits:
  assumes "v AND m = v"
  shows "((x AND NOT m) OR v) AND m = (v :: u32)"
proof -
  have "bit v k \<Longrightarrow> bit m k" for k by (metis assms bit_and_iff)
  then show ?thesis by (intro bit_word_eqI) (auto simp: bit_simps)
qed

lemma speed_other: "v AND CBAUD = v \<Longrightarrow> M AND CBAUD = 0 \<Longrightarrow> cfsetspeed v c AND M = c AND M"
proof (rule bit_word_eqI)
  fix k
  assume v: "v AND CBAUD = v" "M AND CBAUD = 0" and k: "k < LENGTH(32)"
  have "bit v k \<Longrightarrow> bit CBAUD k" by (metis v(1) bit_and_iff)
  then show "bit (cfsetspeed v c AND M) k \<longleftrightarrow> bit (c AND M) k"
    using and_zeroD [OF v(2), of k] k by (auto simp: cfsetspeed_def bit_simps)
qed

lemma stop_other: "set_stop_bits s c = Some c' \<Longrightarrow> M AND CSTOPB = 0 \<Longrightarrow> c' AND M = c AND M"
  by (rule bit_word_eqI) (auto simp: set_stop_bits_def bit_simps dest: and_zeroD split: if_splits)

lemma baud_bits: "conv_baud b AND CBAUD = conv_baud b"
  by (simp add: conv_baud_def CBAUD_def)

text \<open>The bits after the parity step, over all requests: evaluated.\<close>

definition settings_ok :: "int \<Rightarrow> char \<Rightarrow> int \<Rightarrow> u32 \<Rightarrow> u32 \<Rightarrow> bool" where
  "settings_ok d p f i c \<longleftrightarrow>
     c AND CSIZE = of_int (d - 5) * 0x10 \<and> (c AND PARENB \<noteq> 0 \<longleftrightarrow> p \<noteq> CHR ''N'') \<and>
     (c AND PARODD \<noteq> 0 \<longleftrightarrow> p = CHR ''O'') \<and> (c AND CRTSCTS \<noteq> 0 \<longleftrightarrow> f = 1) \<and>
     c AND (CREAD OR CLOCAL) = CREAD OR CLOCAL \<and> i AND (IXON OR IXOFF OR IXANY) = 0"

definition stage_ok :: "int \<Rightarrow> char \<Rightarrow> int \<Rightarrow> bool" where
  "stage_ok d p f = (case Option.bind (set_data_bits d (set_fctl f 0x880)) (set_parity p 0) of
     None \<Rightarrow> False | Some (i, c) \<Rightarrow> settings_ok d p f i c)"

lemma all_stages: "list_all (\<lambda>d. list_all (\<lambda>p. list_all (stage_ok d p) [0, 1, 2, 3]) ''OEN'') [5, 6, 7, 8]"
  by code_simp

lemma stage_other: "f \<notin> {0, 1, 2} \<Longrightarrow> stage_ok d p f = stage_ok d p 3"
  by (auto simp: stage_ok_def set_fctl_def settings_ok_def split: option.split)

lemma parity_stage:
  assumes "set_data_bits d (set_fctl f 0x880) = Some c0" "set_parity p 0 c0 = Some (i, c)"
  shows "settings_ok d p f i c"
proof -
  have "d \<in> {5, 6, 7, 8}" "p \<in> {CHR ''O'', CHR ''E'', CHR ''N''}"
    using assms by (auto simp: set_data_bits_def set_parity_def split: if_splits)
  then have "stage_ok d p f"
    using all_stages stage_other [of f d p] by (cases "f \<in> {0, 1, 2}") auto
  with assms show ?thesis by (simp add: stage_ok_def)
qed

text \<open>
  The computed settings carry the requested data bits, parity, stop bits and hardware flow control,
  with the receiver on and modem lines ignored, for every valid request and no other; the request for
  software flow control never turns it on, because its flags go into \<open>c_cflag\<close>.
\<close>

theorem uart_settings:
  "(uart_tios info = None \<longleftrightarrow>
      data_bits info \<notin> {5..8} \<or> parity info \<notin> {CHR ''O'', CHR ''E'', CHR ''N''} \<or> stop_bits info \<notin> {1, 2}) \<and>
   (case uart_tios info of None \<Rightarrow> True
    | Some t \<Rightarrow>
       c_cflag t AND CSIZE = of_int (data_bits info - 5) * 0x10 \<and>
       (c_cflag t AND PARENB \<noteq> 0 \<longleftrightarrow> parity info \<noteq> CHR ''N'') \<and> (c_cflag t AND PARODD \<noteq> 0 \<longleftrightarrow> parity info = CHR ''O'') \<and>
       (c_cflag t AND CSTOPB \<noteq> 0 \<longleftrightarrow> stop_bits info = 2) \<and> (c_cflag t AND CRTSCTS \<noteq> 0 \<longleftrightarrow> fctl info = 1) \<and>
       c_cflag t AND (CREAD OR CLOCAL) = CREAD OR CLOCAL \<and> c_iflag t AND (IXON OR IXOFF OR IXANY) = 0 \<and>
       c_cflag t AND CBAUD = conv_baud (speed info))"
proof (cases "uart_tios info")
  case None
  then show ?thesis
    by (auto simp: uart_tios_def Let_def set_data_bits_def set_parity_def set_stop_bits_def split: option.splits if_splits)
next
  case (Some t)
  have base: "(c_cflag raw_tios OR (CLOCAL OR CREAD)) AND NOT CSIZE = 0x880" by (simp add: raw_tios_def tio_flags)
  from Some obtain c0 i c c' where s: "set_data_bits (data_bits info) (set_fctl (fctl info) 0x880) = Some c0"
    "set_parity (parity info) 0 c0 = Some (i, c)"
    "set_stop_bits (stop_bits info) (cfsetspeed (conv_baud (speed info)) c) = Some c'"
    and t: "c_cflag t = c'" "c_iflag t = i"
    unfolding uart_tios_def base by (auto simp: raw_tios_def Let_def split: option.splits)
  have m: "c' AND M = c AND M" if "M AND CSTOPB = 0" "M AND CBAUD = 0" for M
    using stop_other [OF s(3) that(1)] speed_other [OF baud_bits that(2), of "speed info" c] by simp
  have "data_bits info \<in> {5..8}" "parity info \<in> {CHR ''O'', CHR ''E'', CHR ''N''}" "stop_bits info \<in> {1, 2}"
    using s by (auto simp: set_data_bits_def set_parity_def set_stop_bits_def split: if_splits)
  moreover have "c' AND CSTOPB \<noteq> 0 \<longleftrightarrow> stop_bits info = 2"
    using s(3) by (auto simp: set_stop_bits_def cleared_bits added_bits split: if_splits) (simp_all add: CSTOPB_def)
  moreover have "c' AND CBAUD = conv_baud (speed info)"
    using stop_other [OF s(3), of CBAUD] replaced_bits [OF baud_bits] by (simp add: cfsetspeed_def tio_flags)
  ultimately show ?thesis
    using parity_stage [OF s(1,2)] m [of CSIZE] m [of PARENB] m [of PARODD] m [of CRTSCTS] m [of "CREAD OR CLOCAL"] Some
    unfolding settings_ok_def by (simp add: t) (simp add: tio_flags)
qed

definition port_info :: SerialPortInfo where
  "port_info = \<lparr> speed = 115200, data_bits = 8, stop_bits = 1, parity = CHR ''N'', fctl = 0 \<rparr>"

theorem uart_settings_witness:
  "\<exists>t. uart_tios port_info = Some t \<and> c_cflag t AND CSIZE = 0x30 \<and> c_cflag t AND CBAUD = 4098"
  using uart_settings [of port_info]
  by (cases "uart_tios port_info") (simp_all add: port_info_def conv_baud_def)

subsection \<open>What a read returns\<close>

text \<open>After \<open>es\<close> every read of the device answers \<open>a\<close>.\<close>

definition reads_answer :: "world \<Rightarrow> nat \<Rightarrow> nat \<Rightarrow> response \<Rightarrow> bool" where
  "reads_answer w f cnt a \<longleftrightarrow> (\<forall>es. env w (trace w @ es) (Dev (DevRead f (read_size cnt))) = a)"

lemma reads_answer_step: "reads_answer w f cnt a \<Longrightarrow> reads_answer (w\<lparr> trace := trace w @ es \<rparr>) f cnt a"
  by (simp add: reads_answer_def)

definition no_data :: response where
  "no_data = \<lparr> rc = -1, vl = 0, out = [] \<rparr>"

lemma minus_one_unsigned: "t \<noteq> 0 \<Longrightarrow> t + word_of_int (-1) = t - (1 :: u64)" "(0 :: u64) + word_of_int (-1) = -1"
  by simp_all

lemma less_u64: "m < k \<Longrightarrow> k < 2 ^ 32 \<Longrightarrow> (word_of_nat m :: u64) < word_of_nat k"
  by (simp add: word_less_nat_alt unsigned_of_nat take_bit_nat_eq_self)

lemma read_step:
  assumes "ub w = None" "t < word_of_nat (cnt - 1)" "env w (trace w) (Dev (DevRead f (read_size cnt))) = a"
    and "(word_of_int (rc a) :: u64) \<noteq> 0" "unat t + length (take (nat (rc a)) (concat (out a))) \<le> length buf"
  shows "run_state (serial_read_loop (Suc n) f cnt t buf) w =
     run_state (serial_read_loop n f cnt (t + word_of_int (rc a))
        (take (unat t) buf @ take (nat (rc a)) (concat (out a)) @
         drop (unat t + length (take (nat (rc a)) (concat (out a)))) buf))
       (w\<lparr> trace := trace w @ [(Dev (DevRead f (read_size cnt)), a)] \<rparr>)"
  using assms by (simp add: check_io_def)

lemma read_loop_no_data:
  assumes "ub w = None" "reads_answer w f cnt no_data" "n < cnt - 1" "cnt < 2 ^ 32" "n \<le> length buf"
  shows "\<exists>w'. run_state (serial_read_loop (n + 2) f cnt (of_nat n) buf) w = (Some (-1, buf), w') \<and> ub w' = None"
  using assms
proof (induction n arbitrary: w)
  case 0
  have lt: "(0 :: u64) < word_of_nat (cnt - 1)"
    using less_u64 [of 0 "cnt - 1"] 0(3,4) by (simp del: of_nat_diff)
  have ge: "\<not> (-1 :: u64) < word_of_nat (cnt - 1)" using word_n1_ge by (simp only: not_less)
  from 0(2) have "env w (trace w) (Dev (DevRead f (read_size cnt))) = no_data"
    unfolding reads_answer_def by (metis append_Nil2)
  then show ?case
    using read_step [OF 0(1) lt, of f "no_data" buf 1] 0(1) ge by (simp add: numeral_2_eq_2 no_data_def)
next
  case (Suc n)
  have u: "unat (word_of_nat (Suc n) :: u64) = Suc n"
    using Suc.prems(3,4) by (simp add: unsigned_of_nat take_bit_nat_eq_self del: of_nat_Suc)
  have lt: "(word_of_nat (Suc n) :: u64) < word_of_nat (cnt - 1)"
    using Suc.prems(3,4) by (intro less_u64) simp_all
  from Suc.prems(2) have e: "env w (trace w) (Dev (DevRead f (read_size cnt))) = no_data"
    unfolding reads_answer_def by (metis append_Nil2)
  let ?w = "w\<lparr> trace := trace w @ [(Dev (DevRead f (read_size cnt)), no_data)] \<rparr>"
  from Suc.IH [of ?w] Suc.prems reads_answer_step obtain w' where
    "run_state (serial_read_loop (n + 2) f cnt (of_nat n) buf) ?w = (Some (-1, buf), w')" "ub w' = None" by auto
  moreover have "word_of_nat (Suc n) + word_of_int (rc no_data) = (word_of_nat n :: u64)" by (simp add: no_data_def)
  ultimately show ?case
    using read_step [OF Suc.prems(1) lt e, of buf "n + 2"] Suc.prems(5) u by (auto simp: no_data_def simp del: of_nat_Suc)
qed

lemma serial_read_total:
  assumes "ub w = None" "is_open p" "0 < n" "n < cnt - 1" "n \<le> 512" "cnt \<le> length buf" "cnt < 2 ^ 32" "length data = n"
    and "env w (trace w) (Dev (DevRead (fd p) (read_size cnt))) = \<lparr> rc = int n, vl = 0, out = [data] \<rparr>"
    and "w1 = w\<lparr> trace := trace w @ [(Dev (DevRead (fd p) (read_size cnt)), \<lparr> rc = int n, vl = 0, out = [data] \<rparr>)] \<rparr>"
  shows "(reads_answer w1 (fd p) cnt no_data \<longrightarrow>
           (\<exists>w'. run_state (serial_read (n + 3) p buf cnt) w = (Some (-1, data @ drop n buf), w') \<and> ub w' = None)) \<and>
         (reads_answer w1 (fd p) cnt (no_data\<lparr> rc := 0 \<rparr>) \<longrightarrow>
           (\<exists>w'. run_state (serial_read (n + 3) p buf cnt) w = (Some (int n, data @ drop n buf), w') \<and> ub w' = None))"
proof -
  have u: "unat (word_of_nat n :: u64) = n"
    using assms(4,7) by (simp add: unsigned_of_nat take_bit_nat_eq_self)
  have lt0: "(0 :: u64) < word_of_nat (cnt - 1)" and lt: "(word_of_nat n :: u64) < word_of_nat (cnt - 1)"
    using less_u64 [of 0 "cnt - 1"] less_u64 [of n "cnt - 1"] assms(4,7) by (simp_all del: of_nat_diff)
  have nz: "(word_of_int (int n) :: u64) \<noteq> 0" using u assms(3) by (metis of_int_of_nat_eq unat_0 less_irrefl)
  have first: "run_state (serial_read_loop (n + 3) (fd p) cnt 0 buf) w =
      run_state (serial_read_loop (n + 2) (fd p) cnt (of_nat n) (data @ drop n buf)) w1"
    using read_step [OF assms(1) lt0 assms(9), of buf "n + 2"] nz assms(5,6,8,10,4) by (simp add: numeral_3_eq_3)
  have w1: "ub w1 = None" "n \<le> length (data @ drop n buf)" using assms by simp_all
  have "\<exists>w'. run_state (serial_read (n + 3) p buf cnt) w = (Some (-1, data @ drop n buf), w') \<and> ub w' = None"
    if "reads_answer w1 (fd p) cnt no_data"
    using read_loop_no_data [OF w1(1) that assms(4,7) w1(2)] first assms(2) by (auto simp: serial_read_def)
  moreover have "\<exists>w'. run_state (serial_read (n + 3) p buf cnt) w = (Some (int n, data @ drop n buf), w') \<and> ub w' = None"
    if "reads_answer w1 (fd p) cnt (no_data\<lparr> rc := 0 \<rparr>)"
  proof -
    from that have e: "env w1 (trace w1) (Dev (DevRead (fd p) (read_size cnt))) = no_data\<lparr> rc := 0 \<rparr>"
      unfolding reads_answer_def by (metis append_Nil2)
    have "sint (word_of_nat n :: u64) = int n"
      using assms(4,7) by (simp add: signed_of_nat signed_take_bit_int_eq_self)
    then show ?thesis
      using first e lt w1(1) assms(2) by (simp add: serial_read_def numeral_2_eq_2 no_data_def)
  qed
  ultimately show ?thesis by blast
qed

text \<open>
  On the non-blocking port a read that got data loses it: when \<open>n\<close> bytes arrive and the next reads find
  nothing, the -1 is added to the total again and again until the total itself is -1, and \<open>serial_read\<close>
  returns -1 after \<open>n + 2\<close> reads, the bytes unreported in the buffer. Only when the next read answers 0
  does it return \<open>n\<close>.
\<close>

theorem serial_read_loses_data:
  assumes "ub w = None" "is_open p" "0 < n" "n < cnt - 1" "n \<le> 512" "cnt \<le> length buf" "cnt < 2 ^ 32" "length data = n"
    and "env w (trace w) (Dev (DevRead (fd p) (read_size cnt))) = \<lparr> rc = int n, vl = 0, out = [data] \<rparr>"
    and "w1 = w\<lparr> trace := trace w @ [(Dev (DevRead (fd p) (read_size cnt)), \<lparr> rc = int n, vl = 0, out = [data] \<rparr>)] \<rparr>"
  shows "(reads_answer w1 (fd p) cnt no_data \<longrightarrow>
           (\<exists>w'. run_state (serial_read (n + 3) p buf cnt) w = (Some (-1, data @ drop n buf), w') \<and> ub w' = None)) \<and>
         (reads_answer w1 (fd p) cnt (no_data\<lparr> rc := 0 \<rparr>) \<longrightarrow>
           (\<exists>w'. run_state (serial_read (n + 3) p buf cnt) w = (Some (int n, data @ drop n buf), w') \<and> ub w' = None))"
  using assms by (rule serial_read_total)

definition serial_port :: SerialPort where
  "serial_port = \<lparr> fd = 3, is_open = True, origin_tios = 0 \<rparr>"

definition serial_world :: world where
  "serial_world = \<lparr> env = \<lambda>tr _. if tr = [] then \<lparr> rc = 2, vl = 0, out = [''OK''] \<rparr> else no_data,
     localtime = \<lambda>_. tm_example, trace = [], ub = None \<rparr>"

theorem serial_read_loses_data_witness:
  "\<exists>w'. run_state (serial_read 5 serial_port (replicate 256 CHR 0x00) 256) serial_world =
     (Some (-1, ''OK'' @ replicate 254 CHR 0x00), w')"
proof -
  have p: "ub serial_world = None" "is_open serial_port"
    "env serial_world (trace serial_world) (Dev (DevRead (fd serial_port) (read_size 256))) = \<lparr> rc = int 2, vl = 0, out = [''OK''] \<rparr>"
    by (simp_all add: serial_world_def serial_port_def)
  have "reads_answer (serial_world\<lparr> trace := trace serial_world @
      [(Dev (DevRead (fd serial_port) (read_size 256)), \<lparr> rc = int 2, vl = 0, out = [''OK''] \<rparr>)] \<rparr>) (fd serial_port) 256 no_data"
    by (simp add: reads_answer_def serial_world_def)
  with serial_read_loses_data [OF p(1,2) _ _ _ _ _ _ p(3) refl, of "replicate 256 CHR 0x00"] show ?thesis
    by auto
qed

subsection \<open>The RS-485 port\<close>

text \<open>
  The variant of the port for RS-485, which takes the open, close and read of the UART. The transceiver is switched by the
  driver when a request pin is given. Its write does not look at \<open>is_open\<close>.
\<close>

record RS485Port =
  base :: SerialPort
  rts_pin :: int

definition SER_RS485_ENABLED :: u32 where "SER_RS485_ENABLED = 1"
definition SER_RS485_RTS_ON_SEND :: u32 where "SER_RS485_RTS_ON_SEND = 2"

definition rs485_port_create :: "int \<Rightarrow> RS485Port" where
  "rs485_port_create p = \<lparr> base = uart_port_create, rts_pin = p \<rparr>"

definition rs485_write :: "RS485Port \<Rightarrow> string \<Rightarrow> int io" where
  "rs485_write p buf = do { a \<leftarrow> call (Dev (DevWrite (fd (base p)) buf)); ret (rc a) }"

definition rs485_configure :: "RS485Port \<Rightarrow> SerialPortInfo option \<Rightarrow> int io" where
  "rs485_configure p info =
     (let (flags, delay) = if 0 < rts_pin p then (SER_RS485_ENABLED OR SER_RS485_RTS_ON_SEND, 1) else (SER_RS485_ENABLED, 0) in do {
        a \<leftarrow> call (Dev (SetRs485 (fd (base p)) flags delay));
        if rc a < 0 then ret (-1) else uart_configure (base p) info })"

lemma wf_rs485 [wf_io_intros]: "wf_io (rs485_write p s)" "wf_io (rs485_configure p info)"
  unfolding rs485_write_def rs485_configure_def Let_def by (intro wf_io_intros)+

text \<open>On an open port it writes like the UART; on one never opened it writes to descriptor 0, the standard input.\<close>

lemma rs485_write_open: "is_open (base p) \<Longrightarrow> rs485_write p buf = serial_write (base p) buf"
  by (simp add: rs485_write_def serial_write_def)

lemma rs485_write_closed:
  "ub w = None \<Longrightarrow> map fst (events (rs485_write (rs485_port_create n) buf) w) = [Dev (DevWrite 0 buf)] \<and>
     events (serial_write uart_port_create buf) w = []"
  by (simp add: events_def rs485_write_def rs485_port_create_def serial_write_def uart_port_create_def)

text \<open>An RS-485 port gets the settings of the UART, or, when the driver refuses the mode, none.\<close>

lemma rs485_settings:
  assumes "ub w = None" "(Dev (TcSetAttr h tios), a) \<in> set (events (rs485_configure p info) w)"
  shows "h = fd (base p) \<and> (\<exists>i t. info = Some i \<and> uart_tios i = Some t \<and>
     tios = [c_iflag t, c_oflag t, c_cflag t, c_lflag t, c_speed t])"
  using assms
  by (auto simp: events_def rs485_configure_def uart_configure_def Let_def value_of_def split: if_splits option.splits Option.bind_splits)

end
