(* ===== verification/LaneTo.thy ===== *)
theory LaneTo
  imports Serial
begin
text \<open>
  \<open>hal/lane_to.c\<close>: the navigation receiver, read from a local socket or, when that cannot be opened,
  from a UART. A block of NMEA lines is read, cut between the first \<open>$PBSOL\<close> and the first
  \<open>GNGGA\<close>, split at the dollar signs and handed to the parser table, whose one entry fills
  \<open>sg_data\<close> by a single \<open>sscanf\<close>. Signed fields are kept as words of their width. The
  parsers under \<open>#if 0\<close> are not compiled.
\<close>

definition LANETO_DEV_NAME :: string where "LANETO_DEV_NAME = ''/dev/ttyS4''"
definition SHM_DATA_SERVER_IP :: string where "SHM_DATA_SERVER_IP = ''127.0.0.1''"
definition SHM_DATA_SERVER_PORT :: int where "SHM_DATA_SERVER_PORT = 2947"
definition SG_MSG_ID :: string where "SG_MSG_ID = ''$PBSOL''"
definition GNGGA_MSG_ID :: string where "GNGGA_MSG_ID = ''GNGGA''"

text \<open>\<open>SGData\<close>; \<open>reserved\<close> is an array of two.\<close>

record SGData =
  message_id :: string
  subid :: u8
  utc_year :: u16
  utc_month :: u8
  utc_day :: u8
  utc_hour :: u8
  utc_minutes :: u8
  utc_millisecond :: u16
  sensor_time :: u32
  gps_week_number :: u16
  tow :: u32
  nav_mode_info :: u32
  latitude :: flo
  longitude :: flo
  altitude_ellipsoid :: flo
  altitude_msl :: flo
  vn :: u32
  ve :: u32
  vd :: u32
  ground_speed :: u32
  traveled_distance :: u32
  roll :: u32
  pitch :: u32
  heading :: u32
  reserved1 :: u32
  reserved2 :: u32
  north_uncertainty :: u16
  east_uncertainty :: u16
  down_uncertainty :: u16
  vn_uncertainty :: u16
  ve_uncertainty :: u16
  vd_uncertainty :: u16
  roll_uncertainty :: u16
  pitch_uncertainty :: u16
  yaw_uncertainty :: u16
  misalign_angle_roll :: u16
  misalign_angle_pitch :: u16
  misalign_angle_yaw :: u16
  reference_station_id :: u16
  time_since_last_diff :: u8
  reserved_0 :: u8
  reserved_1 :: u8

text \<open>The global \<open>sg_data\<close> at the start.\<close>

definition sg_data :: SGData where
  "sg_data = \<lparr>
     message_id = [], subid = 0, utc_year = 0, utc_month = 0, utc_day = 0, utc_hour = 0, utc_minutes = 0,
     utc_millisecond = 0, sensor_time = 0, gps_week_number = 0, tow = 0, nav_mode_info = 0,
     latitude = Finite 0 0, longitude = Finite 0 0, altitude_ellipsoid = Finite 0 0,
     altitude_msl = Finite 0 0, vn = 0, ve = 0, vd = 0, ground_speed = 0, traveled_distance = 0, roll = 0,
     pitch = 0, heading = 0, reserved1 = 0, reserved2 = 0, north_uncertainty = 0, east_uncertainty = 0,
     down_uncertainty = 0, vn_uncertainty = 0, ve_uncertainty = 0, vd_uncertainty = 0, roll_uncertainty = 0,
     pitch_uncertainty = 0, yaw_uncertainty = 0, misalign_angle_roll = 0, misalign_angle_pitch = 0,
     misalign_angle_yaw = 0, reference_station_id = 0, time_since_last_diff = 0, reserved_0 = 0,
     reserved_1 = 0 \<rparr>"

text \<open>\<open>sockfd\<close> is \<open>None\<close> for -1.\<close>

record LaneToCtx =
  l_uart :: "SerialPort option"
  l_running :: bool
  l_sockfd :: "nat option"

subsection \<open>Parsing\<close>

text \<open>The conversions after \<open>%[^,]\<close>, each preceded by a comma in the format.\<close>

definition sg_convs :: "conv list" where
  "sg_convs = replicate 11 CUDec @ replicate 4 CFlo @ replicate 3 CDec @
     replicate 2 CUDec @ replicate 5 CDec @ replicate 9 CUDec @ replicate 3 CDec @ replicate 4 CUDec"

definition sg_format :: "conv list" where
  "sg_format = CUntil CHR '','' # concat (map (\<lambda>c. [CLit CHR '','', c]) sg_convs)"

definition sg_assign :: "sval list \<Rightarrow> SGData \<Rightarrow> SGData" where
  "sg_assign vs sg = sg\<lparr>
     message_id := get_str vs 0 (message_id sg), subid := get_int vs 1 (subid sg),
     utc_year := get_int vs 2 (utc_year sg), utc_month := get_int vs 3 (utc_month sg),
     utc_day := get_int vs 4 (utc_day sg), utc_hour := get_int vs 5 (utc_hour sg),
     utc_minutes := get_int vs 6 (utc_minutes sg), utc_millisecond := get_int vs 7 (utc_millisecond sg),
     sensor_time := get_int vs 8 (sensor_time sg), gps_week_number := get_int vs 9 (gps_week_number sg),
     tow := get_int vs 10 (tow sg), nav_mode_info := get_int vs 11 (nav_mode_info sg),
     latitude := get_flo to_double vs 12 (latitude sg), longitude := get_flo to_double vs 13 (longitude sg),
     altitude_ellipsoid := get_flo to_float vs 14 (altitude_ellipsoid sg),
     altitude_msl := get_flo to_float vs 15 (altitude_msl sg), vn := get_int vs 16 (vn sg),
     ve := get_int vs 17 (ve sg), vd := get_int vs 18 (vd sg), ground_speed := get_int vs 19 (ground_speed sg),
     traveled_distance := get_int vs 20 (traveled_distance sg), roll := get_int vs 21 (roll sg),
     pitch := get_int vs 22 (pitch sg), heading := get_int vs 23 (heading sg),
     reserved1 := get_int vs 24 (reserved1 sg), reserved2 := get_int vs 25 (reserved2 sg),
     north_uncertainty := get_int vs 26 (north_uncertainty sg),
     east_uncertainty := get_int vs 27 (east_uncertainty sg),
     down_uncertainty := get_int vs 28 (down_uncertainty sg),
     vn_uncertainty := get_int vs 29 (vn_uncertainty sg), ve_uncertainty := get_int vs 30 (ve_uncertainty sg),
     vd_uncertainty := get_int vs 31 (vd_uncertainty sg),
     roll_uncertainty := get_int vs 32 (roll_uncertainty sg),
     pitch_uncertainty := get_int vs 33 (pitch_uncertainty sg),
     yaw_uncertainty := get_int vs 34 (yaw_uncertainty sg),
     misalign_angle_roll := get_int vs 35 (misalign_angle_roll sg),
     misalign_angle_pitch := get_int vs 36 (misalign_angle_pitch sg),
     misalign_angle_yaw := get_int vs 37 (misalign_angle_yaw sg),
     reference_station_id := get_int vs 38 (reference_station_id sg),
     time_since_last_diff := get_int vs 39 (time_since_last_diff sg),
     reserved_0 := get_int vs 40 (reserved_0 sg), reserved_1 := get_int vs 41 (reserved_1 sg) \<rparr>"

definition sg_data_parse :: "string \<Rightarrow> SGData \<Rightarrow> SGData io" where
  "sg_data_parse payload sg = (let vs = sscanf sg_format payload in do {
     check_io (length (get_str vs 0 []) < 7) BufferOverflow;
     ret (sg_assign vs sg) })"

text \<open>The table the linker collects: identifier, subidentifier, parser. \<open>sub_id\<close> is not looked at.\<close>

definition message_parsers :: "(string \<times> u8 \<times> (string \<Rightarrow> SGData \<Rightarrow> SGData io)) list" where
  "message_parsers = [(''PBSOL'', 1, sg_data_parse)]"

fun find_parser ::
    "(string \<times> u8 \<times> (string \<Rightarrow> SGData \<Rightarrow> SGData io)) list \<Rightarrow> string \<Rightarrow> SGData \<Rightarrow> SGData io" where
  "find_parser [] line sg = ret sg"
| "find_parser ((ident, _, f) # ps) line sg =
     (if strncmp_eq line ident (length ident) then f line sg else find_parser ps line sg)"

definition message_parser_entry :: "string \<Rightarrow> SGData \<Rightarrow> SGData io" where
  "message_parser_entry line sg = find_parser message_parsers line sg"

subsection \<open>Reading a block\<close>

text \<open>
  The pieces between the first \<open>$PBSOL\<close> and the first \<open>GNGGA\<close>: nothing when one is missing
  or they are in the other order.
\<close>

definition nav_lines :: "string \<Rightarrow> string list" where
  "nav_lines s =
     (case (strstr s SG_MSG_ID, strstr s GNGGA_MSG_ID) of
        (Some first, Some stop) \<Rightarrow>
          if length stop < length first then tokens [CHR ''$''] (take (length first - length stop) first) else []
      | _ \<Rightarrow> [])"

fun parse_lines :: "string list \<Rightarrow> SGData \<Rightarrow> SGData io" where
  "parse_lines [] sg = ret sg"
| "parse_lines (l # ls) sg = do { sg \<leftarrow> message_parser_entry l sg; parse_lines ls sg }"

text \<open>A \<open>read\<close> of the socket into the buffer \<open>buf\<close> of 4096: the return value and the buffer.\<close>

definition sock_read :: "nat option \<Rightarrow> string \<Rightarrow> (int \<times> string) io" where
  "sock_read sk buf =
     (case sk of None \<Rightarrow> ret (-1, buf)
      | Some h \<Rightarrow> do {
          a \<leftarrow> call (Dev (SockRead h 4096));
          let bs = take (nat (rc a)) (concat (out a)) in
          do { check_io (length bs \<le> length buf) BufferOverflow; ret (rc a, bs @ drop (length bs) buf) } })"

text \<open>The terminating NUL goes behind the bytes read, out of bounds after 4096. \<open>None\<close>: out of fuel in the UART.\<close>

definition laneTo_read_nav_data :: "nat \<Rightarrow> LaneToCtx \<Rightarrow> string \<Rightarrow> SGData \<Rightarrow> SGData option io" where
  "laneTo_read_nav_data fuel ctx buf sg =
     (if \<not> l_running ctx then ret (Some sg)
      else do {
        r \<leftarrow> (case l_uart ctx of
                 Some p \<Rightarrow> serial_read fuel p buf 4096
               | None \<Rightarrow> do { r \<leftarrow> sock_read (l_sockfd ctx) buf; ret (Some r) });
        case r of None \<Rightarrow> ret None
        | Some (n, buf) \<Rightarrow>
            if 0 < n
            then do {
              check_io (nat n < length buf) OutOfBounds;
              sg \<leftarrow> parse_lines (nav_lines (c_str (take (nat n) buf))) sg;
              ret (Some sg) }
            else ret (Some sg) })"

subsection \<open>Start and stop\<close>

definition watch_command :: string where
  "watch_command = ''?WATCH={\"enable\":true,\"raw\":3}'' @ [newline]"

definition init_shm_data_sock :: "LaneToCtx \<Rightarrow> (int \<times> LaneToCtx) io" where
  "init_shm_data_sock ctx = do {
     s \<leftarrow> call_handle (Dev Socket);
     case s of None \<Rightarrow> ret (-1, ctx\<lparr> l_sockfd := None \<rparr>)
     | Some h \<Rightarrow> do {
         c \<leftarrow> call (Dev (SockConnect h SHM_DATA_SERVER_IP SHM_DATA_SERVER_PORT));
         if rc c < 0 then do { tell (Dev (SockClose h)); ret (-1, ctx\<lparr> l_sockfd := None \<rparr>) }
         else do {
           n \<leftarrow> call (Dev (SockSend h watch_command));
           if rc n < 0 then do { tell (Dev (SockClose h)); ret (-1, ctx\<lparr> l_sockfd := None \<rparr>) }
           else ret (0, ctx\<lparr> l_sockfd := Some h \<rparr>) } } }"

definition laneto_port_info :: SerialPortInfo where
  "laneto_port_info = \<lparr> speed = 115200, data_bits = 8, stop_bits = 1, parity = CHR ''N'', fctl = 0 \<rparr>"

definition laneTo_init :: "(int \<times> LaneToCtx) io" where
  "laneTo_init = do {
     (r, ctx) \<leftarrow> init_shm_data_sock \<lparr> l_uart = None, l_running = False, l_sockfd = Some 0 \<rparr>;
     if r = 0 then ret (0, ctx\<lparr> l_running := True \<rparr>)
     else do {
       (r, p) \<leftarrow> serial_open uart_port_create LANETO_DEV_NAME;
       if r \<noteq> 0 then ret (-1, ctx)
       else do {
         r \<leftarrow> uart_configure p (Some laneto_port_info);
         if r \<noteq> 0 then ret (-1, ctx)
         else ret (0, ctx\<lparr> l_uart := Some p, l_running := True \<rparr>) } } }"

definition laneTo_uninit :: "LaneToCtx \<Rightarrow> LaneToCtx io" where
  "laneTo_uninit ctx = do {
     (case l_uart ctx of None \<Rightarrow> ret () | Some p \<Rightarrow> do { serial_close p; ret () });
     (case l_sockfd ctx of None \<Rightarrow> ret () | Some h \<Rightarrow> tell (Dev (SockClose h)));
     ret (ctx\<lparr> l_running := False \<rparr>) }"

lemma wf_parse [wf_io_intros]: "wf_io (sg_data_parse payload sg)" "wf_io (message_parser_entry line sg)"
proof -
  show p: "wf_io (sg_data_parse payload sg)" for payload sg
    unfolding sg_data_parse_def Let_def by (intro wf_io_intros)
  show "wf_io (message_parser_entry line sg)"
    unfolding message_parser_entry_def message_parsers_def find_parser.simps by (intro wf_io_intros p)
qed

lemma wf_parse_lines [wf_io_intros]: "wf_io (parse_lines ls sg)"
  by (induction ls arbitrary: sg) (auto intro!: wf_io_intros)

lemma wf_laneTo [wf_io_intros]:
  "wf_io (sock_read sk buf)" "wf_io (laneTo_read_nav_data fuel ctx buf sg)" "wf_io (init_shm_data_sock ctx)"
  "wf_io laneTo_init" "wf_io (laneTo_uninit ctx)"
  unfolding sock_read_def laneTo_read_nav_data_def init_shm_data_sock_def laneTo_init_def laneTo_uninit_def Let_def
  by (intro wf_io_intros)+


subsection \<open>What a line and a block set\<close>

text \<open>\<open>t\<close> is a text the conversion \<open>c\<close> reads as \<open>v\<close>, up to a comma or the end.\<close>

definition reads_as :: "conv \<Rightarrow> string \<Rightarrow> sval \<Rightarrow> bool" where
  "reads_as c t v \<longleftrightarrow> (\<forall>f r. (r = [] \<or> hd r = CHR '','') \<longrightarrow> sscanf (c # f) (t @ r) = v # sscanf f r)"

lemma reads_as_dec: "n < 2 ^ 63 \<Longrightarrow> reads_as CDec (dec n) (SInt (int n))"
  unfolding reads_as_def by (intro allI impI sscanf_CDec_dec) (auto simp: is_digit_def)

lemma reads_as_udec: "n < 2 ^ 63 \<Longrightarrow> reads_as CUDec (dec n) (SInt (int n))"
proof -
  assume n: "n < 2 ^ 63"
  have "r = [] \<or> hd r = CHR '','' \<Longrightarrow> scan_int (dec n @ r) = Some (int n, r)" for r
    by (rule scan_int_dec) (auto simp: is_digit_def)
  with n show ?thesis by (simp add: reads_as_def strtoul_sat_def)
qed

definition join_fields :: "string list \<Rightarrow> string" where
  "join_fields ts = concat (map (\<lambda>t. CHR '','' # t) ts)"

lemma sscanf_fields:
  assumes "list_all2 (\<lambda>(c, t) v. reads_as c t v) (zip cs ts) vs" "length ts \<le> length cs"
  shows "sscanf (concat (map (\<lambda>c. [CLit CHR '','', c]) cs)) (join_fields ts) = vs"
  using assms
proof (induction ts arbitrary: cs vs)
  case Nil
  then show ?case by (cases cs) (simp_all add: join_fields_def)
next
  case (Cons t ts)
  then obtain c cs' v vs' where cs: "cs = c # cs'" and vs: "vs = v # vs'" and r: "reads_as c t v"
    "list_all2 (\<lambda>(c, t) v. reads_as c t v) (zip cs' ts) vs'" "length ts \<le> length cs'"
    by (cases cs) (auto simp: list_all2_Cons1)
  have "join_fields ts = [] \<or> hd (join_fields ts) = CHR '',''" by (cases ts) (simp_all add: join_fields_def)
  with r(1) have "sscanf (c # f) (t @ join_fields ts) = v # sscanf f (join_fields ts)" for f
    unfolding reads_as_def by blast
  with Cons.IH [OF r(2,3)] show ?case by (simp add: cs vs join_fields_def)
qed

text \<open>\<open>%lf\<close> of a number with a point.\<close>

lemma digits_only: "\<forall>c \<in> set ds. is_digit c \<Longrightarrow> r = [] \<or> hd r \<in> {CHR '','', CHR ''.''} \<Longrightarrow>
    takeWhile is_digit (ds @ r) = ds \<and> dropWhile is_digit (ds @ r) = r"
  by (cases r) (auto simp: takeWhile_append2 dropWhile_append2 is_digit_def)

lemma to_lower_digit [simp]: "is_digit c \<Longrightarrow> to_lower c = c"
  by (auto simp: is_digit_def to_lower_def Let_def)

lemma to_lower_point: "to_lower CHR ''.'' = CHR ''.''"
  by (simp add: to_lower_def)

lemma digit_not_letter: "is_digit c \<Longrightarrow> c \<noteq> CHR ''n'' \<and> c \<noteq> CHR ''i'' \<and> c \<noteq> CHR ''x''"
  by (auto simp: is_digit_def)

lemma reads_as_point:
  assumes "\<forall>c \<in> set ds. is_digit c"
  shows "reads_as CFlo (dec n @ ''.'' @ ds) (SFlo (TRatio False (base_val 10 0 (dec n @ ds)) (10 ^ length ds)))"
  unfolding reads_as_def
proof (intro allI impI)
  fix f r assume r: "r = [] \<or> hd r = CHR '',''"
  obtain c s where cs: "dec n = c # s" "is_digit c" using dec_Cons by blast
  have s: "\<forall>x \<in> set s. is_digit x" using dec_digits [of _ n] cs(1) by auto
  let ?t = "dec n @ ''.'' @ ds @ r"
  have h: "\<not> starts_with ''0x'' (map to_lower ?t)"
    using cs s digit_not_letter to_lower_point by (cases s) auto
  have l: "\<not> starts_with ''nan'' (map to_lower ?t)" "\<not> starts_with ''infinity'' (map to_lower ?t)"
    "\<not> starts_with ''infi'' (map to_lower ?t)" "\<not> starts_with ''inf'' (map to_lower ?t)"
    using cs digit_not_letter [OF cs(2)] by auto
  have i: "takeWhile is_digit ?t = dec n" "dropWhile is_digit ?t = ''.'' @ ds @ r"
    using digits_only [of "dec n" "''.'' @ ds @ r"] dec_digits [of _ n] by auto
  have x: "scan_exponent CHR ''e'' r = (0, r)"
    using r by (cases r) (auto simp: scan_exponent_def to_lower_def)
  have m: "scan_mantissa is_digit 10 ?t = Some (base_val 10 0 (dec n @ ds), length ds, r)"
    using digits_only [OF assms, of r] r assms unfolding scan_mantissa_def Let_def i
    by (auto simp: takeWhile_eq_all_conv)
  have "scan_ratio False ?t = Some (TRatio False (base_val 10 0 (dec n @ ds)) (10 ^ length ds), r)"
    using h m x by (simp add: scan_ratio_def)
  moreover have "c \<noteq> CHR ''-'' \<and> c \<noteq> CHR ''+''" using cs(2) by (rule is_digit_not_sign)
  ultimately have "scan_flo ?t = Some (TRatio False (base_val 10 0 (dec n @ ds)) (10 ^ length ds), r)"
    using l cs by (simp add: scan_flo_def Let_def)
  then show "sscanf (CFlo # f) ((dec n @ ''.'' @ ds) @ r) =
      SFlo (TRatio False (base_val 10 0 (dec n @ ds)) (10 ^ length ds)) # sscanf f r"
    using skip_ws_dec [of n "''.'' @ ds @ r"] by simp
qed

lemma sg_line_scanned:
  assumes "list_all2 (\<lambda>(c, t) v. reads_as c t v) (zip sg_convs ts) vs" "length ts \<le> 41"
  shows "sscanf sg_format (''PBSOL'' @ join_fields ts) = SStr ''PBSOL'' # vs"
proof -
  have l: "length sg_convs = 41" by (simp add: sg_convs_def)
  have h: "takeWhile (\<lambda>x. x \<noteq> CHR '','') (''PBSOL'' @ join_fields ts) = ''PBSOL'' \<and>
      dropWhile (\<lambda>x. x \<noteq> CHR '','') (''PBSOL'' @ join_fields ts) = join_fields ts"
    by (cases ts) (simp_all add: join_fields_def)
  show ?thesis using sscanf_fields [OF assms(1)] assms(2) l h by (simp add: sg_format_def Let_def)
qed



subsection \<open>Which blocks are used\<close>

lemma unbordered_ids: "unbordered SG_MSG_ID" "unbordered GNGGA_MSG_ID"
proof -
  have "{1..<length SG_MSG_ID} = {1, 2, 3, 4, 5}" "{1..<length GNGGA_MSG_ID} = {1, 2, 3, 4}"
    by (auto simp: SG_MSG_ID_def GNGGA_MSG_ID_def)
  then show "unbordered SG_MSG_ID" "unbordered GNGGA_MSG_ID"
    by (simp_all add: unbordered_def SG_MSG_ID_def GNGGA_MSG_ID_def)
qed

lemma nav_lines_block:
  assumes "\<not> contains pre SG_MSG_ID" "CHR ''$'' \<notin> set l" "\<not> contains (pre @ SG_MSG_ID @ l @ ''$'') GNGGA_MSG_ID"
  shows "nav_lines (pre @ SG_MSG_ID @ l @ ''$'' @ GNGGA_MSG_ID @ post) = [''PBSOL'' @ l]"
proof -
  note s = strstr_first [OF unbordered_ids(1) assms(1), of "l @ ''$'' @ GNGGA_MSG_ID @ post"]
  have e: "strstr (pre @ SG_MSG_ID @ l @ ''$'' @ GNGGA_MSG_ID @ post) GNGGA_MSG_ID = Some (GNGGA_MSG_ID @ post)"
    using strstr_first [OF unbordered_ids(2) assms(3), of post] by simp
  have "tokens [CHR ''$''] (''$PBSOL'' @ l @ ''$'') = [''PBSOL'' @ l]"
  proof -
    have "strtok [CHR ''$''] acc (x @ ''$'') = [rev acc @ x]" if "CHR ''$'' \<notin> set x" "acc \<noteq> []" for x acc
      using that by (induction x arbitrary: acc) auto
    from this [of l "rev ''PBSOL''"] assms(2) show ?thesis by (simp add: tokens_def)
  qed
  moreover have "take (length (a @ b) - length b) (a @ b) = a" for a b :: string by simp
  from this [of "SG_MSG_ID @ l @ ''$''" "GNGGA_MSG_ID @ post"]
  have "take (length (SG_MSG_ID @ l @ ''$'' @ GNGGA_MSG_ID @ post) - length (GNGGA_MSG_ID @ post))
      (SG_MSG_ID @ l @ ''$'' @ GNGGA_MSG_ID @ post) = ''$PBSOL'' @ l @ ''$''" by (simp add: SG_MSG_ID_def)
  ultimately show ?thesis unfolding nav_lines_def s e option.case prod.case by (simp add: SG_MSG_ID_def)
qed

lemma nav_lines_late:
  assumes "\<not> contains (pre @ GNGGA_MSG_ID @ l) SG_MSG_ID" "\<not> contains pre GNGGA_MSG_ID"
  shows "nav_lines (pre @ GNGGA_MSG_ID @ l @ SG_MSG_ID @ post) = []"
  using strstr_first [OF unbordered_ids(1) assms(1), of post] strstr_first [OF unbordered_ids(2) assms(2), of "l @ SG_MSG_ID @ post"]
  by (simp add: nav_lines_def)


definition nav_block :: string where
  "nav_block = ''$'' @ GNGGA_MSG_ID @ '',1'' @ SG_MSG_ID @ '',1,25''"

definition nav_world :: world where
  "nav_world = \<lparr> env = \<lambda>_ _. \<lparr> rc = int (length nav_block), vl = 0, out = [nav_block] \<rparr>,
     localtime = \<lambda>_. tm_example, trace = [], ub = None \<rparr>"

definition nav_ctx :: LaneToCtx where
  "nav_ctx = \<lparr> l_uart = None, l_running = True, l_sockfd = Some 3 \<rparr>"


end
