(* ===== verification/Fifo.thy ===== *)
theory Fifo
  imports Prelude
begin

text \<open>
  The contract of the two containers messages travel through, the ring buffer of
  \<open>lib/queue.c\<close> and the linked list of \<open>lib/list.c\<close>: a first-in first-out queue
  with a capacity. \<open>fifo\<close> is what holds below the capacity; \<open>rejecting_fifo\<close> adds
  that an insertion at the capacity is refused and changes nothing. Operations return the C
  return code with the new state, or the fault; a removal from the empty queue returns
  \<open>None\<close> (the code's -1) and changes nothing.

  A run is any sequence of insertions and removals: the mutex of each container makes an
  operation one step, so every schedule of producers and consumers is such a sequence.
\<close>

datatype 'm fifo_op = Put 'm | Get

text \<open>A run: the values removed, the values accepted, and the final state.\<close>

fun fifo_run :: "('q \<Rightarrow> 'm \<Rightarrow> (int \<times> 'q) outcome) \<Rightarrow> ('q \<Rightarrow> ('m \<times> 'q) option outcome) \<Rightarrow>
    'q \<Rightarrow> 'm fifo_op list \<Rightarrow> ('m list \<times> 'm list \<times> 'q) outcome" where
  "fifo_run enq deq q [] = Inr ([], [], q)"
| "fifo_run enq deq q (Put m # ops) =
     (case enq q m of Inl e \<Rightarrow> Inl e
      | Inr (rc, q') \<Rightarrow>
          (case fifo_run enq deq q' ops of Inl e \<Rightarrow> Inl e
           | Inr (outs, acc, q'') \<Rightarrow> Inr (outs, if rc = 0 then m # acc else acc, q'')))"
| "fifo_run enq deq q (Get # ops) =
     (case deq q of Inl e \<Rightarrow> Inl e
      | Inr None \<Rightarrow> fifo_run enq deq q ops
      | Inr (Some (m, q')) \<Rightarrow>
          (case fifo_run enq deq q' ops of Inl e \<Rightarrow> Inl e
           | Inr (outs, acc, q'') \<Rightarrow> Inr (m # outs, acc, q'')))"

definition op_ok :: "('m \<Rightarrow> bool) \<Rightarrow> 'm fifo_op \<Rightarrow> bool" where
  "op_ok ok x = (case x of Put m \<Rightarrow> ok m | Get \<Rightarrow> True)"

lemma op_ok_simps [simp]: "op_ok ok (Put m) = ok m" "op_ok ok Get"
  by (simp_all add: op_ok_def)

locale fifo =
  fixes enq :: "'q \<Rightarrow> 'm \<Rightarrow> (int \<times> 'q) outcome"
    and deq :: "'q \<Rightarrow> ('m \<times> 'q) option outcome"
    and contents :: "'q \<Rightarrow> 'm list"
    and inv :: "'q \<Rightarrow> bool"
    and ok :: "'m \<Rightarrow> bool"
    and cap :: nat
  assumes enq_accept: "inv q \<Longrightarrow> ok m \<Longrightarrow> length (contents q) < cap \<Longrightarrow>
      \<exists>q'. enq q m = Inr (0, q') \<and> inv q' \<and> contents q' = contents q @ [m]"
    and deq_empty: "inv q \<Longrightarrow> contents q = [] \<Longrightarrow> deq q = Inr None"
    and deq_first: "inv q \<Longrightarrow> contents q = m # ms \<Longrightarrow>
      \<exists>q'. deq q = Inr (Some (m, q')) \<and> inv q' \<and> contents q' = ms"
    and within_cap: "inv q \<Longrightarrow> length (contents q) \<le> cap"
begin

lemma deq_cases:
  assumes "inv q"
  obtains "contents q = []" "deq q = Inr None"
  | m ms q' where "contents q = m # ms" "deq q = Inr (Some (m, q'))" "inv q'" "contents q' = ms"
  using assms deq_empty deq_first by (cases "contents q") blast+

text \<open>A removal right after an insertion into the empty queue returns the inserted value.\<close>

lemma put_get:
  assumes "inv q" "ok m" "contents q = []" "0 < cap"
  shows "\<exists>q' q''. enq q m = Inr (0, q') \<and> deq q' = Inr (Some (m, q'')) \<and> contents q'' = []"
proof -
  from enq_accept [OF assms(1,2)] assms(3,4) obtain q'
    where "enq q m = Inr (0, q')" "inv q'" "contents q' = [m]" by auto
  with deq_first [of q' m "[]"] show ?thesis by auto
qed

end

locale rejecting_fifo = fifo +
  assumes enq_reject: "inv q \<Longrightarrow> ok m \<Longrightarrow> length (contents q) = cap \<Longrightarrow> enq q m = Inr (-1, q)"
begin

lemma enq_cases:
  assumes "inv q" "ok m"
  obtains q' where "length (contents q) < cap" "enq q m = Inr (0, q')" "inv q'"
      "contents q' = contents q @ [m]"
  | "length (contents q) = cap" "enq q m = Inr (-1, q)"
proof (cases "length (contents q) < cap")
  case True
  with enq_accept [OF assms] that(1) show ?thesis by blast
next
  case False
  with within_cap [OF assms(1)] have "length (contents q) = cap" by simp
  with enq_reject [OF assms] that(2) show ?thesis by blast
qed

text \<open>
  Whatever the schedule: no fault, the invariant is kept, and what was removed followed by what
  is still queued is what was queued followed by what was accepted, in order.
\<close>

lemma run_order:
  assumes "inv q" "\<forall>x \<in> set ops. op_ok ok x"
  shows "\<exists>outs acc q'. fifo_run enq deq q ops = Inr (outs, acc, q') \<and> inv q' \<and>
           contents q @ acc = outs @ contents q'"
  using assms
proof (induction ops arbitrary: q)
  case Nil
  then show ?case by simp
next
  case (Cons x ops)
  then have ops: "\<forall>x \<in> set ops. op_ok ok x" by simp
  show ?case
  proof (cases x)
    case (Put m)
    with Cons.prems have ok: "ok m" by simp
    from Cons.prems(1) ok show ?thesis
    proof (cases rule: enq_cases)
      case (1 q')
      with Cons.IH [of q'] ops obtain outs acc q'' where
        "fifo_run enq deq q' ops = Inr (outs, acc, q'')" "inv q''"
        "contents q' @ acc = outs @ contents q''" by blast
      with 1 Put show ?thesis by simp
    next
      case 2
      with Cons.IH [of q] Cons.prems(1) ops Put show ?thesis by force
    qed
  next
    case Get
    from Cons.prems(1) show ?thesis
    proof (cases rule: deq_cases)
      case 1
      with Cons.IH [of q] Cons.prems(1) ops Get show ?thesis by force
    next
      case (2 m ms q')
      with Cons.IH [of q'] ops Get show ?thesis by force
    qed
  qed
qed

end

end
