(* ===== verification/Queue.thy ===== *)
theory Queue
  imports Fifo
begin

text \<open>
  \<open>lib/queue.c\<close>: the ring buffer every thread of the program passes its frames through. A
  segment is a heap object (\<open>None\<close> once \<open>clean_queue\<close> has freed it), the sizes are
  \<open>uint16_t\<close>, \<open>head\<close> and \<open>tail\<close> are array indices. \<open>malloc\<close> is assumed to
  return the memory asked for. The abstraction \<open>contents\<close> is the list of queued messages;
  the operations refine the bounded first-in first-out queue of theory Fifo, of capacity 63.
\<close>

definition MAX_SEGMENTS :: nat where
  "MAX_SEGMENTS = 64"

record ThreadSafeQueue =
  buffers :: "bytes option list"
  sizes :: "u16 list"
  head :: nat
  tail :: nat

text \<open>
  \<open>bzero(q->sizes, MAX_SEGMENTS)\<close> counts bytes: it clears 64 bytes, so the first 32 of the
  64 entries; the others keep what the memory held.
\<close>

definition init_queue :: "ThreadSafeQueue \<Rightarrow> nat \<Rightarrow> int \<times> ThreadSafeQueue" where
  "init_queue q sz =
     (0, q\<lparr> buffers := replicate MAX_SEGMENTS (Some (replicate sz 0)),
            sizes := replicate (MAX_SEGMENTS div 2) 0 @ drop (MAX_SEGMENTS div 2) (sizes q),
            head := 0, tail := 0 \<rparr>)"

definition enqueue :: "ThreadSafeQueue \<Rightarrow> bytes \<Rightarrow> nat \<Rightarrow> (int \<times> ThreadSafeQueue) outcome" where
  "enqueue q data len =
     (let nxt = (head q + 1) mod MAX_SEGMENTS
      in if nxt = tail q then Inr (-1, q)
         else case buffers q ! head q of
             None \<Rightarrow> Inl UseAfterFree
           | Some b \<Rightarrow>
               (case c_memcpy b 0 data len of
                  Inl e \<Rightarrow> Inl e
                | Inr b' \<Rightarrow> Inr (0, q\<lparr> buffers := (buffers q)[head q := Some b'],
                                       sizes := (sizes q)[head q := word_of_nat len],
                                       head := nxt \<rparr>)))"

text \<open>The second component is the caller's buffer, the third its \<open>*len\<close>.\<close>

definition dequeue ::
    "ThreadSafeQueue \<Rightarrow> bytes \<Rightarrow> nat \<Rightarrow> (int \<times> bytes \<times> nat \<times> ThreadSafeQueue) outcome" where
  "dequeue q data len =
     (if tail q = head q then Inr (-1, data, len, q)
      else case buffers q ! tail q of
          None \<Rightarrow> Inl UseAfterFree
        | Some b \<Rightarrow>
            (case c_memcpy data 0 b (unat (sizes q ! tail q)) of
               Inl e \<Rightarrow> Inl e
             | Inr d \<Rightarrow> Inr (0, d, unat (sizes q ! tail q), q\<lparr> tail := (tail q + 1) mod MAX_SEGMENTS \<rparr>)))"

text \<open>\<open>free\<close> of a segment freed before is the double free.\<close>

definition clean_queue :: "ThreadSafeQueue \<Rightarrow> (int \<times> ThreadSafeQueue) outcome" where
  "clean_queue q =
     (if None \<in> set (buffers q) then Inl DoubleFree
      else Inr (0, q\<lparr> buffers := replicate (length (buffers q)) None \<rparr>))"

subsection \<open>Abstraction and invariant\<close>

definition count :: "ThreadSafeQueue \<Rightarrow> nat" where
  "count q = (head q + MAX_SEGMENTS - tail q) mod MAX_SEGMENTS"

definition slot :: "ThreadSafeQueue \<Rightarrow> nat \<Rightarrow> bytes" where
  "slot q i = take (unat (sizes q ! i)) (the (buffers q ! i))"

definition contents :: "ThreadSafeQueue \<Rightarrow> bytes list" where
  "contents q = map (\<lambda>k. slot q ((tail q + k) mod MAX_SEGMENTS)) [0..<count q]"

definition queue_inv :: "nat \<Rightarrow> ThreadSafeQueue \<Rightarrow> bool" where
  "queue_inv sz q \<longleftrightarrow>
     sz < 65536 \<and> length (buffers q) = MAX_SEGMENTS \<and> length (sizes q) = MAX_SEGMENTS \<and>
     head q < MAX_SEGMENTS \<and> tail q < MAX_SEGMENTS \<and>
     (\<forall>b \<in> set (buffers q). b \<noteq> None \<and> length (the b) = sz) \<and>
     (\<forall>k < count q. unat (sizes q ! ((tail q + k) mod MAX_SEGMENTS)) \<le> sz)"

lemma count_less: "count q < MAX_SEGMENTS"
  by (simp add: count_def MAX_SEGMENTS_def)

lemma length_contents [simp]: "length (contents q) = count q"
  by (simp add: contents_def)

lemma ring_bounds:
  assumes "queue_inv sz q"
  shows "head q < 64" "tail q < 64"
  using assms by (simp_all add: queue_inv_def MAX_SEGMENTS_def)

lemma count_eq:
  "queue_inv sz q \<Longrightarrow> count q = (if tail q \<le> head q then head q - tail q else head q + 64 - tail q)"
  using ring_bounds [of sz q] by (auto simp: count_def MAX_SEGMENTS_def wrap_mod)

lemma count_0_iff: "queue_inv sz q \<Longrightarrow> count q = 0 \<longleftrightarrow> tail q = head q"
  using ring_bounds [of sz q] by (auto simp: count_eq)

lemma full_iff: "queue_inv sz q \<Longrightarrow> Suc (head q) mod MAX_SEGMENTS = tail q \<longleftrightarrow> count q = 63"
  using ring_bounds [of sz q] by (auto simp: count_eq MAX_SEGMENTS_def wrap_mod)

lemma head_slot: "queue_inv sz q \<Longrightarrow> (tail q + count q) mod MAX_SEGMENTS = head q"
  using ring_bounds [of sz q] by (auto simp: count_eq MAX_SEGMENTS_def wrap_mod)

lemma slot_neq_head: "queue_inv sz q \<Longrightarrow> k < count q \<Longrightarrow> (tail q + k) mod MAX_SEGMENTS \<noteq> head q"
  using ring_bounds [of sz q] by (auto simp: count_eq MAX_SEGMENTS_def wrap_mod split: if_splits)

lemma queued_size:
  "queue_inv sz q \<Longrightarrow> k < count q \<Longrightarrow> unat (sizes q ! ((tail q + k) mod MAX_SEGMENTS)) \<le> sz"
  by (simp add: queue_inv_def)

lemma buffer_Some:
  assumes "queue_inv sz q" "i < MAX_SEGMENTS"
  obtains b where "buffers q ! i = Some b" "length b = sz"
proof -
  from assms have "buffers q ! i \<in> set (buffers q)" by (simp add: queue_inv_def)
  with assms(1) have "buffers q ! i \<noteq> None \<and> length (the (buffers q ! i)) = sz"
    unfolding queue_inv_def by blast
  with that show thesis by auto
qed

lemma ring_index_less [simp]: "i mod MAX_SEGMENTS < MAX_SEGMENTS"
  by (simp add: MAX_SEGMENTS_def)

subsection \<open>The operations on every branch\<close>

lemma init_queue_inv:
  assumes "length (sizes q) = MAX_SEGMENTS" "sz < 65536"
  shows "queue_inv sz (snd (init_queue q sz))" "contents (snd (init_queue q sz)) = []"
  using assms by (auto simp: init_queue_def queue_inv_def count_def contents_def MAX_SEGMENTS_def)

lemma enqueue_full:
  "queue_inv sz q \<Longrightarrow> count q = 63 \<Longrightarrow> enqueue q data len = Inr (-1, q)"
  by (simp add: enqueue_def full_iff Let_def)

lemma enqueue_overflow:
  assumes "queue_inv sz q" "count q < 63" "len \<le> length data" "sz < len"
  shows "enqueue q data len = Inl BufferOverflow"
proof -
  from assms(1) have "head q < MAX_SEGMENTS" by (simp add: queue_inv_def)
  with assms(1) obtain b where "buffers q ! head q = Some b" "length b = sz"
    by (rule buffer_Some)
  with assms show ?thesis by (simp add: enqueue_def full_iff c_memcpy_def Let_def)
qed

lemma enqueue_accept:
  assumes inv: "queue_inv sz q" and room: "count q < 63" and len: "len \<le> length data" "len \<le> sz"
  shows "\<exists>q'. enqueue q data len = Inr (0, q') \<and> queue_inv sz q' \<and>
           contents q' = contents q @ [take len data]"
proof -
  from inv have hd: "head q < MAX_SEGMENTS" and lens: "length (buffers q) = MAX_SEGMENTS"
      "length (sizes q) = MAX_SEGMENTS" and sz: "sz < 65536"
    by (simp_all add: queue_inv_def)
  from inv hd obtain b where b: "buffers q ! head q = Some b" "length b = sz"
    by (rule buffer_Some)
  define q' where "q' = q\<lparr> buffers := (buffers q)[head q := Some (take len data @ drop len b)],
      sizes := (sizes q)[head q := word_of_nat len], head := (head q + 1) mod MAX_SEGMENTS \<rparr>"
  have eq: "enqueue q data len = Inr (0, q')"
    using b len room inv by (simp add: enqueue_def full_iff q'_def Let_def)
  have cnt: "count q' = Suc (count q)"
    using ring_bounds [OF inv] room inv
    by (auto simp: count_eq [OF inv] q'_def count_def MAX_SEGMENTS_def wrap_mod split: if_splits)
  have tl: "tail q' = tail q" by (simp add: q'_def)
  have unat: "unat (word_of_nat len :: u16) = len"
    using len sz by (simp add: unat_store_u16)
  have at_head: "slot q' (head q) = take len data"
    using hd lens len b by (simp add: slot_def q'_def unat)
  have other: "slot q' i = slot q i" if "i \<noteq> head q" for i
    using that by (simp add: slot_def q'_def)
  have cont: "contents q' = contents q @ [take len data]"
    using slot_neq_head [OF inv] head_slot [OF inv]
    by (simp add: contents_def cnt at_head other tl)
  have "queue_inv sz q'"
    unfolding queue_inv_def
  proof (intro conjI allI impI)
    show "\<forall>b \<in> set (buffers q'). b \<noteq> None \<and> length (the b) = sz"
      using inv len b unfolding queue_inv_def q'_def
      by (auto dest!: subsetD [OF set_update_subset_insert])
    fix k assume "k < count q'"
    with cnt have "k < count q \<or> k = count q" by auto
    then show "unat (sizes q' ! ((tail q' + k) mod MAX_SEGMENTS)) \<le> sz"
      using slot_neq_head [OF inv, of k] head_slot [OF inv] inv len hd lens
      by (auto simp: q'_def unat queue_inv_def)
  qed (use sz hd lens inv in \<open>simp_all add: q'_def queue_inv_def\<close>)
  with eq cont show ?thesis by blast
qed

lemma dequeue_empty:
  "queue_inv sz q \<Longrightarrow> contents q = [] \<Longrightarrow> dequeue q data len = Inr (-1, data, len, q)"
  using count_0_iff [of sz q] by (simp add: dequeue_def contents_def)

lemma dequeue_first:
  assumes inv: "queue_inv sz q" and ne: "contents q = m # ms" and room: "sz \<le> length data"
  shows "\<exists>q'. dequeue q data len = Inr (0, m @ drop (length m) data, length m, q') \<and>
           queue_inv sz q' \<and> contents q' = ms"
proof -
  from inv have tl: "tail q < MAX_SEGMENTS" by (simp add: queue_inv_def)
  with inv obtain b where b: "buffers q ! tail q = Some b" "length b = sz"
    by (rule buffer_Some)
  have pos: "0 < count q" using ne length_contents [of q] by (cases "count q") auto
  have "m = contents q ! 0" using ne by simp
  also have "\<dots> = slot q (tail q)" using pos tl by (simp add: contents_def)
  finally have m: "m = take (unat (sizes q ! tail q)) b" by (simp add: slot_def b)
  have le: "unat (sizes q ! tail q) \<le> sz"
    using inv pos tl unfolding queue_inv_def by (metis add_0_right mod_less)
  then have lm: "length m = unat (sizes q ! tail q)" using m b by simp
  define q' where "q' = q\<lparr> tail := Suc (tail q) mod MAX_SEGMENTS \<rparr>"
  have ne': "tail q \<noteq> head q" using count_0_iff [OF inv] pos by auto
  have eq: "dequeue q data len = Inr (0, m @ drop (length m) data, length m, q')"
    using ne' b le room lm m by (simp add: dequeue_def q'_def)
  have cnt: "count q = Suc (count q')"
    using ring_bounds [OF inv] pos inv
    by (auto simp: count_eq [OF inv] q'_def count_def MAX_SEGMENTS_def wrap_mod split: if_splits)
  have shift: "(tail q' + k) mod MAX_SEGMENTS = (tail q + Suc k) mod MAX_SEGMENTS" for k
    by (simp add: q'_def mod_simps)
  have slots: "slot q' = slot q" by (rule ext) (simp add: slot_def q'_def)
  have "contents q = slot q (tail q) # contents q'"
    using tl by (simp add: contents_def cnt shift slots upt_conv_Cons map_Suc_upt [symmetric]
        del: upt_Suc)
  then have "contents q' = ms" using ne by simp
  moreover have "queue_inv sz q'"
    unfolding queue_inv_def
  proof (intro conjI allI impI)
    fix k assume "k < count q'"
    then have "unat (sizes q ! ((tail q + Suc k) mod MAX_SEGMENTS)) \<le> sz"
      by (intro queued_size [OF inv]) (simp add: cnt)
    then show "unat (sizes q' ! ((tail q' + k) mod MAX_SEGMENTS)) \<le> sz"
      unfolding shift by (simp add: q'_def)
  qed (use inv in \<open>simp_all add: q'_def queue_inv_def\<close>)
  ultimately show ?thesis using eq by blast
qed

subsection \<open>The ring buffer is a rejecting bounded queue\<close>

text \<open>
  The operations as the contract wants them: a message is a byte list sent whole, and the
  receiver has a buffer as large as a segment.
\<close>

definition queue_put :: "ThreadSafeQueue \<Rightarrow> bytes \<Rightarrow> (int \<times> ThreadSafeQueue) outcome" where
  "queue_put q m = enqueue q m (length m)"

definition queue_get :: "nat \<Rightarrow> ThreadSafeQueue \<Rightarrow> (bytes \<times> ThreadSafeQueue) option outcome" where
  "queue_get sz q =
     (case dequeue q (replicate sz 0) 0 of
        Inl e \<Rightarrow> Inl e
      | Inr (rc, d, len, q') \<Rightarrow> Inr (if rc = 0 then Some (take len d, q') else None))"

interpretation ring: rejecting_fifo queue_put "queue_get sz" contents "queue_inv sz"
    "\<lambda>m. length m \<le> sz" 63 for sz
proof unfold_locales
  show "queue_inv sz q \<Longrightarrow> length (contents q) \<le> 63" for q
    using count_less [of q] by (simp add: MAX_SEGMENTS_def)
  show "queue_inv sz q \<Longrightarrow> length m \<le> sz \<Longrightarrow> length (contents q) < 63 \<Longrightarrow>
      \<exists>q'. queue_put q m = Inr (0, q') \<and> queue_inv sz q' \<and> contents q' = contents q @ [m]" for q m
    using enqueue_accept [of sz q "length m" m] by (simp add: queue_put_def)
  show "queue_inv sz q \<Longrightarrow> contents q = [] \<Longrightarrow> queue_get sz q = Inr None" for q
    by (simp add: queue_get_def dequeue_empty)
  show "queue_inv sz q \<Longrightarrow> contents q = m # ms \<Longrightarrow>
      \<exists>q'. queue_get sz q = Inr (Some (m, q')) \<and> queue_inv sz q' \<and> contents q' = ms" for q m ms
    using dequeue_first [of sz q m ms "replicate sz 0" 0] by (auto simp: queue_get_def)
  show "queue_inv sz q \<Longrightarrow> length m \<le> sz \<Longrightarrow> length (contents q) = 63 \<Longrightarrow> queue_put q m = Inr (-1, q)" for q m
    by (simp add: queue_put_def enqueue_full)
qed



text \<open>
  \<open>enqueue\<close> on every branch: with 63 messages queued it returns -1 and changes nothing;
  otherwise a message longer than the segment is written past the end of the heap block (the
  code compares no length), and one that fits is appended.
\<close>

theorem enqueue_spec:
  assumes "queue_inv sz q" "len \<le> length data"
  shows "if length (contents q) = 63 then enqueue q data len = Inr (-1, q)
         else if sz < len then enqueue q data len = Inl BufferOverflow
         else \<exists>q'. enqueue q data len = Inr (0, q') \<and> queue_inv sz q' \<and>
                contents q' = contents q @ [take len data]"
proof -
  have "count q \<noteq> 63 \<Longrightarrow> count q < 63" using count_less [of q] by (simp add: MAX_SEGMENTS_def)
  with assms show ?thesis
    using enqueue_full [of sz q data len] enqueue_overflow [of sz q len data]
      enqueue_accept [of sz q len data] by simp
qed

definition queue_example :: ThreadSafeQueue where
  "queue_example = snd (init_queue \<lparr> buffers = [], sizes = replicate 64 0, head = 0, tail = 0 \<rparr> 256)"

lemma queue_example_inv: "queue_inv 256 queue_example" "contents queue_example = []"
  unfolding queue_example_def by (rule init_queue_inv; simp add: MAX_SEGMENTS_def)+

theorem enqueue_spec_witness:
  "enqueue queue_example (replicate 1024 0) 300 = Inl BufferOverflow"
  using enqueue_spec [OF queue_example_inv(1), of 300 "replicate 1024 0"]
  by (simp add: queue_example_inv(2))

end
