(* ===== verification/TcpClient.thy ===== *)
theory TcpClient
  imports Queue CString
begin

text \<open>
  \<open>net/tcp_client.c\<close>: the connection to the cloud server. The client structure is shared by
  the threads the code starts: connection threads (\<open>tcp_client_connect_entry\<close>, which run
  libevent's loop and its callbacks) and sender threads (\<open>tcp_client_send_entry\<close>). First the
  functions on the structure; then the system of the structure, its threads, its timers and the
  wire, as a step function whose actions are the atomic steps of the threads and the events
  libevent delivers. A libevent base and its bufferevent are one object, numbered when created.
\<close>

record TcpClient =
  base :: "nat option"
  bev :: "nat option"
  server_ip :: string
  port :: int
  recnt_att :: nat
  max_recnt_att :: nat
  is_connected :: bool
  tx_queue :: ThreadSafeQueue
  on_message :: bool

definition MAX_RECONNECT_ATTEMPTS :: nat where "MAX_RECONNECT_ATTEMPTS = 3000"

text \<open>\<open>mem\<close> is what the allocated queue's \<open>sizes\<close> hold: the structure was cleared.\<close>

definition cleared_queue :: ThreadSafeQueue where
  "cleared_queue = \<lparr> buffers = replicate MAX_SEGMENTS None, sizes = replicate MAX_SEGMENTS 0, head = 0, tail = 0 \<rparr>"

definition tcp_client_create :: "string \<Rightarrow> int \<Rightarrow> nat \<Rightarrow> TcpClient" where
  "tcp_client_create ip p max_recnt =
     \<lparr> base = None, bev = None, server_ip = ip, port = p, recnt_att = 0, max_recnt_att = max_recnt,
       is_connected = False, tx_queue = snd (init_queue cleared_queue 1400), on_message = False \<rparr>"

definition tcp_client_register_cb :: "TcpClient \<Rightarrow> TcpClient" where
  "tcp_client_register_cb c = c\<lparr> on_message := True \<rparr>"

definition tcp_client_send :: "TcpClient \<Rightarrow> bytes \<Rightarrow> nat \<Rightarrow> (int \<times> TcpClient) outcome" where
  "tcp_client_send c data len =
     (if is_connected c
      then (case enqueue (tx_queue c) data len of
              Inl e \<Rightarrow> Inl e
            | Inr (r, q) \<Rightarrow> Inr (r, c\<lparr> tx_queue := q \<rparr>))
      else Inr (0, c))"

text \<open>The callback: the client, whether a sender thread is started, whether a 3 s timer is armed.\<close>

definition tcp_client_event_cb :: "bool \<Rightarrow> TcpClient \<Rightarrow> TcpClient \<times> bool \<times> bool" where
  "tcp_client_event_cb connected c =
     (if connected
      then (let c1 = c\<lparr> recnt_att := 0 \<rparr>
            in if \<not> is_connected c1 then (c1\<lparr> is_connected := True \<rparr>, True, False) else (c1, False, False))
      else ((if is_connected c then c\<lparr> is_connected := False \<rparr> else c), False, True))"

text \<open>The timer: the client, and whether a connection thread is started.\<close>

definition tcp_client_reconnect :: "TcpClient \<Rightarrow> TcpClient \<times> bool" where
  "tcp_client_reconnect c =
     (if recnt_att c < max_recnt_att c then (c\<lparr> recnt_att := recnt_att c + 1 \<rparr>, True) else (c, False))"

text \<open>At most 1024 bytes are handed to the callback at a time.\<close>

definition tcp_client_read_cb :: "TcpClient \<Rightarrow> bytes \<Rightarrow> bytes option" where
  "tcp_client_read_cb c avail =
     (let msg = take 1024 avail in if msg \<noteq> [] \<and> on_message c then Some msg else None)"

definition tcp_client_destroy :: "TcpClient option \<Rightarrow> TcpClient option outcome" where
  "tcp_client_destroy c =
     (case c of None \<Rightarrow> Inr None
      | Some cl \<Rightarrow> (case clean_queue (tx_queue cl) of Inl e \<Rightarrow> Inl e | Inr _ \<Rightarrow> Inr None))"

subsection \<open>The threads\<close>

text \<open>
  A connection thread: about to create its event base; in the event loop of base \<open>n\<close>; after the
  loop, about to free what the client structure points to. A sender thread: at the loop head, or
  holding the frame it has taken from the queue.
\<close>

datatype conn_pc = CStart | CLoop nat | CFree

datatype send_pc = SLoop | SHave bytes

record tcp_sys =
  cl :: TcpClient
  conns :: "conn_pc list"
  senders :: "send_pc list"
  timers :: "nat list"
  fresh :: nat
  freed :: "nat list"
  wire :: "bytes list"
  accepted :: "bytes list"
  delivered :: "bytes list"
  tcp_fault :: "fault option"

text \<open>The answers of \<open>event_base_new\<close>, \<open>bufferevent_socket_new\<close>, \<open>bufferevent_socket_connect\<close>.\<close>

datatype conn_result = NoBase | NoBev | NoConnect | Started

datatype tcp_act =
    Connect | ConnSetup nat conn_result | ConnLoopEnds nat | ConnFree nat
  | EvConnected | EvError | TimerFires nat | SenderStep nat | Send bytes | Recv bytes | Disconnect

definition remove_at :: "nat \<Rightarrow> 'a list \<Rightarrow> 'a list" where
  "remove_at i xs = take i xs @ drop (Suc i) xs"

text \<open>Use of a base pointer: null, freed, or alive.\<close>

definition use_ptr :: "tcp_sys \<Rightarrow> nat option \<Rightarrow> nat outcome" where
  "use_ptr s p = (case p of None \<Rightarrow> Inl NullDeref
     | Some n \<Rightarrow> if n \<in> set (freed s) then Inl UseAfterFree else Inr n)"

definition crash :: "tcp_sys \<Rightarrow> fault \<Rightarrow> tcp_sys" where
  "crash s e = s\<lparr> tcp_fault := Some e \<rparr>"

text \<open>\<open>tcp_client_connect_entry\<close>, up to the event loop.\<close>

definition conn_setup :: "nat \<Rightarrow> conn_result \<Rightarrow> tcp_sys \<Rightarrow> tcp_sys" where
  "conn_setup i r s =
     (let n = fresh s
      in case r of
           NoBase \<Rightarrow> s\<lparr> cl := (cl s)\<lparr> base := None \<rparr>, conns := remove_at i (conns s) \<rparr>
         | NoBev \<Rightarrow> s\<lparr> cl := (cl s)\<lparr> base := Some n, bev := None \<rparr>, fresh := n + 1, freed := n # freed s,
                        conns := remove_at i (conns s) \<rparr>
         | NoConnect \<Rightarrow> s\<lparr> cl := (cl s)\<lparr> base := Some n, bev := Some n \<rparr>, fresh := n + 1,
                            freed := n # freed s, conns := remove_at i (conns s) \<rparr>
         | Started \<Rightarrow> s\<lparr> cl := (cl s)\<lparr> base := Some n, bev := Some n \<rparr>, fresh := n + 1,
                          conns := (conns s)[i := CLoop n] \<rparr>)"

text \<open>
  After the loop the thread frees what the client structure points to at that moment, which is not
  necessarily what it created.
\<close>

definition conn_free :: "nat \<Rightarrow> tcp_sys \<Rightarrow> tcp_sys" where
  "conn_free i s =
     (case use_ptr s (bev (cl s)) of
        Inl e \<Rightarrow> crash s e
      | Inr n \<Rightarrow> s\<lparr> cl := (cl s)\<lparr> base := None, bev := None \<rparr>, freed := n # freed s,
                    conns := remove_at i (conns s) \<rparr>)"

text \<open>\<open>tcp_client_send_entry\<close>: one turn of the loop is two steps, the removal and the write.\<close>

definition sender_step :: "nat \<Rightarrow> tcp_sys \<Rightarrow> tcp_sys" where
  "sender_step i s =
     (case senders s ! i of
        SLoop \<Rightarrow>
          (if \<not> is_connected (cl s) then s\<lparr> senders := remove_at i (senders s) \<rparr>
           else case queue_get 1400 (tx_queue (cl s)) of
                  Inl e \<Rightarrow> crash s e
                | Inr None \<Rightarrow> s
                | Inr (Some (m, q)) \<Rightarrow> s\<lparr> cl := (cl s)\<lparr> tx_queue := q \<rparr>, senders := (senders s)[i := SHave m] \<rparr>)
      | SHave m \<Rightarrow>
          (case use_ptr s (bev (cl s)) of
             Inl e \<Rightarrow> crash s e
           | Inr _ \<Rightarrow> s\<lparr> wire := wire s @ [m], senders := (senders s)[i := SLoop] \<rparr>))"

text \<open>
  \<open>event_base_once\<close> and \<open>event_base_loopbreak\<close> on \<open>client->base\<close>: on a null base they return an error and do nothing. A
  timer is armed on the base the structure points to at that moment, and fires when the loop of that base runs.
\<close>

definition arm_timer :: "tcp_sys \<Rightarrow> tcp_sys" where
  "arm_timer s = (case base (cl s) of None \<Rightarrow> s
     | Some n \<Rightarrow> if n \<in> set (freed s) then crash s UseAfterFree else s\<lparr> timers := timers s @ [n] \<rparr>)"

definition break_loop :: "tcp_sys \<Rightarrow> tcp_sys" where
  "break_loop s = (case base (cl s) of None \<Rightarrow> s
     | Some n \<Rightarrow> if n \<in> set (freed s) then crash s UseAfterFree
               else s\<lparr> conns := map (\<lambda>c. if c = CLoop n then CFree else c) (conns s) \<rparr>)"

fun tcp_do :: "tcp_act \<Rightarrow> tcp_sys \<Rightarrow> tcp_sys" where
  "tcp_do Connect s = s\<lparr> conns := conns s @ [CStart] \<rparr>"
| "tcp_do (ConnSetup i r) s = conn_setup i r s"
| "tcp_do (ConnLoopEnds i) s = s\<lparr> conns := (conns s)[i := CFree] \<rparr>"
| "tcp_do (ConnFree i) s = conn_free i s"
| "tcp_do EvConnected s =
     (case tcp_client_event_cb True (cl s) of
        (c, spawn, _) \<Rightarrow> s\<lparr> cl := c, senders := senders s @ (if spawn then [SLoop] else []) \<rparr>)"
| "tcp_do EvError s =
     (case tcp_client_event_cb False (cl s) of
        (c, _, arm) \<Rightarrow> if arm then arm_timer (s\<lparr> cl := c \<rparr>) else s\<lparr> cl := c \<rparr>)"
| "tcp_do (TimerFires n) s =
     (case tcp_client_reconnect (cl s) of
        (c, spawn) \<Rightarrow> s\<lparr> cl := c, timers := remove1 n (timers s), conns := conns s @ (if spawn then [CStart] else []) \<rparr>)"
| "tcp_do (SenderStep i) s = sender_step i s"
| "tcp_do (Send m) s =
     (case tcp_client_send (cl s) m (length m) of
        Inl e \<Rightarrow> crash s e
      | Inr (r, c) \<Rightarrow> s\<lparr> cl := c, accepted := accepted s @ (if is_connected (cl s) \<and> r = 0 then [m] else []) \<rparr>)"
| "tcp_do (Recv bs) s =
     (case tcp_client_read_cb (cl s) bs of None \<Rightarrow> s | Some m \<Rightarrow> s\<lparr> delivered := delivered s @ [m] \<rparr>)"
| "tcp_do Disconnect s =
     (if \<not> is_connected (cl s) then s
      else break_loop (s\<lparr> cl := (cl s)\<lparr> is_connected := False \<rparr> \<rparr>))"

definition in_loop :: "conn_pc \<Rightarrow> bool" where
  "in_loop c = (case c of CLoop _ \<Rightarrow> True | _ \<Rightarrow> False)"

lemma in_loop_simps [simp]: "in_loop (CLoop n)" "\<not> in_loop CStart" "\<not> in_loop CFree"
  by (simp_all add: in_loop_def)

text \<open>When an action can happen: the thread is at that point, an event loop is running.\<close>

fun tcp_enabled :: "tcp_act \<Rightarrow> tcp_sys \<Rightarrow> bool" where
  "tcp_enabled (ConnSetup i r) s = (i < length (conns s) \<and> conns s ! i = CStart)"
| "tcp_enabled (ConnLoopEnds i) s = (i < length (conns s) \<and> in_loop (conns s ! i))"
| "tcp_enabled (ConnFree i) s = (i < length (conns s) \<and> conns s ! i = CFree)"
| "tcp_enabled EvConnected s = list_ex in_loop (conns s)"
| "tcp_enabled EvError s = list_ex in_loop (conns s)"
| "tcp_enabled (Recv bs) s = list_ex in_loop (conns s)"
| "tcp_enabled (TimerFires n) s = (n \<in> set (timers s) \<and> CLoop n \<in> set (conns s))"
| "tcp_enabled (SenderStep i) s = (i < length (senders s))"
| "tcp_enabled Connect s = True"
| "tcp_enabled (Send m) s = True"
| "tcp_enabled Disconnect s = True"

definition tcp_start :: "string \<Rightarrow> int \<Rightarrow> nat \<Rightarrow> tcp_sys" where
  "tcp_start ip p n =
     \<lparr> cl = tcp_client_register_cb (tcp_client_create ip p n), conns = [], senders = [], timers = [],
       fresh = 0, freed = [], wire = [], accepted = [], delivered = [], tcp_fault = None \<rparr>"

inductive tcp_step :: "tcp_sys \<Rightarrow> tcp_sys \<Rightarrow> bool" where
  act: "tcp_fault s = None \<Longrightarrow> tcp_enabled a s \<Longrightarrow> tcp_step s (tcp_do a s)"

inductive_cases tcp_stepE: "tcp_step s s'"

inductive tcp_reachable :: "string \<Rightarrow> int \<Rightarrow> nat \<Rightarrow> tcp_sys \<Rightarrow> bool" for ip p n where
  start: "tcp_reachable ip p n (tcp_start ip p n)"
| go: "tcp_reachable ip p n s \<Longrightarrow> tcp_step s s' \<Longrightarrow> tcp_reachable ip p n s'"

subsection \<open>Invariants\<close>

definition tcp_inv :: "nat \<Rightarrow> tcp_sys \<Rightarrow> bool" where
  "tcp_inv n s \<longleftrightarrow> max_recnt_att (cl s) = n \<and> recnt_att (cl s) \<le> n \<and> queue_inv 1400 (tx_queue (cl s)) \<and>
     length (contents (tx_queue (cl s))) \<le> 63"

lemma tx_put:
  assumes inv: "queue_inv 1400 q" and put: "enqueue q m (length m) = Inr (r, q')"
  shows "queue_inv 1400 q' \<and> contents q' = contents q @ (if r = 0 then [m] else [])"
proof -
  have le: "length m \<le> 1400 \<or> length (contents q) = 63"
    using put enqueue_overflow [OF inv, of "length m" m] ring.within_cap [OF inv] by fastforce
  show ?thesis
  proof (cases "length (contents q) = 63")
    case True
    with inv put enqueue_full [OF inv, of m "length m"] show ?thesis by simp
  next
    case False
    with le ring.within_cap [OF inv] have "length m \<le> 1400" "count q < 63" by simp_all
    from enqueue_accept [OF inv this(2) order_refl this(1)] put show ?thesis by auto
  qed
qed

lemma tx_get:
  assumes "queue_inv 1400 q" "queue_get 1400 q = Inr (Some (m, q'))"
  shows "queue_inv 1400 q' \<and> contents q = m # contents q'"
  using assms(1)
proof (cases rule: ring.deq_cases)
  case 1
  with assms(2) show ?thesis by simp
next
  case (2 m ms q')
  with assms(2) show ?thesis by simp
qed

lemma tcp_start_inv: "tcp_inv n (tcp_start ip p n)"
  using init_queue_inv [of cleared_queue 1400]
  by (simp add: tcp_inv_def tcp_start_def tcp_client_register_cb_def tcp_client_create_def
      cleared_queue_def)

lemmas tcp_cb_defs = tcp_client_event_cb_def tcp_client_reconnect_def arm_timer_def break_loop_def Let_def

lemma tcp_do_inv:
  assumes "tcp_inv n s"
  shows "tcp_inv n (tcp_do a s)"
  using assms
proof (cases a)
  case (ConnSetup i r)
  with assms show ?thesis by (cases r) (simp_all add: tcp_inv_def conn_setup_def Let_def)
next
  case (SenderStep i)
  have "queue_get 1400 (tx_queue (cl s)) = Inr (Some (m, q)) \<Longrightarrow>
      queue_inv 1400 q \<and> length (contents q) \<le> 63" for m q
    using assms tx_get [of "tx_queue (cl s)" m q] ring.within_cap [of 1400 q] by (simp add: tcp_inv_def)
  with SenderStep assms show ?thesis
    by (auto simp: tcp_inv_def sender_step_def crash_def split: send_pc.split sum.split option.split)
next
  case (Send m)
  have "enqueue (tx_queue (cl s)) m (length m) = Inr (r, q) \<Longrightarrow>
      queue_inv 1400 q \<and> length (contents q) \<le> 63" for r q
    using assms tx_put [of "tx_queue (cl s)" m r q] ring.within_cap [of 1400 q] by (simp add: tcp_inv_def)
  with Send assms show ?thesis
    by (auto simp: tcp_inv_def tcp_client_send_def crash_def split: sum.split)
qed (auto simp: tcp_inv_def tcp_cb_defs conn_free_def crash_def split: sum.split option.split)

lemma tcp_reachable_inv: "tcp_reachable ip p n s \<Longrightarrow> tcp_inv n s"
  by (induction rule: tcp_reachable.induct) (auto simp: tcp_start_inv elim!: tcp_stepE intro: tcp_do_inv)

text \<open>
  C32: In every reachable state of the client, whatever the network does and however its threads
  interleave, the number of reconnection attempts since the last connection is at most the limit
  given to \<open>tcp_client_create\<close>, and the transmit queue is well formed, with every stored frame inside
  its segment.
\<close>

theorem tcp_client_invariant:
  assumes "tcp_reachable ip p n s"
  shows "recnt_att (cl s) \<le> n \<and> queue_inv 1400 (tx_queue (cl s)) \<and> length (contents (tx_queue (cl s))) \<le> 63"
  using tcp_reachable_inv [OF assms] by (simp add: tcp_inv_def)

text \<open>Runs as action lists, for concrete scenarios.\<close>

fun tcp_run :: "tcp_act list \<Rightarrow> tcp_sys \<Rightarrow> tcp_sys option" where
  "tcp_run [] s = Some s"
| "tcp_run (a # as) s = (if tcp_fault s = None \<and> tcp_enabled a s then tcp_run as (tcp_do a s) else None)"

lemma tcp_run_reachable: "tcp_reachable ip p n s \<Longrightarrow> tcp_run as s = Some s' \<Longrightarrow> tcp_reachable ip p n s'"
  by (induction as arbitrary: s) (auto split: if_splits intro: tcp_reachable.go tcp_step.act)

theorem tcp_client_invariant_witness:
  "\<exists>s. tcp_run [Connect, ConnSetup 0 Started, EvConnected, EvError, TimerFires 0] (tcp_start ''x'' 1 5) = Some s \<and>
     recnt_att (cl s) = 1 \<and> recnt_att (cl s) \<le> 5"
proof -
  obtain s where s: "tcp_run [Connect, ConnSetup 0 Started, EvConnected, EvError, TimerFires 0] (tcp_start ''x'' 1 5) = Some s"
      "recnt_att (cl s) = 1"
    by (simp add: tcp_start_def conn_setup_def tcp_cb_defs tcp_client_create_def tcp_client_register_cb_def)
  with tcp_client_invariant [OF tcp_run_reachable [OF tcp_reachable.start s(1)]] show ?thesis by blast
qed

subsection \<open>Frames are written in order\<close>

text \<open>Executions in which no access faults and at most one sender thread is alive at a time.\<close>

inductive tcp_calm :: "string \<Rightarrow> int \<Rightarrow> nat \<Rightarrow> tcp_sys \<Rightarrow> bool" for ip p n where
  start: "tcp_calm ip p n (tcp_start ip p n)"
| go: "tcp_calm ip p n s \<Longrightarrow> tcp_step s s' \<Longrightarrow> length (senders s') \<le> 1 \<Longrightarrow> tcp_calm ip p n s'"

definition held :: "send_pc list \<Rightarrow> bytes list" where
  "held ss = concat (map (\<lambda>p. case p of SLoop \<Rightarrow> [] | SHave m \<Rightarrow> [m]) ss)"

definition in_order :: "tcp_sys \<Rightarrow> bool" where
  "in_order s \<longleftrightarrow> length (senders s) \<le> 1 \<and>
     wire s @ held (senders s) @ contents (tx_queue (cl s)) = accepted s"

lemma held_simps [simp]:
  "held [] = []" "held (SLoop # ss) = held ss" "held (SHave m # ss) = m # held ss" "held (xs @ ys) = held xs @ held ys"
  by (simp_all add: held_def)

lemma single_sender:
  "length ss \<le> 1 \<Longrightarrow> i < length ss \<Longrightarrow> i = 0 \<and> ss = [ss ! 0]"
  by (cases ss) auto

lemma tcp_do_in_order:
  assumes inv: "tcp_inv n s" and ord: "in_order s" and en: "tcp_enabled a s"
    and one: "length (senders (tcp_do a s)) \<le> 1"
  shows "in_order (tcp_do a s)"
proof (cases a)
  case (ConnSetup i r)
  with ord show ?thesis by (cases r) (simp_all add: in_order_def conn_setup_def Let_def)
next
  case (SenderStep i)
  with en ord single_sender [of "senders s" i] obtain pc where pc: "senders s = [pc]" "i = 0"
    by (auto simp: in_order_def)
  show ?thesis
  proof (cases pc)
    case SLoop
    have "queue_get 1400 (tx_queue (cl s)) = Inr (Some (m, q)) \<Longrightarrow> contents (tx_queue (cl s)) = m # contents q" for m q
      using inv tx_get [of "tx_queue (cl s)" m q] by (simp add: tcp_inv_def)
    with SenderStep pc SLoop ord show ?thesis
      by (auto simp: in_order_def sender_step_def crash_def remove_at_def split: sum.split option.split)
  next
    case (SHave m)
    with SenderStep pc ord show ?thesis
      by (auto simp: in_order_def sender_step_def crash_def split: sum.split)
  qed
next
  case (Send m)
  show ?thesis
  proof (cases "is_connected (cl s)")
    case False
    with Send ord show ?thesis by (simp add: in_order_def tcp_client_send_def)
  next
    case True
    show ?thesis
    proof (cases "enqueue (tx_queue (cl s)) m (length m)")
      case (Inl e)
      with Send ord True show ?thesis by (simp add: in_order_def tcp_client_send_def crash_def)
    next
      case (Inr x)
      then obtain r q where x: "enqueue (tx_queue (cl s)) m (length m) = Inr (r, q)" by (cases x) auto
      with inv tx_put [OF _ x]
      have "contents q = contents (tx_queue (cl s)) @ (if r = 0 then [m] else [])"
        by (simp add: tcp_inv_def)
      then have "accepted (tcp_do a s) = wire s @ held (senders s) @ contents q"
        using Send ord True x by (auto simp: in_order_def tcp_client_send_def)
      with Send ord True x show ?thesis by (simp add: in_order_def tcp_client_send_def)
    qed
  qed
qed (use ord one in \<open>auto simp: in_order_def tcp_cb_defs conn_free_def crash_def split: sum.split option.split if_splits\<close>)

lemma tcp_calm_in_order: "tcp_calm ip p n s \<Longrightarrow> tcp_inv n s \<and> in_order s"
proof (induction rule: tcp_calm.induct)
  case start
  have "contents (tx_queue (cl (tcp_start ip p n))) = []"
    using init_queue_inv [of cleared_queue 1400]
    by (simp add: tcp_start_def tcp_client_register_cb_def tcp_client_create_def cleared_queue_def)
  then show ?case
    by (simp add: in_order_def tcp_start_inv) (simp add: tcp_start_def)
next
  case (go s s')
  then show ?case by (auto elim!: tcp_stepE intro: tcp_do_inv tcp_do_in_order)
qed

text \<open>
  C4: As long as at most one sender thread is alive, the frames accepted by \<open>tcp_client_send\<close> while
  connected reach the wire in order, across disconnections and reconnections: what was written,
  what the sender holds and what is queued are together exactly the accepted frames.
\<close>

theorem tcp_send_order:
  assumes "tcp_calm ip p n s"
  shows "wire s @ held (senders s) @ contents (tx_queue (cl s)) = accepted s"
  using tcp_calm_in_order [OF assms] by (simp add: in_order_def)

text \<open>The sender makes progress: two steps per queued frame empty the queue onto the wire.\<close>

lemma sender_two_steps:
  assumes "tcp_inv n s" "senders s = [SLoop]" "is_connected (cl s)" "bev (cl s) = Some b" "b \<notin> set (freed s)"
    and "contents (tx_queue (cl s)) = m # ms"
  shows "\<exists>q. tcp_do (SenderStep 0) (tcp_do (SenderStep 0) s) =
           s\<lparr> cl := (cl s)\<lparr> tx_queue := q \<rparr>, wire := wire s @ [m] \<rparr> \<and>
           queue_inv 1400 q \<and> contents q = ms"
proof -
  from assms(1) have "queue_inv 1400 (tx_queue (cl s))" by (simp add: tcp_inv_def)
  from ring.deq_first [OF this assms(6)] obtain q where
    "queue_get 1400 (tx_queue (cl s)) = Inr (Some (m, q))" "queue_inv 1400 q" "contents q = ms" by blast
  with assms show ?thesis
    by (intro exI [of _ q], cases s) (simp add: sender_step_def use_ptr_def)
qed

text \<open>
  A connected client with one idle sender and a live transport writes its whole transmit queue,
  in order, in two sender steps per frame, and is left with an empty queue: sending does finish.
\<close>

theorem tcp_sender_drains:
  assumes "tcp_inv n s" "senders s = [SLoop]" "is_connected (cl s)" "bev (cl s) = Some b" "b \<notin> set (freed s)"
  shows "\<exists>q. (tcp_do (SenderStep 0) ^^ (2 * length (contents (tx_queue (cl s))))) s =
           s\<lparr> cl := (cl s)\<lparr> tx_queue := q \<rparr>, wire := wire s @ contents (tx_queue (cl s)) \<rparr> \<and>
           contents q = []"
  using assms
proof (induction "contents (tx_queue (cl s))" arbitrary: s)
  case Nil
  then show ?case by (intro exI [of _ "tx_queue (cl s)"]) (simp flip: length_contents)
next
  case (Cons m ms)
  obtain q where q: "tcp_do (SenderStep 0) (tcp_do (SenderStep 0) s) =
      s\<lparr> cl := (cl s)\<lparr> tx_queue := q \<rparr>, wire := wire s @ [m] \<rparr>" "queue_inv 1400 q" "contents q = ms"
    using sender_two_steps [OF Cons.prems Cons.hyps(2) [symmetric]] by blast
  define s' where "s' = s\<lparr> cl := (cl s)\<lparr> tx_queue := q \<rparr>, wire := wire s @ [m] \<rparr>"
  have cont: "contents (tx_queue (cl s')) = ms" using q by (simp add: s'_def)
  have "tcp_inv n s'" using Cons.prems(1) q ring.within_cap [OF q(2)] by (simp add: tcp_inv_def s'_def)
  with Cons.hyps(1) [of s'] cont Cons.prems obtain q' where
    r: "(tcp_do (SenderStep 0) ^^ (2 * length ms)) s' =
        s'\<lparr> cl := (cl s')\<lparr> tx_queue := q' \<rparr>, wire := wire s' @ ms \<rparr>" "contents q' = []"
    by (auto simp: s'_def)
  have "(tcp_do (SenderStep 0) ^^ (2 * length (m # ms))) s = (tcp_do (SenderStep 0) ^^ (2 * length ms)) s'"
  proof -
    have "2 * length (m # ms) = Suc (Suc (2 * length ms))" by simp
    then show ?thesis by (simp only: funpow_Suc_right o_apply q(1) s'_def)
  qed
  with r show ?case unfolding Cons.hyps(2) [symmetric] by (auto simp: s'_def)
qed

subsection \<open>Scenarios\<close>

text \<open>A started client with its first connection up, and sends on it.\<close>

definition tcp_up :: tcp_sys where
  "tcp_up = tcp_do EvConnected (tcp_do (ConnSetup 0 Started) (tcp_do Connect (tcp_start ''10.0.0.1'' 3901 3000)))"

lemma tcp_up_eq:
  "tcp_up = (tcp_start ''10.0.0.1'' 3901 3000)\<lparr>
     cl := (cl (tcp_start ''10.0.0.1'' 3901 3000))\<lparr> base := Some 0, bev := Some 0, is_connected := True \<rparr>,
     conns := [CLoop 0], senders := [SLoop], fresh := 1 \<rparr>"
  by (simp add: tcp_up_def tcp_start_def conn_setup_def tcp_cb_defs tcp_client_create_def
      tcp_client_register_cb_def)

lemma tcp_up_reachable: "tcp_reachable ''10.0.0.1'' 3901 3000 tcp_up"
  unfolding tcp_up_def
  by (intro tcp_reachable.go [OF _ tcp_step.act] tcp_reachable.start)
    (simp_all add: tcp_start_def conn_setup_def)

lemma tcp_up_inv: "tcp_inv 3000 tcp_up"
  by (rule tcp_reachable_inv [OF tcp_up_reachable])

lemma tcp_up_empty: "contents (tx_queue (cl tcp_up)) = []"
  using init_queue_inv [of cleared_queue 1400]
  by (simp add: tcp_up_eq tcp_start_def tcp_client_register_cb_def tcp_client_create_def cleared_queue_def)

lemma send_two:
  obtains q where "tcp_do (Send [2]) (tcp_do (Send [1]) tcp_up) =
      tcp_up\<lparr> cl := (cl tcp_up)\<lparr> tx_queue := q \<rparr>, accepted := [[1], [2]] \<rparr>"
    "queue_inv 1400 q" "contents q = [[1], [2]]"
proof -
  have up: "is_connected (cl tcp_up)" "accepted tcp_up = []" by (simp_all add: tcp_up_eq tcp_start_def)
  from tcp_up_inv have "queue_inv 1400 (tx_queue (cl tcp_up))" by (simp add: tcp_inv_def)
  from ring.enq_accept [OF this, of "[1]"] tcp_up_empty obtain q1 where
    q1: "queue_put (tx_queue (cl tcp_up)) [1] = Inr (0, q1)" "queue_inv 1400 q1" "contents q1 = [[1]]" by auto
  from ring.enq_accept [OF q1(2), of "[2]"] q1(3) obtain q2 where
    q2: "queue_put q1 [2] = Inr (0, q2)" "queue_inv 1400 q2" "contents q2 = [[1], [2]]" by auto
  have "tcp_do (Send [2]) (tcp_do (Send [1]) tcp_up) =
      tcp_up\<lparr> cl := (cl tcp_up)\<lparr> tx_queue := q2 \<rparr>, accepted := [[1], [2]] \<rparr>"
    using q1(1) q2(1) up by (simp add: tcp_client_send_def queue_put_def)
  with q2 that show thesis by blast
qed

lemma send_keeps_fault: "tcp_fault (tcp_do (Send m) s) = None \<Longrightarrow> tcp_fault s = None"
  by (auto simp: crash_def split: sum.splits prod.splits)

theorem tcp_sender_drains_witness:
  "\<exists>q s. s = (tcp_do (SenderStep 0) ^^ 4) (tcp_do (Send [2]) (tcp_do (Send [1]) tcp_up)) \<and>
     wire s = [[1], [2]] \<and> contents (tx_queue (cl s)) = []"
proof -
  obtain q where q: "tcp_do (Send [2]) (tcp_do (Send [1]) tcp_up) =
      tcp_up\<lparr> cl := (cl tcp_up)\<lparr> tx_queue := q \<rparr>, accepted := [[1], [2]] \<rparr>"
    "queue_inv 1400 q" "contents q = [[1], [2]]" by (rule send_two)
  define s where "s = tcp_up\<lparr> cl := (cl tcp_up)\<lparr> tx_queue := q \<rparr>, accepted := [[1], [2]] \<rparr>"
  have "tcp_inv 3000 s" using tcp_up_inv q by (simp add: tcp_inv_def s_def flip: length_contents)
  from tcp_sender_drains [OF this, of 0] q show ?thesis
    unfolding q(1) s_def [symmetric] by (auto simp: s_def tcp_up_eq tcp_start_def)
qed

text \<open>
  The connection drops and comes back before the sender has noticed: a second sender thread is
  started. The first holds frame 1, the second writes frame 2 first.
\<close>

definition race :: "tcp_act list" where
  "race = [SenderStep 0, EvError, TimerFires 0, ConnSetup 1 Started, EvConnected,
           SenderStep 1, SenderStep 1, SenderStep 0]"

text \<open>
  The client can have two sender threads at once and then reorders frames: a reachable state
  has sent frame 2 before frame 1, although 1 was accepted first.
\<close>

theorem tcp_reorders_after_reconnect:
  "\<exists>s. tcp_reachable ''10.0.0.1'' 3901 3000 s \<and> accepted s = [[1], [2]] \<and> wire s = [[2], [1]] \<and>
     length (senders s) = 2"
proof -
  obtain q where q: "tcp_do (Send [2]) (tcp_do (Send [1]) tcp_up) =
      tcp_up\<lparr> cl := (cl tcp_up)\<lparr> tx_queue := q \<rparr>, accepted := [[1], [2]] \<rparr>"
    "queue_inv 1400 q" "contents q = [[1], [2]]" by (rule send_two)
  from ring.deq_first [OF q(2,3)] obtain q1 where
    q1: "queue_get 1400 q = Inr (Some ([1], q1))" "queue_inv 1400 q1" "contents q1 = [[2]]" by auto
  from ring.deq_first [OF q1(2,3)] obtain q2 where
    q2: "queue_get 1400 q1 = Inr (Some ([2], q2))" by auto
  let ?s = "tcp_up\<lparr> cl := (cl tcp_up)\<lparr> tx_queue := q \<rparr>, accepted := [[1], [2]] \<rparr>"
  have nf: "tcp_fault (tcp_do (Send [2]) (tcp_do (Send [1]) tcp_up)) = None"
    by (simp only: q(1)) (simp add: tcp_up_eq tcp_start_def)
  have "tcp_fault (tcp_do (Send [1]) tcp_up) = None" by (rule send_keeps_fault [OF nf])
  then have "tcp_reachable ''10.0.0.1'' 3901 3000 (tcp_do (Send [2]) (tcp_do (Send [1]) tcp_up))"
    by (intro tcp_reachable.go [OF _ tcp_step.act] tcp_up_reachable)
      (simp_all add: tcp_up_eq tcp_start_def del: tcp_do.simps)
  then have reach: "tcp_reachable ''10.0.0.1'' 3901 3000 ?s" by (simp only: q(1))
  have "\<exists>s. tcp_run race ?s = Some s \<and> accepted s = [[1], [2]] \<and> wire s = [[2], [1]] \<and> length (senders s) = 2"
    using q1(1) q2
    by (simp add: race_def tcp_up_eq tcp_start_def sender_step_def conn_setup_def tcp_cb_defs use_ptr_def
        tcp_client_create_def tcp_client_register_cb_def)
  with tcp_run_reachable [OF reach] show ?thesis by blast
qed


text \<open>
  \<open>tcp_client_send\<close>: while disconnected it returns 0 and drops the frame; while connected it
  appends a frame of at most 1400 bytes, returns -1 when 63 frames wait, and overruns a queue segment
  on a longer frame.
\<close>

theorem tcp_client_send_spec:
  assumes "queue_inv 1400 (tx_queue c)" "len \<le> length data"
  shows "if \<not> is_connected c then tcp_client_send c data len = Inr (0, c)
         else if length (contents (tx_queue c)) = 63 then tcp_client_send c data len = Inr (-1, c)
         else if 1400 < len then tcp_client_send c data len = Inl BufferOverflow
         else \<exists>q. tcp_client_send c data len = Inr (0, c\<lparr> tx_queue := q \<rparr>) \<and> queue_inv 1400 q \<and>
                contents q = contents (tx_queue c) @ [take len data]"
  using assms enqueue_full [OF assms(1), of data len] enqueue_overflow [OF assms(1), of len data]
    enqueue_accept [OF assms(1), of len data] ring.within_cap [OF assms(1)]
  by (auto simp: tcp_client_send_def) blast

theorem tcp_client_send_spec_witness:
  "tcp_client_send (cl tcp_up) (replicate 1500 0) 1500 = Inl BufferOverflow"
  using tcp_client_send_spec [of "cl tcp_up" 1500 "replicate 1500 0"] tcp_up_inv tcp_up_empty
  by (simp add: tcp_inv_def tcp_up_eq flip: length_contents)

theorem tcp_send_order_witness:
  "wire tcp_up @ held (senders tcp_up) @ contents (tx_queue (cl tcp_up)) = accepted tcp_up"
proof (rule tcp_send_order)
  show "tcp_calm ''10.0.0.1'' 3901 3000 tcp_up"
    unfolding tcp_up_def
    by (intro tcp_calm.go [OF _ tcp_step.act] tcp_calm.start)
      (simp_all add: tcp_start_def conn_setup_def tcp_cb_defs tcp_client_create_def tcp_client_register_cb_def)
qed

end
