(* ===== verification/MqttClient.thy ===== *)
theory MqttClient
  imports World
begin

text \<open>
  \<open>net/mqtt_client.c\<close>: the MQTT link to the FKZ9 unit, on the Paho asynchronous client, which
  is the environment (\<open>MQTTASYNC_SUCCESS\<close> is 0). \<open>config\<close> is a pointer into the caller's
  memory: \<open>None\<close> once the object it points to is gone, and reading it then is a fault. The lock
  of the structure makes each function one step.
\<close>

record AsyncClientConfig =
  address :: string
  client_id :: string
  user_name :: string
  password :: string
  qos :: int
  keep_alive :: int
  clean_session :: int

record AsyncMQTTClient =
  handle :: nat
  config :: "AsyncClientConfig option"
  on_message :: bool
  is_conn :: bool

definition QOS :: int where "QOS = 0"
definition KEEP_ALIVE_TIME :: int where "KEEP_ALIVE_TIME = 20"

definition on_connect_success :: "AsyncMQTTClient \<Rightarrow> AsyncMQTTClient" where
  "on_connect_success c = c\<lparr> is_conn := True \<rparr>"

definition on_connect_failure :: "AsyncMQTTClient \<Rightarrow> AsyncMQTTClient" where
  "on_connect_failure c = (if is_conn c then c\<lparr> is_conn := False \<rparr> else c)"

definition connection_lost_cb :: "AsyncMQTTClient \<Rightarrow> AsyncMQTTClient" where
  "connection_lost_cb c = (if is_conn c then c\<lparr> is_conn := False \<rparr> else c)"

text \<open>The second component: the message goes to the registered callback.\<close>

definition message_arrived_cb :: "AsyncMQTTClient \<Rightarrow> string \<Rightarrow> bytes \<Rightarrow> AsyncMQTTClient \<times> (string \<times> bytes) option" where
  "message_arrived_cb c topic payload =
     (if \<not> is_conn c then c\<lparr> is_conn := True \<rparr> else c,
      if on_message c then Some (topic, payload) else None)"

text \<open>The three readers of \<open>client->config\<close>.\<close>

definition mqtt_connect :: "AsyncMQTTClient option \<Rightarrow> int io" where
  "mqtt_connect client =
     (case client of None \<Rightarrow> ret (-1)
      | Some c \<Rightarrow>
          (case config c of
             None \<Rightarrow> do { fault_io UseAfterFree; ret (-1) }
           | Some cfg \<Rightarrow> do {
               a \<leftarrow> call (Mqtt (MqttConnect (handle c) (user_name cfg) (password cfg)
                            (keep_alive cfg) (clean_session cfg)));
               ret (rc a) }))"

definition mqtt_publish :: "AsyncMQTTClient \<Rightarrow> string \<Rightarrow> bytes \<Rightarrow> nat \<Rightarrow> int io" where
  "mqtt_publish c topic payload len =
     (case config c of
        None \<Rightarrow> do { fault_io UseAfterFree; ret (-1) }
      | Some cfg \<Rightarrow>
          if is_conn c
          then do {
            check_io (len \<le> length payload) OutOfBounds;
            a \<leftarrow> call (Mqtt (MqttSend (handle c) topic (take len payload) (qos cfg) True));
            ret (rc a) }
          else ret (-1))"

definition mqtt_subscribe :: "AsyncMQTTClient \<Rightarrow> string \<Rightarrow> int io" where
  "mqtt_subscribe c topic =
     (case config c of
        None \<Rightarrow> do { fault_io UseAfterFree; ret (-1) }
      | Some cfg \<Rightarrow>
          if is_conn c
          then do { a \<leftarrow> call (Mqtt (MqttSubscribe (handle c) topic (qos cfg))); ret (rc a) }
          else ret (-1))"

definition mqtt_register_cb :: "AsyncMQTTClient \<Rightarrow> AsyncMQTTClient" where
  "mqtt_register_cb c = c\<lparr> on_message := True \<rparr>"

definition mqtt_client_destroy :: "AsyncMQTTClient option \<Rightarrow> unit io" where
  "mqtt_client_destroy client =
     (case client of None \<Rightarrow> ret () | Some c \<Rightarrow> tell (Mqtt (MqttDestroy (handle c))))"

definition mqtt_client_create :: "AsyncClientConfig \<Rightarrow> AsyncMQTTClient option io" where
  "mqtt_client_create cfg = do {
     w \<leftarrow> State_Monad.get;
     a \<leftarrow> call (Mqtt (MqttCreate (address cfg) (client_id cfg)));
     let c = \<lparr> handle = length (trace w), config = Some cfg, on_message = False, is_conn = False \<rparr>
     in if rc a \<noteq> 0 then do { mqtt_client_destroy (Some c); ret None }
        else do {
          b \<leftarrow> call (Mqtt (MqttSetCallbacks (handle c)));
          if rc b \<noteq> 0 then do { mqtt_client_destroy (Some c); ret None } else ret (Some c) } }"

lemma wf_mqtt [wf_io_intros]:
  "wf_io (mqtt_connect c)" "wf_io (mqtt_publish d t p n)" "wf_io (mqtt_subscribe d t)"
  "wf_io (mqtt_client_destroy c)" "wf_io (mqtt_client_create cfg)"
  unfolding mqtt_connect_def mqtt_publish_def mqtt_subscribe_def mqtt_client_destroy_def
    mqtt_client_create_def Let_def
  by (intro wf_io_intros)+

text \<open>The callbacks in any order: the flag is what the last of them said.\<close>

datatype mqtt_event = ConnectOk | ConnectFailed | Lost | Arrived string bytes

definition mqtt_event_cb :: "AsyncMQTTClient \<Rightarrow> mqtt_event \<Rightarrow> AsyncMQTTClient" where
  "mqtt_event_cb c e = (case e of ConnectOk \<Rightarrow> on_connect_success c | ConnectFailed \<Rightarrow> on_connect_failure c
     | Lost \<Rightarrow> connection_lost_cb c | Arrived t p \<Rightarrow> fst (message_arrived_cb c t p))"

fun says_connected :: "mqtt_event \<Rightarrow> bool" where
  "says_connected ConnectOk = True"
| "says_connected ConnectFailed = False"
| "says_connected Lost = False"
| "says_connected (Arrived t p) = True"

lemma mqtt_event_cb_eq: "mqtt_event_cb c e = c\<lparr> is_conn := says_connected e \<rparr>"
  by (cases c; cases e) (auto simp: mqtt_event_cb_def on_connect_success_def on_connect_failure_def
        connection_lost_cb_def message_arrived_cb_def)

lemma mqtt_events_eq: "foldl mqtt_event_cb c (es @ [e]) = c\<lparr> is_conn := says_connected e \<rparr>"
  by (induction es arbitrary: c) (auto simp: mqtt_event_cb_eq)

text \<open>
  \<open>is_conn\<close> after any sequence of library callbacks is determined by the last one (a message
  counts as connected), the rest of the client is untouched, and \<open>mqtt_publish\<close> hands a message to
  the library exactly when it is connected: otherwise it returns -1 and nothing is sent.
\<close>

theorem mqtt_connection_state:
  assumes "ub w = None" "config c = Some cfg" "len \<le> length payload"
  shows "let c' = foldl mqtt_event_cb c (es @ [e])
         in c' = c\<lparr> is_conn := says_connected e \<rparr> \<and>
            map fst (events (mqtt_publish c' topic payload len) w) =
              (if is_conn c' then [Mqtt (MqttSend (handle c) topic (take len payload) (qos cfg) True)] else []) \<and>
            (\<not> is_conn c' \<longrightarrow> value_of (mqtt_publish c' topic payload len) w = -1)"
  unfolding mqtt_events_eq Let_def
  using assms by (auto simp: mqtt_publish_def events_def value_of_def check_io_def)

definition mqtt_example :: AsyncMQTTClient where
  "mqtt_example = \<lparr> handle = 0, config = Some \<lparr> address = ''tcp://192.168.42.50:1883'', client_id = ''RT-A100'',
       user_name = ''cktt'', password = ''cktt'', qos = QOS, keep_alive = KEEP_ALIVE_TIME, clean_session = 0 \<rparr>,
     on_message = True, is_conn = True \<rparr>"

theorem mqtt_connection_state_witness:
  "events (mqtt_publish (foldl mqtt_event_cb mqtt_example [Arrived ''t'' [1], Lost]) ''t'' [1, 2] 2)
     \<lparr> env = \<lambda>_ _. \<lparr> rc = 0, vl = 0, out = [] \<rparr>, localtime = \<lambda>_. tm_example, trace = [], ub = None \<rparr> = []"
  using mqtt_connection_state [of "\<lparr> env = \<lambda>_ _. \<lparr> rc = 0, vl = 0, out = [] \<rparr>, localtime = \<lambda>_. tm_example,
      trace = [], ub = None \<rparr>" mqtt_example "the (config mqtt_example)" 2 "[1, 2]" "[Arrived ''t'' [1]]" Lost "''t''"]
  by (simp add: mqtt_example_def Let_def mqtt_event_cb_eq)

end
