(* ===== verification/Wire.thy ===== *)
theory Wire
  imports Publib
begin

text \<open>
  The frame format shared by the cloud TCP link and the FKZ9 MQTT link
  (\<open>services/cloud_comm.h\<close>, \<open>services/fkz9_comm.h\<close>): a packed header of five bytes
  (marker, big-endian length, sign), a payload and a big-endian 16-bit sum of all the bytes before
  it. The length counts the whole frame. Here are the header, the checksum, the two receivers'
  checks, and the frame builders' common part; the lemmas show that what is built is accepted,
  and which corruptions are detected.
\<close>

definition MSG_DATA_FRAM_HDR1 :: u16 where "MSG_DATA_FRAM_HDR1 = 0xAAAA"
definition MSG_DATA_FRAM_HDR2 :: u16 where "MSG_DATA_FRAM_HDR2 = 0xBBBB"

definition MSG_SIGN_WAVE_FILE_REQ :: u8 where "MSG_SIGN_WAVE_FILE_REQ = 0xAE"
definition MSG_SIGN_WAVE_FILE_RESP :: u8 where "MSG_SIGN_WAVE_FILE_RESP = 0xAF"
definition MSG_SIGN_TRANS_NAV_DATA :: u8 where "MSG_SIGN_TRANS_NAV_DATA = 0xF0"
definition MQTT_MSG_SIGN_HEARTBEAT_REQ :: u8 where "MQTT_MSG_SIGN_HEARTBEAT_REQ = 0x15"
definition MQTT_MSG_SIGN_HEARTBEAT_RESP :: u8 where "MQTT_MSG_SIGN_HEARTBEAT_RESP = 0x16"
definition TCP_MSG_SIGN_DEV_INFO_RESP :: u8 where "TCP_MSG_SIGN_DEV_INFO_RESP = 0x86"

subsection \<open>Checksum\<close>

fun sum_loop :: "u16 \<Rightarrow> bytes \<Rightarrow> u16" where
  "sum_loop ret [] = ret"
| "sum_loop ret (b # buf) = sum_loop (ret + ucast b) buf"

definition checkSum_8 :: "bytes \<Rightarrow> nat \<Rightarrow> u16 outcome" where
  "checkSum_8 buf len = (if length buf < len then Inl OutOfBounds else Inr (sum_loop 0 (take len buf)))"

lemma sum_loop_shift: "sum_loop a bs = a + sum_loop 0 bs"
proof (induction bs arbitrary: a)
  case Nil
  then show ?case by simp
next
  case (Cons b bs)
  from Cons.IH [of "a + ucast b"] Cons.IH [of "ucast b"] show ?case by (simp add: add.assoc)
qed

lemma sum_loop_append [simp]: "sum_loop a (bs @ cs) = sum_loop (sum_loop a bs) cs"
  by (induction bs arbitrary: a) auto

lemma sum_loop_sum: "sum_loop 0 bs = sum_list (map ucast bs)"
proof (induction bs)
  case Nil
  then show ?case by simp
next
  case (Cons b bs)
  then show ?case using sum_loop_shift [of "ucast b" bs] by simp
qed

lemma sum_loop_update:
  "i < length bs \<Longrightarrow> sum_loop 0 (bs[i := b]) = sum_loop 0 bs - ucast (bs ! i) + ucast b"
proof (induction bs arbitrary: i)
  case Nil
  then show ?case by simp
next
  case (Cons c bs)
  then show ?case
    by (cases i) (simp_all add: sum_loop_shift [of "ucast _"])
qed

subsection \<open>The header\<close>

record MsgFramHdr =
  usHdr :: u16
  usLen :: u16
  ucSign :: u8

text \<open>The cast of a buffer to a header pointer: at least five readable bytes.\<close>

definition MsgFramHdr_at :: "bytes \<Rightarrow> MsgFramHdr" where
  "MsgFramHdr_at buf = \<lparr> usHdr = of_le16 (buf ! 0) (buf ! 1), usLen = of_le16 (buf ! 2) (buf ! 3),
                         ucSign = buf ! 4 \<rparr>"

definition hdr_bytes :: "MsgFramHdr \<Rightarrow> bytes" where
  "hdr_bytes h = le16 (usHdr h) @ le16 (usLen h) @ [ucSign h]"

text \<open>\<open>bswap_16(pHdr->usLen)\<close>, and the sign, of the frame in a buffer.\<close>

definition frame_len :: "bytes \<Rightarrow> nat" where
  "frame_len buf = unat (bswap_16 (usLen (MsgFramHdr_at buf)))"

lemma length_hdr_bytes [simp]: "length (hdr_bytes h) = 5"
  by (simp add: hdr_bytes_def)

lemma MsgFramHdr_at_bytes [simp]: "MsgFramHdr_at (hdr_bytes h @ rest) = h"
  by (simp add: MsgFramHdr_at_def hdr_bytes_def le16_def)

lemma MsgFramHdr_at_append: "5 \<le> length buf \<Longrightarrow> MsgFramHdr_at (buf @ rest) = MsgFramHdr_at buf"
  by (auto simp: MsgFramHdr_at_def nth_append)

subsection \<open>Building a frame\<close>

text \<open>
  What every sender does with its buffer: header with the byte-swapped length, payload, sum over
  all but the last two bytes, the swapped sum.
\<close>

definition put_bytes :: "bytes \<Rightarrow> nat \<Rightarrow> bytes \<Rightarrow> bytes" where
  "put_bytes buf off bs = take off buf @ bs @ drop (off + length bs) buf"

definition frame_in :: "bytes \<Rightarrow> u8 \<Rightarrow> bytes \<Rightarrow> bytes" where
  "frame_in buf sign payload =
     (let len = 5 + length payload + 2;
          b1 = put_bytes buf 0 (hdr_bytes \<lparr> usHdr = MSG_DATA_FRAM_HDR1,
                 usLen = bswap_16 (word_of_nat len), ucSign = sign \<rparr>);
          b2 = put_bytes b1 5 payload;
          crc = sum_loop 0 (take (len - 2) b2);
          b3 = put_bytes b2 (len - 2) (le16 (bswap_16 crc))
      in take len b3)"

definition frame :: "u8 \<Rightarrow> bytes \<Rightarrow> bytes" where
  "frame sign payload =
     (let body = hdr_bytes \<lparr> usHdr = MSG_DATA_FRAM_HDR1,
                   usLen = bswap_16 (word_of_nat (7 + length payload)), ucSign = sign \<rparr> @ payload
      in body @ le16 (bswap_16 (sum_loop 0 body)))"

lemma length_put_bytes [simp]: "off + length bs \<le> length buf \<Longrightarrow> length (put_bytes buf off bs) = length buf"
  by (simp add: put_bytes_def)

lemma frame_in_frame: "7 + length payload \<le> length buf \<Longrightarrow> frame_in buf sign payload = frame sign payload"
  by (simp add: frame_in_def frame_def put_bytes_def Let_def add.commute)

lemma length_frame [simp]: "length (frame sign payload) = 7 + length payload"
  by (simp add: frame_def Let_def)

lemma frame_hdr [simp]:
  "MsgFramHdr_at (frame sign payload @ rest) =
     \<lparr> usHdr = MSG_DATA_FRAM_HDR1, usLen = bswap_16 (word_of_nat (7 + length payload)), ucSign = sign \<rparr>"
  by (simp add: frame_def Let_def)

lemma frame_len_frame [simp]:
  "length payload < 65529 \<Longrightarrow> frame_len (frame sign payload @ rest) = 7 + length payload"
  by (simp add: frame_len_def unat_store_u16 del: of_nat_add)

lemma nth_frame: "i < length payload \<Longrightarrow> frame sign payload ! (5 + i) = payload ! i"
  by (simp add: frame_def Let_def nth_append)

subsection \<open>The check of the cloud receiver\<close>

text \<open>
  \<open>cloud_event_task_entry\<close>: the sum runs over \<open>(uint16_t)(usLen - 2)\<close> bytes, the
  received sum is read at \<open>usLen - 2\<close>; the header marker is compared without a swap.
\<close>

definition crc_at :: "bytes \<Rightarrow> nat \<Rightarrow> u16 outcome" where
  "crc_at buf off = (if length buf < off + 2 then Inl OutOfBounds else Inr (of_le16 (buf ! off) (buf ! (off + 1))))"

definition cloud_check :: "bytes \<Rightarrow> bool outcome" where
  "cloud_check buf =
     (let len = frame_len buf
      in case checkSum_8 buf (unat (word_of_nat len - 2 :: u16)) of
           Inl e \<Rightarrow> Inl e
         | Inr crc \<Rightarrow>
             (if len < 2 then Inl OutOfBounds
              else case crc_at buf (len - 2) of
                  Inl e \<Rightarrow> Inl e
                | Inr c \<Rightarrow> Inr (\<not> ((usHdr (MsgFramHdr_at buf) \<noteq> MSG_DATA_FRAM_HDR1 \<and>
                                     usHdr (MsgFramHdr_at buf) \<noteq> MSG_DATA_FRAM_HDR2) \<or>
                                    crc \<noteq> bswap_16 c))))"

text \<open>
  \<open>fkz9_event_task_entry\<close>: the marker first; then the sum, stored in an \<open>int16_t\<close> and
  compared with an unsigned value after promotion to \<open>int\<close>.
\<close>

definition fkz9_check :: "bytes \<Rightarrow> bool outcome" where
  "fkz9_check buf =
     (if usHdr (MsgFramHdr_at buf) \<noteq> MSG_DATA_FRAM_HDR1 \<and> usHdr (MsgFramHdr_at buf) \<noteq> MSG_DATA_FRAM_HDR2
      then Inr False
      else let len = frame_len buf
           in case checkSum_8 buf (unat (word_of_nat len - 2 :: u16)) of
                Inl e \<Rightarrow> Inl e
              | Inr crc \<Rightarrow>
                  (if len < 2 then Inl OutOfBounds
                   else case crc_at buf (len - 2) of
                       Inl e \<Rightarrow> Inl e
                     | Inr c \<Rightarrow> Inr (sint crc = uint (bswap_16 c))))"

subsection \<open>What the checks accept\<close>

definition frame_sum :: "u8 \<Rightarrow> bytes \<Rightarrow> u16" where
  "frame_sum sign payload = sum_loop 0 (take (5 + length payload) (frame sign payload))"

lemma frame_split: "frame sign payload =
    take (5 + length payload) (frame sign payload) @ le16 (bswap_16 (frame_sum sign payload))"
  by (simp add: frame_def frame_sum_def Let_def)

lemma nth_le16_tail:
  "length xs = n \<Longrightarrow> (xs @ le16 c @ ys) ! n = ucast c" "length xs = n \<Longrightarrow> (xs @ le16 c @ ys) ! Suc n = ucast (drop_bit 8 c)"
  by (simp_all add: nth_append le16_def)

lemma crc_at_tail: "length xs = n \<Longrightarrow> crc_at (xs @ le16 c @ ys) n = Inr c"
  using nth_le16_tail [of xs n c ys] by (simp add: crc_at_def)

lemma u16_minus_2: "n < 65534 \<Longrightarrow> unat (word_of_nat (n + 2) - 2 :: u16) = n"
  by (simp add: unat_store_u16)

text \<open>A buffer whose length field is \<open>n + 2\<close>: the two sums the checks compare.\<close>

lemma check_split:
  assumes "length xs = n" "frame_len (xs @ le16 c @ ys) = n + 2" "n < 65534"
  shows "checkSum_8 (xs @ le16 c @ ys)
           (unat (word_of_nat (frame_len (xs @ le16 c @ ys)) - 2 :: u16)) = Inr (sum_loop 0 xs)"
    and "crc_at (xs @ le16 c @ ys) (frame_len (xs @ le16 c @ ys) - 2) = Inr c"
  using assms u16_minus_2 [OF assms(3)] crc_at_tail [OF assms(1), of c ys] by (simp_all add: checkSum_8_def)

lemma cloud_check_split:
  assumes "length xs = n" "frame_len (xs @ le16 c @ ys) = n + 2" "n < 65534"
  shows "cloud_check (xs @ le16 c @ ys) = Inr
     ((usHdr (MsgFramHdr_at (xs @ le16 c @ ys)) = MSG_DATA_FRAM_HDR1 \<or>
       usHdr (MsgFramHdr_at (xs @ le16 c @ ys)) = MSG_DATA_FRAM_HDR2) \<and> sum_loop 0 xs = bswap_16 c)"
  unfolding cloud_check_def Let_def check_split [OF assms] by (auto simp: assms(2))

lemma frame_checks:
  assumes "length payload < 65527"
  shows "cloud_check (frame sign payload @ rest) = Inr True \<and>
         fkz9_check (frame sign payload @ rest) = Inr (frame_sum sign payload < 0x8000)"
proof -
  define xs where "xs = take (5 + length payload) (frame sign payload)"
  define c where "c = bswap_16 (frame_sum sign payload)"
  have f: "frame sign payload @ rest = xs @ le16 c @ rest"
    by (subst frame_split) (simp add: xs_def c_def)
  have len: "length xs = 5 + length payload" "5 + length payload < 65534"
    using assms by (simp_all add: xs_def)
  have fl: "frame_len (xs @ le16 c @ rest) = 5 + length payload + 2"
    using assms frame_len_frame [of payload sign rest] by (simp add: f [symmetric])
  have hdr: "usHdr (MsgFramHdr_at (xs @ le16 c @ rest)) = MSG_DATA_FRAM_HDR1"
    by (simp add: f [symmetric])
  have sum: "sum_loop 0 xs = frame_sum sign payload" by (simp add: xs_def frame_sum_def)
  have cs: "bswap_16 c = frame_sum sign payload" by (simp add: c_def)
  show ?thesis
    unfolding f using check_split [OF len(1) fl len(2)] cloud_check_split [OF len(1) fl len(2)] fl
    by (simp add: fkz9_check_def hdr sum cs sint_eq_uint_u16)
qed



text \<open>
  C20: A frame damaged in one byte, outside the two length bytes, is rejected by the cloud-side
  check: the plain sum of bytes detects every single-byte error.
\<close>

theorem single_byte_damage_rejected:
  assumes "length payload < 65527" "i < length (frame sign payload)" "i \<notin> {2, 3}"
    and "b \<noteq> frame sign payload ! i"
  shows "cloud_check ((frame sign payload)[i := b] @ rest) = Inr False"
proof -
  define n where "n = 5 + length payload"
  define xs where "xs = take n (frame sign payload)"
  define c where "c = bswap_16 (sum_loop 0 xs)"
  have f: "frame sign payload = xs @ le16 c"
    by (subst frame_split) (simp add: xs_def c_def frame_sum_def n_def)
  have xs: "length xs = n" "5 \<le> n" "n < 65534" using assms(1) by (simp_all add: xs_def n_def)
  have len: "frame_len (xs @ zs) = n + 2" for zs
    using frame_len_frame [of payload sign zs] assms(1) xs
    by (simp add: f n_def frame_len_def MsgFramHdr_at_append)
  show ?thesis
  proof (cases "i < n")
    case True
    have eq: "(frame sign payload)[i := b] @ rest = xs[i := b] @ le16 c @ rest"
      using True xs by (simp add: f list_update_append)
    have "frame_len (xs[i := b] @ le16 c @ rest) = n + 2"
      using len [of "le16 c @ rest"] assms(3) xs True
      by (simp add: frame_len_def MsgFramHdr_at_def nth_append)
    moreover have "sum_loop 0 (xs[i := b]) \<noteq> bswap_16 c"
    proof
      assume "sum_loop 0 (xs[i := b]) = bswap_16 c"
      then have "(ucast b :: u16) = ucast (xs ! i)"
        using True xs by (simp add: sum_loop_update c_def)
      then have "b = xs ! i" by (metis ucast_ucast_id_u8)
      with assms(4) True xs show False by (simp add: f nth_append)
    qed
    ultimately show ?thesis
      unfolding eq using cloud_check_split [of "xs[i := b]" n c rest] xs by simp
  next
    case False
    define c' where "c' = (if i = n then of_le16 b (ucast (drop_bit 8 c)) else of_le16 (ucast c) b)"
    from False assms(2) xs have i: "i = n \<or> i = Suc n" by (auto simp: n_def)
    then have eq: "(frame sign payload)[i := b] = xs @ le16 c'"
      using xs by (auto simp: f c'_def list_update_append le16_of_le16) (simp_all add: le16_def)
    have "c' \<noteq> c"
      using assms(4) unfolding eq [symmetric] f
      by (metis append_same_eq assms(2) eq f nth_list_update_eq same_append_eq)
    then show ?thesis
      unfolding eq using cloud_check_split [of xs n c' rest] len [of "le16 c' @ rest"] xs
      by (simp add: c_def) (metis bswap_16_bswap_16)
  qed
qed

theorem single_byte_damage_rejected_witness:
  "cloud_check ((frame 0xAF [0x20, 0x02, 0x25, 5, 1, 0x12, 0, 0])[4 := 0xAE] @ replicate 241 0) = Inr False"
  by (rule single_byte_damage_rejected) (simp_all add: frame_def hdr_bytes_def le16_def Let_def)

text \<open>
  C21: The cloud-side check reads outside its buffer exactly when the big-endian length field of
  the received bytes is below 2 or above the size of the buffer: the field is never compared with
  anything before it is used.
\<close>

theorem cloud_check_faults_iff:
  assumes "length buf = 256"
  shows "is_fault (cloud_check buf) \<longleftrightarrow> frame_len buf < 2 \<or> 256 < frame_len buf"
proof -
  have bound: "frame_len buf < 65536" by (simp add: frame_len_def)
  have low: "frame_len buf < 2 \<Longrightarrow> 65534 \<le> unat (word_of_nat (frame_len buf) - 2 :: u16)"
    by (auto simp: less_2_cases_iff unsigned_minus_1_eq_mask mask_eq_exp_minus_1)
  have high: "2 \<le> frame_len buf \<Longrightarrow> unat (word_of_nat (frame_len buf) - 2 :: u16) = frame_len buf - 2"
    using u16_minus_2 [of "frame_len buf - 2"] bound by simp
  show ?thesis
  proof (cases "frame_len buf < 2")
    case True
    with low assms show ?thesis by (simp add: cloud_check_def checkSum_8_def Let_def)
  next
    case False
    with high assms show ?thesis
      by (auto simp: cloud_check_def checkSum_8_def crc_at_def Let_def is_fault_def split: if_splits)
  qed
qed

theorem cloud_check_faults_iff_witness:
  "is_fault (cloud_check ([0xAA, 0xAA, 0, 0, 0xAE] @ replicate 251 0))"
  using cloud_check_faults_iff [of "[0xAA, 0xAA, 0, 0, 0xAE] @ replicate 251 0"]
  by (simp add: frame_len_def MsgFramHdr_at_def of_le16_def bswap_16_def)

end
