(* ===== verification/Context.thy ===== *)
theory Context
  imports TcpClient MqttClient Shell Wire
begin

text \<open>
  The state the two services share (\<open>CloundCommContext\<close> and \<open>Fkz9CommContext\<close> behind
  \<open>gp_cloud_comm_ctx\<close> and \<open>gp_fkz9_comm_ctx\<close>, and the device information both point
  to), and the operations their handlers perform on it. \<open>cloud_set\<close> and \<open>fkz9_set\<close> say
  whether the two global pointers have been assigned; using one before is the null dereference.
  A fault is recorded in the world, once.
\<close>

record DevBaseInfo =
  dev_addr :: u16
  cloud_ip :: string
  cloud_port :: int
  cpu_sw :: u8
  cpu_hw :: u8
  ad_sw :: u8
  ad_hw :: u8
  ctrl_sw :: u8
  ctrl_hw :: u8
  net_sw :: u8
  net_hw :: u8
  up_time :: string

record App =
  wld :: world
  cloud_set :: bool
  client :: TcpClient
  event_queue :: ThreadSafeQueue
  fkz9_set :: bool
  mqtt_client :: AsyncMQTTClient
  fkz9_queue :: ThreadSafeQueue
  is_init :: bool
  is_running :: bool
  base_info :: DevBaseInfo
  sim_id :: string

type_synonym 'a app = "(App, 'a) state"

abbreviation pure :: "'a \<Rightarrow> 'a app" where
  "pure \<equiv> State_Monad.return"

definition io :: "'a io \<Rightarrow> 'a app" where
  "io m = State (\<lambda>s. case run_state m (wld s) of (x, w) \<Rightarrow> (x, s\<lparr> wld := w \<rparr>))"

definition gets :: "(App \<Rightarrow> 'a) \<Rightarrow> 'a app" where
  "gets f = State (\<lambda>s. (f s, s))"

definition modify :: "(App \<Rightarrow> App) \<Rightarrow> unit app" where
  "modify f = State (\<lambda>s. ((), f s))"

definition fault_app :: "fault \<Rightarrow> unit app" where
  "fault_app e = io (fault_io e)"

definition app_ub :: "App \<Rightarrow> fault option" where
  "app_ub s = ub (wld s)"

text \<open>\<open>gp_cloud_comm_ctx->client->ops->send\<close> and \<open>ctx->client->ops->send\<close>.\<close>

definition client_send :: "bytes \<Rightarrow> nat \<Rightarrow> int app" where
  "client_send data len = State (\<lambda>s.
     case tcp_client_send (client s) data len of
       Inl e \<Rightarrow> run_state (do { fault_app e; pure (-1) }) s
     | Inr (r, c) \<Rightarrow> (r, s\<lparr> client := c \<rparr>))"

definition gp_cloud_send :: "bytes \<Rightarrow> nat \<Rightarrow> int app" where
  "gp_cloud_send data len = do {
     ok \<leftarrow> gets cloud_set;
     if ok then client_send data len else do { fault_app NullDeref; pure (-1) } }"

text \<open>\<open>mqtt_client->ops->publish\<close>.\<close>

definition publish :: "string \<Rightarrow> bytes \<Rightarrow> nat \<Rightarrow> int app" where
  "publish topic payload len = do {
     c \<leftarrow> gets mqtt_client;
     io (mqtt_publish c topic payload len) }"

lemma run_io [simp]:
  "run_state (io m) s = (value_of m (wld s), s\<lparr> wld := snd (run_state m (wld s)) \<rparr>)"
  by (simp add: io_def value_of_def case_prod_beta)

lemma run_gets [simp]: "run_state (gets f) s = (f s, s)"
  by (simp add: gets_def)

lemma run_modify [simp]: "run_state (modify f) s = ((), f s)"
  by (simp add: modify_def)

lemma run_fault_app [simp]:
  "run_state (fault_app e) s = ((), s\<lparr> wld := if ub (wld s) = None then (wld s)\<lparr> ub := Some e \<rparr> else wld s \<rparr>)"
  by (simp add: fault_app_def fault_io_def value_of_def)

text \<open>Requests an operation adds to the trace.\<close>

definition requests :: "'a app \<Rightarrow> App \<Rightarrow> request list" where
  "requests m s = map fst (drop (length (trace (wld s))) (trace (wld (snd (run_state m s)))))"

lemma client_send_connected:
  assumes "queue_inv 1400 (tx_queue (client s))" "is_connected (client s)"
    and "length (contents (tx_queue (client s))) < 63" "len \<le> length data" "len \<le> 1400"
  shows "\<exists>q. run_state (client_send data len) s = (0, s\<lparr> client := (client s)\<lparr> tx_queue := q \<rparr> \<rparr>) \<and>
           queue_inv 1400 q \<and> contents q = contents (tx_queue (client s)) @ [take len data]"
  using assms enqueue_accept [OF assms(1), of len data]
  by (auto simp: client_send_def tcp_client_send_def)

lemma client_send_disconnected:
  "\<not> is_connected (client s) \<Longrightarrow> run_state (client_send data len) s = (0, s\<lparr> client := client s \<rparr>)"
  by (simp add: client_send_def tcp_client_send_def)

text \<open>A context as \<open>main\<close> leaves it, with both links up and a trivial environment, for examples.\<close>

definition quiet_world :: world where
  "quiet_world = \<lparr> env = \<lambda>_ _. \<lparr> rc = 0, vl = 0, out = [] \<rparr>, localtime = \<lambda>_. tm_example, trace = [], ub = None \<rparr>"

definition info_example :: DevBaseInfo where
  "info_example = \<lparr> dev_addr = 2002, cloud_ip = ''10.0.0.1'', cloud_port = 3901, cpu_sw = 35, cpu_hw = 2,
     ad_sw = 80, ad_hw = 10, ctrl_sw = 80, ctrl_hw = 2, net_sw = 90, net_hw = 1, up_time = ''2025-05-12 15:00:00'' \<rparr>"

definition app_example :: App where
  "app_example = \<lparr> wld = quiet_world, cloud_set = True, client = cl tcp_up,
     event_queue = queue_example, fkz9_set = True, mqtt_client = mqtt_example,
     fkz9_queue = snd (init_queue cleared_queue 1400), is_init = False, is_running = True,
     base_info = info_example, sim_id = ''89860000000000000000'' \<rparr>"

lemma app_example_simps [simp]:
  "wld app_example = quiet_world" "cloud_set app_example" "client app_example = cl tcp_up"
  "event_queue app_example = queue_example" "fkz9_set app_example" "mqtt_client app_example = mqtt_example"
  "\<not> is_init app_example" "is_running app_example" "base_info app_example = info_example"
  by (simp_all add: app_example_def)

lemma quiet_world_simps [simp]:
  "env quiet_world tr r = \<lparr> rc = 0, vl = 0, out = [] \<rparr>" "localtime quiet_world t = tm_example"
  "trace quiet_world = []" "ub quiet_world = None"
  by (simp_all add: quiet_world_def)

lemma tcp_up_facts:
  "is_connected (cl tcp_up)" "queue_inv 1400 (tx_queue (cl tcp_up))" "contents (tx_queue (cl tcp_up)) = []"
  using tcp_up_inv tcp_up_empty by (simp_all add: tcp_inv_def tcp_up_eq)

end
