(* ===== verification/Fkz9Comm.thy ===== *)
theory Fkz9Comm
  imports Context
begin

text \<open>
  \<open>services/fkz9_comm.c\<close>: the link to the FKZ9 unit. Frames that arrive over MQTT are
  queued, checked and forwarded to the cloud (or, when a payload holds several, cut in pieces and
  sent on directly); commands from the cloud are published to MQTT topics; a heartbeat is published
  every three seconds, and the first answer to it makes the terminal report its device information.
\<close>

definition sizeof_MsgFramHdr :: nat where "sizeof_MsgFramHdr = 5"

text \<open>A date or time field: the low byte of the \<open>int\<close>, in BCD.\<close>

definition year_bcd :: "CustomTime \<Rightarrow> u8" where
  "year_bcd t = byte_to_bcd (word_of_int (uint (usYear t) - 2000))"

subsection \<open>Frames to the cloud\<close>

text \<open>\<open>DevInfoDataSeg\<close>: the fields the code does not assign keep the 0xFF of the buffer.\<close>

definition DevInfoDataSeg :: "DevBaseInfo \<Rightarrow> string \<Rightarrow> bytes" where
  "DevInfoDataSeg b sim =
     le16 (db_to_bcd (dev_addr b)) @ [cpu_sw b, cpu_hw b, 0xFF, 0xFF, 0xFF, 0xFF] @
     take 20 (map of_char (c_str sim) @ replicate 20 0) @
     [ctrl_sw b, ctrl_hw b] @ replicate 10 0xFF @
     [net_sw b, net_hw b, ad_sw b, ad_hw b] @ [0xFF, 0xFF, 0xFF, 0xFF, 0, 0]"

definition func_dev_info_resp :: "unit app" where
  "func_dev_info_resp = do {
     b \<leftarrow> gets base_info;
     sim \<leftarrow> gets sim_id;
     let buf = frame_in (replicate 128 0xFF) TCP_MSG_SIGN_DEV_INFO_RESP (DevInfoDataSeg b sim)
     in do { gp_cloud_send buf (length buf); pure () } }"

definition fkz9_heartbeat_resp_entry :: "bytes \<Rightarrow> int app" where
  "fkz9_heartbeat_resp_entry arg = do {
     ok \<leftarrow> gets fkz9_set;
     if \<not> ok then do { fault_app NullDeref; pure (-1) }
     else do {
       i \<leftarrow> gets is_init;
       (if \<not> i then do { func_dev_info_resp; modify (\<lambda>s. s\<lparr> is_init := True \<rparr>) } else pure ());
       pure 0 } }"

definition fkz9_msg_fw_to_cloud_entry :: "bytes \<Rightarrow> int app" where
  "fkz9_msg_fw_to_cloud_entry arg = do { gp_cloud_send arg (frame_len arg); pure 0 }"

subsection \<open>Commands from the cloud\<close>

definition cloud_topic :: "DevBaseInfo \<Rightarrow> string \<Rightarrow> u8 \<Rightarrow> string" where
  "cloud_topic b part sign =
     snprintf 50 (''fkz9/'' @ dec0 4 (unat (dev_addr b)) @ ''/4G/'' @ part @ ''/'' @ hex02 sign)"

definition publish_frame :: "string \<Rightarrow> bytes \<Rightarrow> int app" where
  "publish_frame part arg = do {
     ok \<leftarrow> gets fkz9_set;
     if \<not> ok then do { fault_app NullDeref; pure (-1) }
     else do {
       b \<leftarrow> gets base_info;
       publish (cloud_topic b part (ucSign (MsgFramHdr_at arg))) arg (frame_len arg);
       pure 0 } }"

definition cloud_to_can_entry :: "bytes \<Rightarrow> int app" where
  "cloud_to_can_entry arg = publish_frame ''can'' arg"

definition cloud_to_conf_entry :: "bytes \<Rightarrow> int app" where
  "cloud_to_conf_entry arg = publish_frame ''conf'' arg"

definition cloud_to_algorithms_entry :: "bytes \<Rightarrow> int app" where
  "cloud_to_algorithms_entry arg = publish_frame ''algorithms'' arg"

text \<open>The entries this file adds to the section \<open>message_processing\<close>, in order; no callbacks.\<close>

definition fkz9_message_table :: "(u8 \<times> (bytes \<Rightarrow> int app)) list" where
  "fkz9_message_table =
     [(145, cloud_to_can_entry), (114, cloud_to_conf_entry), (89, cloud_to_conf_entry),
      (130, cloud_to_conf_entry), (132, cloud_to_can_entry), (135, cloud_to_can_entry),
      (147, cloud_to_conf_entry), (156, cloud_to_can_entry), (158, cloud_to_can_entry),
      (108, cloud_to_algorithms_entry), (110, cloud_to_algorithms_entry)]"

subsection \<open>Messages from the unit\<close>

text \<open>
  The loop that sends a payload in pieces of \<open>len\<close> bytes. A send that fails is repeated after a
  pause, in which the other threads change the client: \<open>others\<close>. \<open>None\<close>: still running after
  \<open>fuel\<close> turns.
\<close>

fun send_pieces :: "(TcpClient \<Rightarrow> TcpClient) \<Rightarrow> nat \<Rightarrow> bytes \<Rightarrow> nat \<Rightarrow> nat \<Rightarrow> TcpClient \<Rightarrow> TcpClient outcome option" where
  "send_pieces others 0 payload len index c = None"
| "send_pieces others (Suc fuel) payload len index c =
     (case tcp_client_send c (drop index payload) len of
        Inl e \<Rightarrow> Some (Inl e)
      | Inr (r, c') \<Rightarrow>
          if r \<noteq> 0 then send_pieces others fuel payload len index (others c')
          else if index + len < length payload then send_pieces others fuel payload len (index + len) c'
          else Some (Inr c'))"

datatype msg_route = Ignored | Pieces nat | Queued

text \<open>Where a payload goes; reading its header needs five bytes.\<close>

definition route_message :: "bytes \<Rightarrow> msg_route outcome" where
  "route_message payload =
     (if length payload < sizeof_MsgFramHdr then Inl OutOfBounds
      else Inr (if ucSign (MsgFramHdr_at payload) = MQTT_MSG_SIGN_HEARTBEAT_REQ then Ignored
                else if frame_len payload \<noteq> length payload then Pieces (frame_len payload) else Queued))"

text \<open>\<open>None\<close>: the callback has not returned after \<open>fuel\<close> sends.\<close>

definition on_message_cb :: "(TcpClient \<Rightarrow> TcpClient) \<Rightarrow> nat \<Rightarrow> bytes \<Rightarrow> App \<Rightarrow> App option" where
  "on_message_cb others fuel payload s =
     (case route_message payload of
        Inl e \<Rightarrow> Some (snd (run_state (fault_app e) s))
      | Inr Ignored \<Rightarrow> Some s
      | Inr (Pieces len) \<Rightarrow>
          (if \<not> cloud_set s then Some (snd (run_state (fault_app NullDeref) s))
           else case send_pieces others fuel payload len 0 (client s) of
               None \<Rightarrow> None
             | Some (Inl e) \<Rightarrow> Some (snd (run_state (fault_app e) s))
             | Some (Inr c) \<Rightarrow> Some (s\<lparr> client := c \<rparr>))
      | Inr Queued \<Rightarrow>
          (if \<not> fkz9_set s then Some (snd (run_state (fault_app NullDeref) s))
           else case enqueue (fkz9_queue s) payload (length payload) of
               Inl e \<Rightarrow> Some (snd (run_state (fault_app e) s))
             | Inr (_, q) \<Rightarrow> Some (s\<lparr> fkz9_queue := q \<rparr>)))"

text \<open>One turn of \<open>fkz9_event_task_entry\<close>; \<open>buf\<close> is its local buffer of 1500 bytes.\<close>

definition fkz9_event_turn :: "bytes \<Rightarrow> bytes app" where
  "fkz9_event_turn buf = do {
     q \<leftarrow> gets fkz9_queue;
     case dequeue q buf 0 of
       Inl e \<Rightarrow> do { fault_app e; pure buf }
     | Inr (r, buf', len, q') \<Rightarrow>
         if r \<noteq> 0 then pure buf
         else do {
           modify (\<lambda>s. s\<lparr> fkz9_queue := q' \<rparr>);
           case fkz9_check buf' of
             Inl e \<Rightarrow> do { fault_app e; pure buf' }
           | Inr False \<Rightarrow> pure buf'
           | Inr True \<Rightarrow> do {
               (if ucSign (MsgFramHdr_at buf') = MQTT_MSG_SIGN_HEARTBEAT_RESP
                then fkz9_heartbeat_resp_entry buf' else fkz9_msg_fw_to_cloud_entry buf');
               pure buf' } } }"

subsection \<open>Heartbeat\<close>

definition HeartBeatDataSeg :: "DevBaseInfo \<Rightarrow> CustomTime \<Rightarrow> bytes" where
  "HeartBeatDataSeg b t =
     le16 (db_to_bcd (dev_addr b)) @
     [year_bcd t, byte_to_bcd (ucMonth t), byte_to_bcd (ucDay t), byte_to_bcd (ucHour t),
      byte_to_bcd (ucHour t), byte_to_bcd (ucSecond t)] @ replicate 9 0"

definition heartbeat_req_task_cb :: "unit app" where
  "heartbeat_req_task_cb = do {
     b \<leftarrow> gets base_info;
     t \<leftarrow> io read_clock;
     let buf = frame_in (replicate 100 0) MQTT_MSG_SIGN_HEARTBEAT_REQ (HeartBeatDataSeg b t)
     in do { publish (snprintf 50 (''fkz9/'' @ dec0 4 (unat (dev_addr b)) @ ''/5G/4G/15'')) buf (length buf);
             pure () } }"

subsection \<open>Start and stop\<close>

text \<open>\<open>fkz9_timer_task_entry\<close> once the client is connected: the two subscriptions.\<close>

definition fkz9_subscribe :: "unit app" where
  "fkz9_subscribe = do {
     b \<leftarrow> gets base_info;
     c \<leftarrow> gets mqtt_client;
     io (mqtt_subscribe c (snprintf 128 (''fkz9/'' @ dec0 4 (unat (dev_addr b)) @ ''/+/4G/#'')));
     io (mqtt_subscribe c (snprintf 128 (''fkz9/'' @ dec0 4 (unat (dev_addr b)) @ ''/+/5G/#'')));
     pure () }"

definition fkz9_config :: AsyncClientConfig where
  "fkz9_config = \<lparr> address = ''tcp://192.168.42.50:1883'', client_id = ''RT-A100'', user_name = ''cktt'',
     password = ''cktt'', qos = QOS, keep_alive = KEEP_ALIVE_TIME, clean_session = 0 \<rparr>"

text \<open>
  \<open>client_config\<close> is a local variable of \<open>fkz9_comm_init\<close>: when the function returns, the
  pointer the client keeps is dangling.
\<close>

definition fkz9_comm_init :: "unit app" where
  "fkz9_comm_init = do {
     m \<leftarrow> io (mqtt_client_create fkz9_config);
     case m of None \<Rightarrow> pure ()
     | Some c \<Rightarrow> do {
         io (mqtt_connect (Some (mqtt_register_cb c)));
         modify (\<lambda>s. s\<lparr> mqtt_client := (mqtt_register_cb c)\<lparr> config := None \<rparr>,
                       fkz9_queue := snd (init_queue (fkz9_queue s) 1400),
                       is_running := True, is_init := False, fkz9_set := True \<rparr>) } }"

definition fkz9_comm_uninit :: "unit app" where
  "fkz9_comm_uninit = do {
     r \<leftarrow> gets is_running;
     if \<not> r then pure ()
     else do {
       modify (\<lambda>s. s\<lparr> is_running := False, is_init := False \<rparr>);
       c \<leftarrow> gets mqtt_client;
       io (mqtt_client_destroy (Some c));
       q \<leftarrow> gets fkz9_queue;
       (case clean_queue q of Inl e \<Rightarrow> fault_app e | Inr (_, q') \<Rightarrow> modify (\<lambda>s. s\<lparr> fkz9_queue := q' \<rparr>));
       modify (\<lambda>s. s\<lparr> fkz9_set := False \<rparr>) } }"

subsection \<open>Forwarding\<close>

lemma dequeue_put_back:
  assumes "queue_inv 1400 q" "contents q = m # ms" "length buf = 1500"
  obtains q' where "dequeue q buf n = Inr (0, m @ drop (length m) buf, length m, q')"
    "queue_inv 1400 q'" "contents q' = ms"
  using dequeue_first [OF assms(1,2), of buf n] assms(3) by auto

lemma frame_len_at [simp]: "length payload < 65529 \<Longrightarrow> frame_len (frame sign payload) = 7 + length payload"
  using frame_len_frame [of payload sign "[]"] by simp

lemma frame_sign_at [simp]: "ucSign (MsgFramHdr_at (frame sign payload @ rest)) = sign"
  "ucSign (MsgFramHdr_at (frame sign payload)) = sign"
  using frame_hdr [of sign payload "[]"] by simp_all


definition fkz9_frame_app :: "bytes \<Rightarrow> App" where
  "fkz9_frame_app m = app_example\<lparr> fkz9_queue :=
     (case queue_put (fkz9_queue app_example) m of Inr (_, q) \<Rightarrow> q | Inl _ \<Rightarrow> fkz9_queue app_example) \<rparr>"

lemma fkz9_frame_app:
  assumes "length m \<le> 1400"
  shows "queue_inv 1400 (fkz9_queue (fkz9_frame_app m))" "contents (fkz9_queue (fkz9_frame_app m)) = [m]"
proof -
  have q: "queue_inv 1400 (fkz9_queue app_example)" "contents (fkz9_queue app_example) = []"
    using init_queue_inv [of cleared_queue 1400] by (simp_all add: app_example_def cleared_queue_def)
  from ring.enq_accept [OF q(1) assms] q(2) obtain q' where
    "queue_put (fkz9_queue app_example) m = Inr (0, q')" "queue_inv 1400 q'" "contents q' = [m]" by auto
  then show "queue_inv 1400 (fkz9_queue (fkz9_frame_app m))" "contents (fkz9_queue (fkz9_frame_app m)) = [m]"
    by (simp_all add: fkz9_frame_app_def)
qed


subsection \<open>Commands\<close>

lemma length_cloud_topic:
  assumes "length part \<le> 10"
  shows "cloud_topic b part sign = ''fkz9/'' @ dec0 4 (unat (dev_addr b)) @ ''/4G/'' @ part @ ''/'' @ hex02 sign"
proof -
  have "length (dec0 4 (unat (dev_addr b))) \<le> 5"
    using length_dec_u16 [of "unat (dev_addr b)"] by (simp add: length_dec0)
  then show ?thesis using assms by (simp add: cloud_topic_def hex02_def)
qed

definition link_up :: "App \<Rightarrow> AsyncClientConfig \<Rightarrow> bool" where
  "link_up s cfg \<longleftrightarrow> ub (wld s) = None \<and> fkz9_set s \<and> config (mqtt_client s) = Some cfg \<and> is_conn (mqtt_client s)"

lemma requests_publish_frame:
  assumes "link_up s cfg" "length payload \<le> 1393"
  shows "requests (publish_frame part (frame sign payload @ rest)) s =
     [Mqtt (MqttSend (handle (mqtt_client s)) (cloud_topic (base_info s) part sign)
        (frame sign payload) (qos cfg) True)]"
  using assms
  by (simp add: requests_def publish_frame_def link_up_def publish_def mqtt_publish_def check_io_def
      del: length_frame) (simp add: value_of_def)

lemmas command_entries = cloud_to_can_entry_def cloud_to_conf_entry_def cloud_to_algorithms_entry_def

text \<open>
  Every cloud command registered by this file is published unchanged, once, retained, on the
  topic \<open>fkz9/<address>/4G/<part>/<sign in hex>\<close> of its part (\<open>can\<close>, \<open>conf\<close> or
  \<open>algorithms\<close>), whatever bytes follow the frame in the receive buffer.
\<close>

theorem commands_published:
  assumes "(sign, entry) \<in> set fkz9_message_table" "link_up s cfg" "length payload \<le> 1393"
  shows "\<exists>part \<in> {''can'', ''conf'', ''algorithms''}.
     requests (entry (frame sign payload @ rest)) s =
       [Mqtt (MqttSend (handle (mqtt_client s))
          (''fkz9/'' @ dec0 4 (unat (dev_addr (base_info s))) @ ''/4G/'' @ part @ ''/'' @ hex02 sign)
          (frame sign payload) (qos cfg) True)]"
proof -
  from assms(1) obtain part where "part \<in> {''can'', ''conf'', ''algorithms''}" "entry = publish_frame part"
    by (auto simp: fkz9_message_table_def command_entries fun_eq_iff)
  moreover from this(1) have "length part \<le> 10" by auto
  ultimately show ?thesis
    using requests_publish_frame [OF assms(2,3), of part sign rest]
      length_cloud_topic [of part "base_info s" sign] by metis
qed

lemma link_up_example: "link_up app_example fkz9_config"
  by (simp add: link_up_def mqtt_example_def fkz9_config_def)

theorem commands_published_witness:
  "\<exists>part \<in> {''can'', ''conf'', ''algorithms''}.
     requests (cloud_to_conf_entry (frame 114 [1, 2, 3] @ [0])) app_example =
       [Mqtt (MqttSend 0 (''fkz9/'' @ dec0 4 2002 @ ''/4G/'' @ part @ ''/'' @ hex02 114) (frame 114 [1, 2, 3]) QOS True)]"
  using commands_published [OF _ link_up_example, of 114 cloud_to_conf_entry "[1, 2, 3]" "[0]"]
  by (simp add: fkz9_message_table_def info_example_def mqtt_example_def fkz9_config_def)

subsection \<open>Heartbeat and device information\<close>

lemma length_HeartBeatDataSeg [simp]: "length (HeartBeatDataSeg b t) = 17"
  by (simp add: HeartBeatDataSeg_def)

lemma length_DevInfoDataSeg [simp]: "length (DevInfoDataSeg b sim) = 50"
  by (simp add: DevInfoDataSeg_def)

lemma year_bcd_value: "valid_tm t \<Longrightarrow> bcd_to_byte (year_bcd (get_system_time t)) = tm_year t - 100"
  by (simp add: year_bcd_def get_system_time_fields bcd_of_int valid_tm_def del: of_int_diff)

lemma hb_nth:
  "length payload = n \<Longrightarrow> i < n \<Longrightarrow> j = 5 + i \<Longrightarrow> frame sign payload ! j = payload ! i"
  using nth_frame [of i payload sign] by simp

text \<open>
  C28: The heartbeat is one message on the unit's topic: a frame of 24 bytes that the receivers'
  check accepts, whose BCD fields are the device address and the local year, month, day, hour and
  second, while the minute field carries the hour again.
\<close>

theorem heartbeat_message:
  assumes "link_up s cfg" "unat (dev_addr (base_info s)) < 16000"
    and "t = localtime (wld s) (vl (env (wld s) (trace (wld s)) (Sys LocalTime)))" "valid_tm t"
  shows "\<exists>f. requests heartbeat_req_task_cb s =
       [Sys LocalTime, Mqtt (MqttSend (handle (mqtt_client s))
          (''fkz9/'' @ dec0 4 (unat (dev_addr (base_info s))) @ ''/5G/4G/15'') f (qos cfg) True)] \<and>
     length f = 24 \<and> cloud_check f = Inr True \<and> ucSign (MsgFramHdr_at f) = MQTT_MSG_SIGN_HEARTBEAT_REQ \<and>
     bcd_to_db (of_le16 (f ! 5) (f ! 6)) = int (unat (dev_addr (base_info s))) \<and>
     bcd_to_byte (f ! 7) = tm_year t - 100 \<and> bcd_to_byte (f ! 8) = tm_mon t + 1 \<and>
     bcd_to_byte (f ! 9) = tm_mday t \<and> bcd_to_byte (f ! 10) = tm_hour t \<and>
     bcd_to_byte (f ! 11) = tm_hour t \<and> bcd_to_byte (f ! 12) = tm_sec t"
proof -
  let ?b = "base_info s"
  let ?p = "HeartBeatDataSeg ?b (get_system_time t)"
  let ?f = "frame MQTT_MSG_SIGN_HEARTBEAT_REQ ?p"
  have addr: "length (dec0 4 (unat (dev_addr ?b))) \<le> 5"
    using length_dec_u16 [of "unat (dev_addr ?b)"] by (simp add: length_dec0)
  have "frame_in (replicate 100 0) MQTT_MSG_SIGN_HEARTBEAT_REQ ?p = ?f"
    by (rule frame_in_frame) simp
  then have req: "requests heartbeat_req_task_cb s =
       [Sys LocalTime, Mqtt (MqttSend (handle (mqtt_client s))
          (''fkz9/'' @ dec0 4 (unat (dev_addr ?b)) @ ''/5G/4G/15'') ?f (qos cfg) True)]"
    using assms(1,3) addr
    by (simp add: requests_def heartbeat_req_task_cb_def publish_def mqtt_publish_def link_up_def
        value_of_def check_io_def Let_def)
  have chk: "cloud_check ?f = Inr True"
    using frame_checks [of ?p MQTT_MSG_SIGN_HEARTBEAT_REQ "[]"] by simp
  have nth: "?f ! (5 + i) = ?p ! i" if "i < 17" for i
    using that by (intro nth_frame) simp
  have p: "?p = [ucast (db_to_bcd (dev_addr ?b)), ucast (drop_bit 8 (db_to_bcd (dev_addr ?b))),
      year_bcd (get_system_time t), byte_to_bcd (ucMonth (get_system_time t)),
      byte_to_bcd (ucDay (get_system_time t)), byte_to_bcd (ucHour (get_system_time t)),
      byte_to_bcd (ucHour (get_system_time t)), byte_to_bcd (ucSecond (get_system_time t))] @ replicate 9 0"
    by (simp add: HeartBeatDataSeg_def le16_def)
  show ?thesis
    using req chk nth [of 0] nth [of 1] nth [of 2] nth [of 3] nth [of 4] nth [of 5] nth [of 6] nth [of 7]
      bcd_db_id [of "dev_addr ?b"] assms(2) get_system_time_fields [OF assms(4)] year_bcd_value [OF assms(4)]
    by (intro exI [of _ ?f]) (simp add: p)
qed

theorem heartbeat_message_witness:
  "\<exists>f. requests heartbeat_req_task_cb app_example =
     [Sys LocalTime, Mqtt (MqttSend 0 (''fkz9/'' @ dec0 4 2002 @ ''/5G/4G/15'') f QOS True)]
     \<and> bcd_to_byte (f ! 10) = 15 \<and> bcd_to_byte (f ! 11) = 15"
  using heartbeat_message [OF link_up_example, of tm_example]
  by (auto simp: info_example_def mqtt_example_def fkz9_config_def tm_example_def valid_tm_def)

text \<open>\<open>n\<close> heartbeat answers handled one after the other.\<close>

fun heartbeat_answers :: "nat \<Rightarrow> bytes \<Rightarrow> unit app" where
  "heartbeat_answers 0 f = pure ()"
| "heartbeat_answers (Suc n) f = do { fkz9_heartbeat_resp_entry f; heartbeat_answers n f }"

lemma heartbeat_answers_later: "is_init s \<Longrightarrow> fkz9_set s \<Longrightarrow> run_state (heartbeat_answers n f) s = ((), s)"
  by (induction n) (simp_all add: fkz9_heartbeat_resp_entry_def)

text \<open>
  However many heartbeat answers arrive, the device information is sent to the cloud once, at the
  first of them, as a frame of 57 bytes; when the cloud link is down at that moment it is not sent,
  and never again.
\<close>

theorem device_info_once:
  assumes "fkz9_set s" "cloud_set s" "\<not> is_init s" "queue_inv 1400 (tx_queue (client s))"
    and "length (contents (tx_queue (client s))) < 63" "0 < n"
  shows "let s' = snd (run_state (heartbeat_answers n f) s)
         in is_init s' \<and> app_ub s' = app_ub s \<and>
            contents (tx_queue (client s')) = contents (tx_queue (client s)) @
              (if is_connected (client s)
               then [frame TCP_MSG_SIGN_DEV_INFO_RESP (DevInfoDataSeg (base_info s) (sim_id s))] else [])"
proof -
  let ?f = "frame TCP_MSG_SIGN_DEV_INFO_RESP (DevInfoDataSeg (base_info s) (sim_id s))"
  from assms(6) obtain k where n: "n = Suc k" by (cases n) auto
  have buf: "frame_in (replicate 128 0xFF) TCP_MSG_SIGN_DEV_INFO_RESP (DevInfoDataSeg (base_info s) (sim_id s)) = ?f"
    by (rule frame_in_frame) simp
  show ?thesis
  proof (cases "is_connected (client s)")
    case True
    obtain q where q: "run_state (client_send ?f 57) s = (0, s\<lparr> client := (client s)\<lparr> tx_queue := q \<rparr> \<rparr>)"
      "contents q = contents (tx_queue (client s)) @ [?f]"
      using client_send_connected [OF assms(4) True assms(5), of 57 ?f] by auto
    have "snd (run_state (heartbeat_answers n f) s) =
        s\<lparr> client := (client s)\<lparr> tx_queue := q \<rparr>, is_init := True \<rparr>"
      using assms q(1) by (simp add: n fkz9_heartbeat_resp_entry_def func_dev_info_resp_def buf Let_def
          gp_cloud_send_def heartbeat_answers_later)
    with True q(2) show ?thesis by (simp add: Let_def app_ub_def)
  next
    case False
    have "snd (run_state (heartbeat_answers n f) s) = s\<lparr> client := client s, is_init := True \<rparr>"
      using assms False by (simp add: n fkz9_heartbeat_resp_entry_def func_dev_info_resp_def buf Let_def
          gp_cloud_send_def heartbeat_answers_later client_send_disconnected)
    with False show ?thesis by (simp add: Let_def app_ub_def)
  qed
qed

theorem device_info_once_witness:
  "contents (tx_queue (client (snd (run_state (heartbeat_answers 3 []) app_example)))) =
     [frame TCP_MSG_SIGN_DEV_INFO_RESP (DevInfoDataSeg info_example (sim_id app_example))]"
  using device_info_once [of app_example 3 "[]"] tcp_up_facts
  by (simp add: Let_def flip: length_contents)

subsection \<open>Payloads sent on in pieces\<close>

lemma send_connected:
  assumes "queue_inv 1400 (tx_queue c)" "is_connected c" "length (contents (tx_queue c)) < 63"
    and "len \<le> length data" "len \<le> 1400"
  shows "\<exists>q. tcp_client_send c data len = Inr (0, c\<lparr> tx_queue := q \<rparr>) \<and> queue_inv 1400 q \<and>
           contents q = contents (tx_queue c) @ [take len data]"
  using assms enqueue_accept [OF assms(1), of len data] by (auto simp: tcp_client_send_def)

lemma send_pieces_room:
  assumes "fs \<noteq> []" "\<forall>f \<in> set fs. length f = len" "0 < len" "len \<le> 1400"
    and "queue_inv 1400 (tx_queue c)" "is_connected c" "length (contents (tx_queue c)) + length fs \<le> 63"
    and "length pre = index" "length fs \<le> fuel"
  shows "\<exists>q. send_pieces others fuel (pre @ concat fs) len index c = Some (Inr (c\<lparr> tx_queue := q \<rparr>)) \<and>
           queue_inv 1400 q \<and> contents q = contents (tx_queue c) @ fs"
  using assms
proof (induction fs arbitrary: pre index c fuel)
  case Nil
  then show ?case by simp
next
  case (Cons f fs)
  then obtain k where k: "fuel = Suc k" by (cases fuel) auto
  from Cons.prems have "length (contents (tx_queue c)) < 63" "len \<le> length (f @ concat fs)" by auto
  from send_connected [OF Cons.prems(5,6) this Cons.prems(4)] Cons.prems(2) obtain q where
    q: "tcp_client_send c (f @ concat fs) len = Inr (0, c\<lparr> tx_queue := q \<rparr>)" "queue_inv 1400 q"
      "contents q = contents (tx_queue c) @ [f]" by auto
  show ?case
  proof (cases "fs = []")
    case True
    with k q Cons.prems show ?thesis by auto
  next
    case False
    then obtain g gs where g: "fs = g # gs" by (cases fs) auto
    have more: "index + len < length (pre @ concat (f # fs))" using Cons.prems g by simp
    have qf: "length (contents q) = Suc (length (contents (tx_queue c)))" using q(3) by simp
    have "\<exists>q'. send_pieces others k ((pre @ f) @ concat fs) len (index + len) (c\<lparr> tx_queue := q \<rparr>) =
        Some (Inr (c\<lparr> tx_queue := q, tx_queue := q' \<rparr>)) \<and> queue_inv 1400 q' \<and>
        contents q' = contents (tx_queue (c\<lparr> tx_queue := q \<rparr>)) @ fs"
      using Cons.prems q(2) qf False k by (intro Cons.IH) auto
    with k q more Cons.prems show ?thesis by auto
  qed
qed

text \<open>
  A payload made of several frames of equal length, each at most 1400 bytes, is cut by the length
  in its first header and sent on frame by frame, in order, when the connection is up and the transmit
  queue has room for them; as many sends as frames are enough, so the callback returns.
\<close>

theorem pieces_forwarded:
  assumes "fs \<noteq> []" "\<forall>f \<in> set fs. length f = len" "0 < len" "len \<le> 1400"
    and "queue_inv 1400 (tx_queue c)" "is_connected c" "length (contents (tx_queue c)) + length fs \<le> 63"
  shows "\<exists>q. send_pieces others (length fs) (concat fs) len 0 c = Some (Inr (c\<lparr> tx_queue := q \<rparr>)) \<and>
           contents q = contents (tx_queue c) @ fs"
  using send_pieces_room [OF assms, of "[]" 0 "length fs" others] by auto

theorem pieces_forwarded_witness:
  "\<exists>q. send_pieces id 2 [1, 2, 3, 4] 2 0 (cl tcp_up) = Some (Inr ((cl tcp_up)\<lparr> tx_queue := q \<rparr>)) \<and>
     contents q = [[1, 2], [3, 4]]"
  using pieces_forwarded [of "[[1, 2], [3, 4]]" 2 "cl tcp_up" id] tcp_up_facts
  by (simp add: numeral_2_eq_2 flip: length_contents)

text \<open>
  C34: The callback never returns when the length field of a several-frame payload is 0 and the link
  is down, nor, whatever the length, when the transmit queue is full and nothing drains it: no number
  of sends is enough. A payload shorter than the announced length is read past its end.
\<close>

theorem pieces_stuck_or_overread:
  shows "(\<not> is_connected c \<and> payload \<noteq> [] \<longrightarrow> send_pieces others fuel payload 0 0 c = None) \<and>
         (is_connected c \<and> queue_inv 1400 (tx_queue c) \<and> length (contents (tx_queue c)) = 63 \<longrightarrow>
            send_pieces id fuel payload len index c = None) \<and>
         (is_connected c \<and> queue_inv 1400 (tx_queue c) \<and> length (contents (tx_queue c)) < 63 \<and>
          length payload < len \<and> 0 < fuel \<longrightarrow> send_pieces others fuel payload len 0 c = Some (Inl OutOfBounds))"
proof (intro conjI impI)
  assume "\<not> is_connected c \<and> payload \<noteq> []"
  then show "send_pieces others fuel payload 0 0 c = None"
    by (induction fuel) (simp_all add: tcp_client_send_def)
next
  assume "is_connected c \<and> queue_inv 1400 (tx_queue c) \<and> length (contents (tx_queue c)) = 63"
  then have "tcp_client_send c d len = Inr (-1, c)" for d
    using enqueue_full [of 1400 "tx_queue c" d len] by (simp add: tcp_client_send_def)
  then show "send_pieces id fuel payload len index c = None"
    by (induction fuel) simp_all
next
  assume a: "is_connected c \<and> queue_inv 1400 (tx_queue c) \<and> length (contents (tx_queue c)) < 63 \<and>
      length payload < len \<and> 0 < fuel"
  then have hd: "head (tx_queue c) < MAX_SEGMENTS" and inv: "queue_inv 1400 (tx_queue c)"
    by (simp_all add: queue_inv_def)
  from buffer_Some [OF inv hd] obtain b where "buffers (tx_queue c) ! head (tx_queue c) = Some b" by blast
  moreover have "Suc (head (tx_queue c)) mod MAX_SEGMENTS \<noteq> tail (tx_queue c)"
    using full_iff [OF inv] a by simp
  ultimately have "tcp_client_send c payload len = Inl OutOfBounds"
    using a by (simp add: tcp_client_send_def enqueue_def Let_def c_memcpy_def)
  with a show "send_pieces others fuel payload len 0 c = Some (Inl OutOfBounds)" by (cases fuel) auto
qed

theorem pieces_stuck_or_overread_witness:
  "send_pieces id 1 [0xAA, 0xAA, 0, 100, 0x30] 100 0 (cl tcp_up) = Some (Inl OutOfBounds)"
  using pieces_stuck_or_overread [of "cl tcp_up" "[0xAA, 0xAA, 0, 100, 0x30]" id 1 100 0] tcp_up_facts
  by (simp flip: length_contents)

subsection \<open>The configuration after start\<close>

text \<open>
  After \<open>fkz9_comm_init\<close> has created the client, its configuration is a variable of a function
  that has returned: the first subscription, heartbeat or forwarded command reads a dangling pointer.
\<close>

theorem fkz9_init_dangling_config:
  assumes "ub (wld s) = None" "(Mqtt (MqttSetCallbacks h), a) \<in> set (events (mqtt_client_create fkz9_config) (wld s))"
    and "rc a = 0"
  shows "let s' = snd (run_state fkz9_comm_init s)
         in fkz9_set s' \<and> app_ub s' = None \<and>
            app_ub (snd (run_state fkz9_subscribe s')) = Some UseAfterFree \<and>
            app_ub (snd (run_state heartbeat_req_task_cb s')) = Some UseAfterFree \<and>
            app_ub (snd (run_state (cloud_to_can_entry f) s')) = Some UseAfterFree"
  using assms unfolding events_def
  by (auto simp: fkz9_comm_init_def mqtt_client_create_def mqtt_client_destroy_def mqtt_connect_def
      mqtt_register_cb_def fkz9_subscribe_def heartbeat_req_task_cb_def cloud_to_can_entry_def
      publish_frame_def publish_def mqtt_publish_def mqtt_subscribe_def app_ub_def fault_io_def
      value_of_def Let_def split: if_splits)

theorem fkz9_init_dangling_config_witness:
  "app_ub (snd (run_state heartbeat_req_task_cb (snd (run_state fkz9_comm_init app_example)))) = Some UseAfterFree"
  using fkz9_init_dangling_config [of app_example 0 "\<lparr> rc = 0, vl = 0, out = [] \<rparr>"]
  unfolding events_def
  by (simp add: mqtt_client_create_def Let_def)

end
