(* ===== verification/SshClient.thy ===== *)
theory SshClient
  imports Shell
begin

text \<open>
  \<open>net/ssh_client.c\<close>: one SSH session with an SFTP channel to the FKZ9 unit. libssh refuses a
  null session in every call used here, which is the \<open>None\<close> case. A remote command's
  output arrives in blocks and is concatenated into the caller's buffer.
\<close>

record SSHClient =
  host :: string
  username :: string
  password :: string
  session :: "nat option"
  sftp :: "nat option"

definition SSHClient_Init :: "string \<Rightarrow> string \<Rightarrow> string \<Rightarrow> SSHClient io" where
  "SSHClient_Init h u p = do {
     s \<leftarrow> call_handle (Ssh SshNew);
     ret \<lparr> host = h, username = u, password = p, session = s, sftp = None \<rparr> }"

definition SSHClient_Connect :: "SSHClient \<Rightarrow> (int \<times> SSHClient) io" where
  "SSHClient_Connect c =
     (case session c of
        None \<Rightarrow> ret (-1, c)
      | Some s \<Rightarrow> do {
          a \<leftarrow> call (Ssh (SshConnect s (host c) (username c)));
          if rc a \<noteq> 0 then ret (-1, c)
          else do {
            b \<leftarrow> call (Ssh (SshAuth s (password c)));
            if rc b \<noteq> 0 then do { tell (Ssh (SshDisconnect s)); ret (-1, c) }
            else do {
              f \<leftarrow> call_handle (Sftp (SftpNew s));
              case f of
                None \<Rightarrow> do { tell (Ssh (SshDisconnect s)); ret (-1, c\<lparr> sftp := None \<rparr>) }
              | Some fh \<Rightarrow> do {
                  d \<leftarrow> call (Sftp (SftpInit fh));
                  if rc d \<noteq> 0
                  then do { tell (Ssh (SshDisconnect s)); tell (Sftp (SftpFree fh));
                            ret (-1, c\<lparr> sftp := Some fh \<rparr>) }
                  else ret (0, c\<lparr> sftp := Some fh \<rparr>) } } } })"

definition SSHClient_Disconnect :: "SSHClient \<Rightarrow> (int \<times> SSHClient) io" where
  "SSHClient_Disconnect c = do {
     (case sftp c of None \<Rightarrow> ret () | Some f \<Rightarrow> tell (Sftp (SftpFree f)));
     (case session c of None \<Rightarrow> ret ()
      | Some s \<Rightarrow> do { tell (Ssh (SshDisconnect s)); tell (Ssh (SshFree s)) });
     ret (0, c\<lparr> sftp := None, session := None \<rparr>) }"

text \<open>\<open>strncat(output, buffer, nbytes)\<close> for every block, in a buffer of \<open>cap\<close> bytes.\<close>

fun append_blocks :: "nat \<Rightarrow> string \<Rightarrow> string list \<Rightarrow> string outcome" where
  "append_blocks cap output [] = Inr output"
| "append_blocks cap output (b # bs) =
     (if cap < length (output @ c_str b) + 1 then Inl BufferOverflow
      else append_blocks cap (output @ c_str b) bs)"

definition first_line :: "string \<Rightarrow> string" where
  "first_line s = takeWhile (\<lambda>c. c \<noteq> newline) s"

text \<open>\<open>cap\<close> is \<open>output_size\<close>, the size of the caller's buffer, which holds \<open>output\<close>.\<close>

definition SSHClient_Execute :: "SSHClient \<Rightarrow> string \<Rightarrow> string \<Rightarrow> nat \<Rightarrow> (int \<times> string) io" where
  "SSHClient_Execute c command output cap =
     (case session c of
        None \<Rightarrow> ret (-1, output)
      | Some s \<Rightarrow> do {
          ch \<leftarrow> call_handle (Ssh (ChanNew s));
          case ch of
            None \<Rightarrow> ret (-1, output)
          | Some chan \<Rightarrow> do {
              a \<leftarrow> call (Ssh (ChanOpen chan));
              if rc a \<noteq> 0 then do { tell (Ssh (ChanFree chan)); ret (-1, output) }
              else do {
                b \<leftarrow> call (Ssh (ChanExec chan command));
                if rc b \<noteq> 0
                then do { tell (Ssh (ChanClose chan)); tell (Ssh (ChanFree chan)); ret (-1, output) }
                else (case append_blocks cap output (out b) of
                    Inl e \<Rightarrow> do { fault_io e; ret (0, output) }
                  | Inr o' \<Rightarrow> do {
                      tell (Ssh (ChanEof chan)); tell (Ssh (ChanClose chan)); tell (Ssh (ChanFree chan));
                      ret (0, first_line o') }) } } })"

fun write_blocks :: "nat \<Rightarrow> string list \<Rightarrow> bool io" where
  "write_blocks f [] = ret True"
| "write_blocks f (b # bs) = do {
     a \<leftarrow> call (Sftp (SftpWrite f b));
     if rc a < 0 then ret False else write_blocks f bs }"

definition SSHClient_UploadFile :: "SSHClient \<Rightarrow> string \<Rightarrow> string \<Rightarrow> int io" where
  "SSHClient_UploadFile c local_path remote_path =
     (case sftp c of
        None \<Rightarrow> ret (-1)
      | Some _ \<Rightarrow> do {
          l \<leftarrow> call_stream (Sys (FOpen local_path ''rb''));
          case l of
            None \<Rightarrow> ret (-1)
          | Some (lf, a) \<Rightarrow> do {
              r \<leftarrow> call_handle (Sftp (SftpOpenW (the (sftp c)) remote_path));
              case r of
                None \<Rightarrow> do { tell (Sys (FClose lf)); ret (-1) }
              | Some rf \<Rightarrow> do {
                  ok \<leftarrow> write_blocks rf (out a);
                  tell (Sys (FClose lf)); tell (Sftp (SftpClose rf));
                  ret (if ok then 0 else -1) } } })"

text \<open>
  The read loop ends when \<open>sftp_read\<close> returns 0. A negative return, an error, is stored in a
  \<open>size_t\<close>, is above 0, and \<open>fwrite\<close> reads that many bytes from the buffer of 1024.
\<close>

definition SSHClient_DownloadFile :: "SSHClient \<Rightarrow> string \<Rightarrow> string \<Rightarrow> int io" where
  "SSHClient_DownloadFile c remote_path local_path =
     (case sftp c of
        None \<Rightarrow> ret (-1)
      | Some sf \<Rightarrow> do {
          r \<leftarrow> call_stream (Sftp (SftpOpenR sf remote_path));
          case r of
            None \<Rightarrow> ret (-1)
          | Some (rf, a) \<Rightarrow> do {
              l \<leftarrow> call_handle (Sys (FOpen local_path ''wb''));
              case l of
                None \<Rightarrow> do { tell (Sftp (SftpClose rf)); ret (-1) }
              | Some lf \<Rightarrow> do {
                  each_io (\<lambda>b. tell (Sys (FWrite lf b))) (out a);
                  check_io (0 \<le> vl a) OutOfBounds;
                  tell (Sys (FClose lf)); tell (Sftp (SftpClose rf));
                  ret 0 } } })"

definition SSHClient_Destroy :: "SSHClient \<Rightarrow> unit io" where
  "SSHClient_Destroy c = do {
     (case sftp c of None \<Rightarrow> ret () | Some f \<Rightarrow> tell (Sftp (SftpFree f)));
     (case session c of None \<Rightarrow> ret ()
      | Some s \<Rightarrow> do { tell (Ssh (SshDisconnect s)); tell (Ssh (SshFree s)) }) }"

lemma wf_write_blocks [wf_io_intros]: "wf_io (write_blocks f bs)"
  by (induction bs) (auto intro!: wf_io_intros)

lemma wf_ssh [wf_io_intros]:
  "wf_io (SSHClient_Init h u p)" "wf_io (SSHClient_Connect c)" "wf_io (SSHClient_Disconnect c)"
  "wf_io (SSHClient_Execute c cmd o' cap)" "wf_io (SSHClient_UploadFile c l r)"
  "wf_io (SSHClient_DownloadFile c r l)" "wf_io (SSHClient_Destroy c)"
  unfolding SSHClient_Init_def SSHClient_Connect_def SSHClient_Disconnect_def SSHClient_Execute_def
    SSHClient_UploadFile_def SSHClient_DownloadFile_def SSHClient_Destroy_def
  by (intro wf_io_intros)+

text \<open>The requests of a session: libssh's, and the local file of a transfer.\<close>

fun is_ssh :: "request \<Rightarrow> bool" where
  "is_ssh (Ssh _) = True"
| "is_ssh (Sftp _) = True"
| "is_ssh (Sys (FOpen _ _)) = True"
| "is_ssh (Sys (FWrite _ _)) = True"
| "is_ssh (Sys (FClose _)) = True"
| "is_ssh _ = False"

lemma emits_write_blocks: "(\<And>x. P (Sftp x)) \<Longrightarrow> emits P (write_blocks f bs)"
  by (induction bs) (auto intro!: emits_intros)

lemma emits_ssh [emits_intros]:
  assumes "\<And>r. is_ssh r \<Longrightarrow> P r"
  shows "emits P (SSHClient_Init h u p)" "emits P (SSHClient_Connect c)" "emits P (SSHClient_Disconnect c)"
    "emits P (SSHClient_Execute c cmd o' cap)" "emits P (SSHClient_UploadFile c l r)"
    "emits P (SSHClient_DownloadFile c r l)" "emits P (SSHClient_Destroy c)"
  unfolding SSHClient_Init_def SSHClient_Connect_def SSHClient_Disconnect_def SSHClient_Execute_def
    SSHClient_UploadFile_def SSHClient_DownloadFile_def SSHClient_Destroy_def
  by (intro emits_intros emits_write_blocks assms; simp)+

text \<open>Only \<open>execute\<close> runs a command, the one it is given.\<close>

fun is_exec :: "request \<Rightarrow> bool" where
  "is_exec (Ssh (ChanExec _ _)) = True"
| "is_exec _ = False"

lemma emits_execute:
  assumes "\<And>r. is_ssh r \<Longrightarrow> \<not> is_exec r \<Longrightarrow> P r" "\<And>ch. P (Ssh (ChanExec ch cmd))"
  shows "emits P (SSHClient_Execute c cmd o' cap)"
  unfolding SSHClient_Execute_def
  by (intro emits_intros assms; simp)

lemma emits_session:
  assumes "\<And>r. is_ssh r \<Longrightarrow> \<not> is_exec r \<Longrightarrow> P r"
  shows "emits P (SSHClient_Init h u p)" "emits P (SSHClient_Connect c)" "emits P (SSHClient_Destroy c)"
    "emits P (SSHClient_UploadFile c l r)" "emits P (SSHClient_DownloadFile c r l)"
  unfolding SSHClient_Init_def SSHClient_Connect_def SSHClient_Destroy_def SSHClient_UploadFile_def
    SSHClient_DownloadFile_def
  by (intro emits_intros emits_write_blocks assms; simp)+

lemma download_success:
  assumes "ub w = None" "value_of (SSHClient_DownloadFile c r l) w = 0"
    and "ub (snd (run_state (SSHClient_DownloadFile c r l) w)) = None"
  shows "\<exists>sf a. (Sftp (SftpOpenR sf r), a) \<in> set (events (SSHClient_DownloadFile c r l) w) \<and> rc a \<noteq> 0 \<and> 0 \<le> vl a"
  using assms unfolding events_def value_of_def
  by (auto simp: SSHClient_DownloadFile_def check_io_def fault_io_def split: if_splits option.splits)

lemma execute_success:
  assumes "ub w = None" "fst (value_of (SSHClient_Execute c cmd o' cap) w) = 0"
    and "ub (snd (run_state (SSHClient_Execute c cmd o' cap) w)) = None"
  shows "\<exists>ch a x. (Ssh (ChanExec ch cmd), a) \<in> set (events (SSHClient_Execute c cmd o' cap) w) \<and> rc a = 0 \<and>
     append_blocks cap o' (out a) = Inr x \<and> snd (value_of (SSHClient_Execute c cmd o' cap) w) = first_line x"
  using assms unfolding events_def value_of_def
  by (auto simp: SSHClient_Execute_def fault_io_def split: if_splits option.splits sum.splits)

lemma run_write_blocks:
  assumes "ub w = None"
  shows "\<exists>ok es. run_state (write_blocks f bs) w = (ok, w\<lparr> trace := trace w @ es \<rparr>) \<and>
     (ok \<longrightarrow> map fst es = map (\<lambda>b. Sftp (SftpWrite f b)) bs)"
  using assms
proof (induction bs arbitrary: w)
  case Nil
  then show ?case by (intro exI [of _ True] exI [of _ "[]"]) simp
next
  case (Cons b bs)
  let ?a = "env w (trace w) (Sftp (SftpWrite f b))"
  let ?w = "w\<lparr> trace := trace w @ [(Sftp (SftpWrite f b), ?a)] \<rparr>"
  from Cons.IH [of ?w] Cons.prems obtain ok es where
    "run_state (write_blocks f bs) ?w = (ok, ?w\<lparr> trace := trace ?w @ es \<rparr>)"
    "ok \<longrightarrow> map fst es = map (\<lambda>b. Sftp (SftpWrite f b)) bs" by auto
  with Cons.prems show ?case
    by (cases "rc ?a < 0") (auto intro: exI [of _ "(Sftp (SftpWrite f b), ?a) # es"])
qed

text \<open>An upload that succeeds wrote the blocks of the local file, in order, to the remote one.\<close>

lemma upload_success:
  assumes "ub w = None" "value_of (SSHClient_UploadFile c l r) w = 0"
  shows "\<exists>lf a sf rf b. (Sys (FOpen l ''rb''), a) \<in> set (events (SSHClient_UploadFile c l r) w) \<and>
     (Sftp (SftpOpenW sf r), b) \<in> set (events (SSHClient_UploadFile c l r) w) \<and> rc b \<noteq> 0 \<and>
     map fst (events (SSHClient_UploadFile c l r) w) =
       [Sys (FOpen l ''rb''), Sftp (SftpOpenW sf r)] @ map (\<lambda>x. Sftp (SftpWrite rf x)) (out a) @
       [Sys (FClose lf), Sftp (SftpClose rf)]"
proof (cases "sftp c")
  case None
  with assms show ?thesis by (simp add: SSHClient_UploadFile_def)
next
  case (Some sf)
  let ?a = "env w (trace w) (Sys (FOpen l ''rb''))"
  let ?w1 = "w\<lparr> trace := trace w @ [(Sys (FOpen l ''rb''), ?a)] \<rparr>"
  let ?b = "env w (trace ?w1) (Sftp (SftpOpenW sf r))"
  let ?w2 = "?w1\<lparr> trace := trace ?w1 @ [(Sftp (SftpOpenW sf r), ?b)] \<rparr>"
  have a: "rc ?a \<noteq> 0" and b: "rc ?b \<noteq> 0"
    using assms Some by (auto simp: SSHClient_UploadFile_def value_of_def split: if_splits)
  obtain ok es where w: "run_state (write_blocks (Suc (length (trace w))) (out ?a)) ?w2 = (ok, ?w2\<lparr> trace := trace ?w2 @ es \<rparr>)"
    "ok \<longrightarrow> map fst es = map (\<lambda>x. Sftp (SftpWrite (Suc (length (trace w))) x)) (out ?a)"
    using run_write_blocks [of ?w2 "Suc (length (trace w))" "out ?a"] assms(1) by auto
  have ok using w(1) a b assms Some by (auto simp: SSHClient_UploadFile_def value_of_def split: if_splits)
  with w a b assms(1) Some show ?thesis
    unfolding events_def
    by (intro exI [of _ "length (trace w)"] exI [of _ ?a] exI [of _ sf] exI [of _ "Suc (length (trace w))"] exI [of _ ?b])
      (simp add: SSHClient_UploadFile_def)
qed

subsection \<open>Releases of a session\<close>

text \<open>How every caller starts and, when the connection fails, ends.\<close>

definition open_and_destroy :: "string \<Rightarrow> string \<Rightarrow> string \<Rightarrow> int io" where
  "open_and_destroy h u p = do {
     c \<leftarrow> SSHClient_Init h u p;
     (r, c') \<leftarrow> SSHClient_Connect c;
     SSHClient_Destroy c';
     ret r }"

text \<open>
  \<open>SSHClient_Destroy\<close> after \<open>connect\<close> releases every handle once, except when
  \<open>sftp_init\<close> fails: then \<open>connect\<close> frees the SFTP session, leaves the pointer in the client, and
  \<open>SSHClient_Destroy\<close> frees it again.
\<close>

theorem session_double_free_iff:
  assumes "ub w = None"
  shows "distinct (releases (events (open_and_destroy h u p) w)) \<longleftrightarrow>
     \<not> (\<exists>f a. (Sftp (SftpInit f), a) \<in> set (events (open_and_destroy h u p) w) \<and> rc a \<noteq> 0)"
  using assms unfolding events_def open_and_destroy_def
  by (auto simp: SSHClient_Init_def SSHClient_Connect_def SSHClient_Destroy_def)

definition ssh_example :: "request \<Rightarrow> response" where
  "ssh_example r = (case r of
       Ssh SshNew \<Rightarrow> \<lparr> rc = 1, vl = 0, out = [] \<rparr> | Sftp (SftpNew _) \<Rightarrow> \<lparr> rc = 1, vl = 0, out = [] \<rparr>
     | Sftp (SftpInit _) \<Rightarrow> \<lparr> rc = -1, vl = 0, out = [] \<rparr>
     | Ssh (ChanNew _) \<Rightarrow> \<lparr> rc = 1, vl = 0, out = [] \<rparr>
     | Ssh (ChanExec _ _) \<Rightarrow> \<lparr> rc = 0, vl = 0, out = [''abc'', ''de'' @ newline # ''f''] \<rparr>
     | _ \<Rightarrow> \<lparr> rc = 0, vl = 0, out = [] \<rparr>)"

definition ssh_world :: world where
  "ssh_world = \<lparr> env = \<lambda>_. ssh_example, localtime = \<lambda>_. tm_example, trace = [], ub = None \<rparr>"

lemma ssh_world_simps [simp]: "ub ssh_world = None" "trace ssh_world = []" "env ssh_world es = ssh_example"
  by (simp_all add: ssh_world_def)

theorem session_double_free_iff_witness:
  "\<not> distinct (releases (events (open_and_destroy ''h'' ''u'' ''p'') ssh_world))"
proof -
  have "(Sftp (SftpInit 3), \<lparr> rc = -1, vl = 0, out = [] \<rparr>) \<in> set (events (open_and_destroy ''h'' ''u'' ''p'') ssh_world)"
    unfolding events_def open_and_destroy_def
    by (simp add: SSHClient_Init_def SSHClient_Connect_def SSHClient_Destroy_def ssh_example_def)
  then show ?thesis
    unfolding session_double_free_iff [of ssh_world "''h''" "''u''" "''p''", simplified]
    by force
qed

subsection \<open>The result of a remote command\<close>

lemma append_blocks_eq:
  "append_blocks cap s bs =
     (if bs = [] \<or> length (s @ concat (map c_str bs)) < cap then Inr (s @ concat (map c_str bs))
      else Inl BufferOverflow)"
  by (induction cap s bs rule: append_blocks.induct) (auto simp: not_less Suc_le_eq)

text \<open>
  When a remote command was accepted, \<open>execute\<close> writes past the caller's buffer exactly when
  the buffer's old contents and the output together do not fit it with their NUL
  (\<open>output_size\<close> is never looked at); otherwise it returns 0 and leaves the first line of the old
  contents followed by the output.
\<close>

theorem execute_output:
  assumes "ub w = None" "(Ssh (ChanExec chan command), a) \<in> set (events (SSHClient_Execute c command output cap) w)"
    and "rc a = 0" "out a \<noteq> []"
  shows "if cap \<le> length (output @ concat (map c_str (out a)))
         then ub (snd (run_state (SSHClient_Execute c command output cap) w)) \<noteq> None
         else run_state (SSHClient_Execute c command output cap) w =
                ((0, first_line (output @ concat (map c_str (out a)))),
                 snd (run_state (SSHClient_Execute c command output cap) w)) \<and>
              ub (snd (run_state (SSHClient_Execute c command output cap) w)) = None"
  using assms append_blocks_eq [of cap "output" "out a"]
  unfolding events_def
  by (auto simp: SSHClient_Execute_def fault_io_def not_less split: option.splits if_splits sum.splits)

theorem execute_output_witness:
  "fst (run_state (SSHClient_Execute \<lparr> host = ''h'', username = ''u'', password = ''p'',
       session = Some 0, sftp = Some 1 \<rparr> ''ls'' [] 128) ssh_world) = (0, ''abcde'')"
  using execute_output [of ssh_world 0 "''ls''" "ssh_example (Ssh (ChanExec 0 ''ls''))"
      "\<lparr> host = ''h'', username = ''u'', password = ''p'', session = Some 0, sftp = Some 1 \<rparr>" "[]" 128]
  unfolding events_def
  by (simp add: SSHClient_Execute_def ssh_example_def append_blocks_eq c_str_def first_line_def newline_def)

end
