(* ===== verification/FtpHandler.thy ===== *)
theory FtpHandler
  imports Shell
begin

text \<open>
  \<open>net/ftp_handler.c\<close>: FTP upload and download and the HTTPS POST, on libcurl. A transfer is
  one request that carries the options the code sets; its answer is the \<open>CURLcode\<close>
  (\<open>CURLE_OK\<close> is 0) and the blocks handed to the write callback. \<open>malloc\<close> of the URL is
  assumed to succeed.
\<close>

text \<open>The read and write callbacks hand the blocks through.\<close>

definition upload_read_callback :: "response \<Rightarrow> string" where
  "upload_read_callback a = concat (out a)"

definition download_write_callback :: "nat \<Rightarrow> string \<Rightarrow> unit io" where
  "download_write_callback fp block = tell (Sys (FWrite fp block))"

definition ftp_upload ::
    "string \<Rightarrow> string \<Rightarrow> string option \<Rightarrow> string \<Rightarrow> string \<Rightarrow> int io" where
  "ftp_upload url local_path remote_path user pass = do {
     ch \<leftarrow> call_handle (Curl CurlInit);
     case ch of None \<Rightarrow> ret (-1)
     | Some curl \<Rightarrow> do {
         st \<leftarrow> call (Sys (StatPath local_path));
         if rc st \<noteq> 0 then ret (-1)
         else do {
           l \<leftarrow> call_stream (Sys (FOpen local_path ''rb''));
           case l of None \<Rightarrow> do { tell (Curl (CurlCleanup curl)); ret (-1) }
           | Some (fp, a) \<Rightarrow> do {
               r \<leftarrow> call (Curl (CurlPut curl (case remote_path of None \<Rightarrow> url | Some p \<Rightarrow> url @ p)
                              (user @ '':'' @ pass) (upload_read_callback a) (vl st)));
               tell (Sys (FClose fp));
               tell (Curl (CurlCleanup curl));
               ret (if rc r \<noteq> 0 then -1 else 0) } } } }"

definition ftp_download ::
    "string \<Rightarrow> string \<Rightarrow> string option \<Rightarrow> string \<Rightarrow> string \<Rightarrow> int io" where
  "ftp_download url local_path remote_path user pass = do {
     ch \<leftarrow> call_handle (Curl CurlInit);
     case ch of None \<Rightarrow> ret (-1)
     | Some curl \<Rightarrow> do {
         l \<leftarrow> call_handle (Sys (FOpen local_path ''wb''));
         case l of None \<Rightarrow> do { tell (Curl (CurlCleanup curl)); ret (-1) }
         | Some fp \<Rightarrow> do {
             r \<leftarrow> call (Curl (CurlGet curl (case remote_path of None \<Rightarrow> url | Some p \<Rightarrow> url @ ''/'' @ p) user pass));
             each_io (download_write_callback fp) (out r);
             tell (Sys (FClose fp));
             tell (Curl (CurlCleanup curl));
             ret (if rc r \<noteq> 0 then -1 else 0) } } }"

text \<open>
  \<open>post_write_callback\<close> reallocates the response to the length of the block just received and
  copies that block over it: a block is read up to the first NUL at or after its start, which is
  what the environment's block stands for.
\<close>

definition post_write_callback :: "string option \<Rightarrow> string \<Rightarrow> string option" where
  "post_write_callback response block = Some (c_str block)"

definition http_post_request :: "string \<Rightarrow> string \<Rightarrow> string option \<Rightarrow> (int \<times> string option) io" where
  "http_post_request url json_data response = do {
     ch \<leftarrow> call_handle (Curl CurlInit);
     case ch of None \<Rightarrow> ret (-1, response)
     | Some curl \<Rightarrow> do {
         r \<leftarrow> call (Curl (CurlPost curl url json_data));
         tell (Curl (CurlCleanup curl));
         ret (if rc r \<noteq> 0 then -1 else 0, foldl post_write_callback response (out r)) } }"

lemma wf_callbacks [wf_io_intros]: "wf_io (download_write_callback fp b)"
  unfolding download_write_callback_def by (intro wf_io_intros)

lemma wf_ftp [wf_io_intros]:
  "wf_io (ftp_upload url l r u p)" "wf_io (ftp_download url l r u p)" "wf_io (http_post_request url d resp)"
  unfolding ftp_upload_def ftp_download_def http_post_request_def
  by (intro wf_io_intros)+

text \<open>
  An answer the server sends in several blocks is truncated: \<open>http_post_request\<close> returns 0
  with only the last block (the callback overwrites instead of appending).
\<close>

theorem post_keeps_last_block:
  assumes "ub w = None"
    and "(Curl (CurlPost h url d), a) \<in> set (events (http_post_request url d resp) w)" "rc a = 0"
  shows "value_of (http_post_request url d resp) w =
     (0, if out a = [] then resp else Some (c_str (last (out a))))"
proof -
  have "foldl post_write_callback r bs = (if bs = [] then r else Some (c_str (last bs)))" for r bs
    by (induction bs rule: rev_induct) (auto simp: post_write_callback_def)
  with assms show ?thesis
    unfolding events_def value_of_def
    by (auto simp: http_post_request_def split: if_splits)
qed

definition curl_example :: "request \<Rightarrow> response" where
  "curl_example r = (case r of
       Curl CurlInit \<Rightarrow> \<lparr> rc = 1, vl = 0, out = [] \<rparr>
     | Curl (CurlPost _ _ _) \<Rightarrow> \<lparr> rc = 0, vl = 0, out = [''{\"code\":'', ''\"SUCCESS\"}''] \<rparr>
     | _ \<Rightarrow> \<lparr> rc = 0, vl = 0, out = [] \<rparr>)"

theorem post_keeps_last_block_witness:
  "value_of (http_post_request ''u'' ''d'' None)
     \<lparr> env = \<lambda>_. curl_example, localtime = \<lambda>_. tm_example, trace = [], ub = None \<rparr> = (0, Some ''\"SUCCESS\"}'')"
  using post_keeps_last_block [of "\<lparr> env = \<lambda>_. curl_example, localtime = \<lambda>_. tm_example, trace = [], ub = None \<rparr>" 0 "''u''" "''d''"
      "curl_example (Curl (CurlPost 0 ''u'' ''d''))" None]
  unfolding events_def
  by (simp add: http_post_request_def curl_example_def c_str_def)

text \<open>
  An upload or download that got as far as libcurl closes its file and its transfer exactly
  once; an upload of a file that cannot be examined returns -1 and never releases the transfer it
  created.
\<close>

theorem ftp_releases:
  assumes "ub w = None"
  shows "releases (events (ftp_download url l r u p) w) =
           (if rc (env w (trace w) (Curl CurlInit)) = 0 then []
            else if \<exists>a. (Sys (FOpen l ''wb''), a) \<in> set (events (ftp_download url l r u p) w) \<and> rc a = 0
            then [Curl (CurlCleanup (length (trace w)))]
            else [Sys (FClose (length (trace w) + 1)), Curl (CurlCleanup (length (trace w)))]) \<and>
         ((\<exists>a. (Sys (StatPath l), a) \<in> set (events (ftp_upload url l r u p) w) \<and> rc a \<noteq> 0) \<longrightarrow>
           value_of (ftp_upload url l r u p) w = -1 \<and> releases (events (ftp_upload url l r u p) w) = [])"
proof (rule conjI)
  have no_rel: "filter is_release (map (\<lambda>b. Sys (FWrite fp b)) bs) = []" for fp bs
    by (induction bs) simp_all
  have no_open: "(Sys (FOpen l ''wb''), a) \<notin> set (answers e tr (map (\<lambda>b. Sys (FWrite fp b)) bs))"
    for a e tr fp bs by (auto dest: in_answers)
  have cb: "each_io (download_write_callback fp) bs = each_io (\<lambda>b. tell (Sys (FWrite fp b))) bs" for fp bs
    by (induction bs) (simp_all add: download_write_callback_def)
  let ?a = "env w (trace w) (Curl CurlInit)"
  let ?b = "env w (trace w @ [(Curl CurlInit, ?a)]) (Sys (FOpen l ''wb''))"
  consider "rc ?a = 0" | "rc ?a \<noteq> 0" "rc ?b = 0" | "rc ?a \<noteq> 0" "rc ?b \<noteq> 0" by blast
  then show "releases (events (ftp_download url l r u p) w) =
           (if rc (env w (trace w) (Curl CurlInit)) = 0 then []
            else if \<exists>a. (Sys (FOpen l ''wb''), a) \<in> set (events (ftp_download url l r u p) w) \<and> rc a = 0
            then [Curl (CurlCleanup (length (trace w)))]
            else [Sys (FClose (length (trace w) + 1)), Curl (CurlCleanup (length (trace w)))])"
  proof cases
    case 1
    with assms show ?thesis by (simp add: events_def ftp_download_def)
  next
    case 2
    with assms show ?thesis by (simp add: events_def ftp_download_def)
  next
    case 3
    with assms show ?thesis
      by (simp add: events_def ftp_download_def cb no_rel no_open)
  qed
  show "(\<exists>a. (Sys (StatPath l), a) \<in> set (events (ftp_upload url l r u p) w) \<and> rc a \<noteq> 0) \<longrightarrow>
           value_of (ftp_upload url l r u p) w = -1 \<and> releases (events (ftp_upload url l r u p) w) = []"
    using assms unfolding events_def value_of_def
    by (auto simp: ftp_upload_def)
qed

theorem ftp_releases_witness:
  "releases (events (ftp_download ''u'' ''l'' None ''a'' ''b'')
      \<lparr> env = \<lambda>_ _. \<lparr> rc = 1, vl = 0, out = [''x''] \<rparr>, localtime = \<lambda>_. tm_example, trace = [], ub = None \<rparr>)
   = [Sys (FClose 1), Curl (CurlCleanup 0)]"
  using ftp_releases [of "\<lparr> env = \<lambda>_ _. \<lparr> rc = 1, vl = 0, out = [''x''] \<rparr>, localtime = \<lambda>_. tm_example, trace = [], ub = None \<rparr>"
      "''u''" "''l''" None "''a''" "''b''"]
  unfolding events_def
  by (simp add: ftp_download_def download_write_callback_def)

end
