(* ===== verification/Firmware.thy ===== *)
theory Firmware
  imports SshClient FtpHandler
begin

text \<open>
  \<open>services/firmware_updater.c\<close>: how a downloaded package reaches the FKZ9 unit and is
  installed. \<open>fkz9_fw_trans_func\<close> checks the package, unpacks it and, unless it is for the
  terminal itself, copies it to the unit and checks it there; \<open>fkz9_fw_update_func\<close> runs the
  update and collects logs, files and the report. The JSON printer of cJSON is a parameter of the
  definitions that use it. A string field that \<open>sscanf\<close> or \<open>strcpy\<close> fills past its
  array is a fault.
\<close>

datatype json = JString string | JNumber int | JArray "json list" | JObject "(string \<times> json) list" | JOther

definition UPGRADE_FILE_REMOTE_PATH :: string where "UPGRADE_FILE_REMOTE_PATH = ''/upgrade''"
definition UPGRADE_FILE_LOCAL_PATH :: string where "UPGRADE_FILE_LOCAL_PATH = ''/upgrade/cktt/''"
definition OTA_FILEUPLOAD_URL :: string where "OTA_FILEUPLOAD_URL = ''https://ota.cktt.com.cn/ota-server/fileUpload''"
definition OTA_TASK_NOW :: string where "OTA_TASK_NOW = ''AT_ONCE''"
definition OTA_TASK_NEXT :: string where "OTA_TASK_NEXT = ''NEXT_REBOOT''"
definition OTA_TASK_REBOOTED :: string where "OTA_TASK_REBOOTED = ''REBOOTED''"
definition SERVER_IP :: string where "SERVER_IP = ''192.168.42.50''"
definition SERVER_USERNAME :: string where "SERVER_USERNAME = ''root''"
definition SERVER_PASSWORD :: string where "SERVER_PASSWORD = ''root''"

record UpdateRespInfo =
  r_log :: string
  r_time :: string
  r_report :: string
  r_conf :: string
  r_down :: string

record FwUpdateInfo =
  fw_path :: string
  fw_name :: string
  fw_md5 :: string
  fw_id :: u16
  fw_type :: string
  fw_log :: string
  resp_info :: UpdateRespInfo

definition id_str :: "FwUpdateInfo \<Rightarrow> string" where
  "id_str i = dec (unat (fw_id i))"

text \<open>A value \<open>sscanf\<close> stores in an array of \<open>cap\<close> characters.\<close>

definition scan_field :: "sval list \<Rightarrow> nat \<Rightarrow> nat \<Rightarrow> string \<Rightarrow> string io" where
  "scan_field vs i cap old = do {
     check_io (length (get_str vs i []) < cap) BufferOverflow;
     ret (get_str vs i old) }"

text \<open>
  \<open>basename\<close> of a path: what follows the last slash, trailing slashes ignored. The function of
  \<open>libgen.h\<close> also removes the trailing slashes from its argument: \<open>strip_slashes\<close>.
\<close>

definition strip_slashes :: "string \<Rightarrow> string" where
  "strip_slashes p = (let s = dropWhile (\<lambda>c. c = CHR ''/'') (rev p) in if s = [] then p else rev s)"

definition basename :: "string \<Rightarrow> string" where
  "basename p =
     (if p = [] then ''.''
      else let s = dropWhile (\<lambda>c. c = CHR ''/'') (rev p)
           in if s = [] then ''/'' else rev (takeWhile (\<lambda>c. c \<noteq> CHR ''/'') s))"

subsection \<open>File upload\<close>

record FileUploadfInfo =
  u_addr :: string
  u_path :: string
  u_base64 :: string

definition create_file_upload_data :: "(json \<Rightarrow> string) \<Rightarrow> FileUploadfInfo option \<Rightarrow> (int \<times> string) io" where
  "create_file_upload_data print info =
     (case info of None \<Rightarrow> ret (-1, [])
      | Some i \<Rightarrow>
          (let buf = print (JObject [(''lang'', JString ''zh_CN''), (''deviceAddress'', JString (u_addr i)),
                       (''filePath'', JString (u_path i)), (''base64Str'', JString (u_base64 i))])
           in do { check_io (length buf < 512000) BufferOverflow; ret (0, buf) }))"

text \<open>
  The answer is copied into the caller's buffer of 512 bytes, over what it held; a missing answer is
  a null dereference.
\<close>

definition do_file_upload :: "(json \<Rightarrow> string) \<Rightarrow> FileUploadfInfo \<Rightarrow> string \<Rightarrow> (int \<times> string) io" where
  "do_file_upload print info post_resp = do {
     (r, buf) \<leftarrow> create_file_upload_data print (Some info);
     if r \<noteq> 0 then ret (-1, post_resp)
     else do {
       (_, resp) \<leftarrow> http_post_request OTA_FILEUPLOAD_URL buf None;
       case resp of
         None \<Rightarrow> do { fault_io NullDeref; ret (0, post_resp) }
       | Some a \<Rightarrow> do {
           check_io (length a \<le> 512) BufferOverflow;
           ret (0, a @ drop (length a) post_resp) } } }"

subsection \<open>Transfer\<close>

text \<open>The MD5 of the package, as \<open>md5sum\<close> prints it, contains the expected one.\<close>

definition local_md5_ok :: "FwUpdateInfo \<Rightarrow> bool io" where
  "local_md5_ok i = do {
     (_, resp) \<leftarrow> system_capture (snprintf 256 (''md5sum '' @ fw_path i)) 128 [];
     ret (contains resp (fw_md5 i)) }"

definition remote_package :: "FwUpdateInfo \<Rightarrow> string" where
  "remote_package i = snprintf 128 (UPGRADE_FILE_REMOTE_PATH @ ''/'' @ id_str i @ ''/'' @ fw_name i)"

text \<open>The copy to the unit over the open session \<open>c\<close>: directory, upload, check, lock.\<close>

definition push_package :: "SSHClient \<Rightarrow> FwUpdateInfo \<Rightarrow> int io" where
  "push_package c i = do {
     (r1, _) \<leftarrow> SSHClient_Execute c (snprintf 256 (''mkdir -p '' @ UPGRADE_FILE_REMOTE_PATH @ ''/'' @ id_str i)) [] 128;
     if r1 \<noteq> 0 then ret (-1)
     else do {
       r2 \<leftarrow> SSHClient_UploadFile c (fw_path i) (remote_package i);
       if r2 \<noteq> 0 then ret (-1)
       else do {
         (r3, resp) \<leftarrow> SSHClient_Execute c (snprintf 256 (''md5sum '' @ remote_package i)) [] 128;
         if r3 \<noteq> 0 \<or> \<not> contains resp (fw_md5 i) then ret (-1)
         else do {
           (r4, _) \<leftarrow> SSHClient_Execute c (snprintf 256 (''chattr +i '' @ remote_package i)) [] 128;
           ret (if r4 \<noteq> 0 then -1 else 0) } } } }"

definition transfer_to_unit :: "FwUpdateInfo \<Rightarrow> int io" where
  "transfer_to_unit i = do {
     c \<leftarrow> SSHClient_Init SERVER_IP SERVER_USERNAME SERVER_PASSWORD;
     (ok, c) \<leftarrow> SSHClient_Connect c;
     if ok \<noteq> 0 then do { SSHClient_Destroy c; ret (-1) }
     else do {
       r \<leftarrow> push_package c i;
       SSHClient_Destroy c;
       ret r } }"

definition fkz9_fw_trans_func :: "FwUpdateInfo \<Rightarrow> (int \<times> FwUpdateInfo) io" where
  "fkz9_fw_trans_func i =
     (if contains (fw_type i) OTA_TASK_REBOOTED then ret (0, i\<lparr> fw_type := OTA_TASK_NOW \<rparr>)
      else do {
        UPDATE_LOG (fw_log i) (''start to check '' @ fw_name i @ '' md5'' @ [newline]);
        ok \<leftarrow> local_md5_ok i;
        if \<not> ok
        then do {
          UPDATE_LOG (fw_log i) (''md5 not match, do not excute task '' @ id_str i @ '', ota failed'' @ [newline]);
          ret (0, i\<lparr> fw_type := [] \<rparr>) }
        else do {
          UPDATE_LOG (fw_log i) (''end to check '' @ fw_name i @ '' md5'' @ [newline]);
          system_run (snprintf 256 (''tar -xzf '' @ UPGRADE_FILE_LOCAL_PATH @ id_str i @ ''/'' @ fw_name i @
            '' -C '' @ UPGRADE_FILE_LOCAL_PATH @ id_str i @ ''/''));
          self \<leftarrow> dir_exists (snprintf 256 (UPGRADE_FILE_LOCAL_PATH @ id_str i @ ''/rt-a100''));
          r \<leftarrow> (if self then ret 0 else transfer_to_unit i);
          if r \<noteq> 0 then ret (-1, i)
          else do {
            (if contains (fw_type i) OTA_TASK_NOW
             then UPDATE_LOG (fw_log i) (''start the ota task now'' @ [newline])
             else if contains (fw_type i) OTA_TASK_NEXT
             then UPDATE_LOG (fw_log i) (''start the ota task when next reboot'' @ [newline])
             else ret ());
            ret (0, i) } } })"

subsection \<open>Update\<close>

definition quoted :: "string \<Rightarrow> string" where "quoted s = CHR 0x27 # s @ [CHR 0x27]"

definition local_copy :: "FwUpdateInfo \<Rightarrow> string \<Rightarrow> string" where
  "local_copy i p = snprintf 80 (UPGRADE_FILE_LOCAL_PATH @ id_str i @ ''/'' @ basename p)"

definition sed_line :: "nat \<Rightarrow> string \<Rightarrow> string" where
  "sed_line k p = snprintf 256 (''sed -n '' @ quoted (dec (k + 1) @ ''p'') @ '' '' @ p)"

text \<open>
  Copying a file into the log through a buffer of 1024: each \<open>fread\<close> overwrites the front of the
  buffer and all of it up to the first NUL is printed. \<open>reset\<close> says whether the loop clears the
  buffer after printing. The buffer is represented without its trailing NULs.
\<close>

function blocks_of :: "nat \<Rightarrow> string \<Rightarrow> string list" where
  "blocks_of n s = (if n = 0 \<or> s = [] then [] else take n s # blocks_of n (drop n s))"
  by pat_completeness auto
termination by (relation "measure (\<lambda>(n, s). length s)") auto

declare blocks_of.simps [simp del]

definition overlay :: "string \<Rightarrow> string \<Rightarrow> string" where
  "overlay c buf = c @ drop (length c) buf"

fun log_blocks :: "bool \<Rightarrow> string \<Rightarrow> string \<Rightarrow> string list \<Rightarrow> string io" where
  "log_blocks reset file_name buf [] = ret buf"
| "log_blocks reset file_name buf (c # cs) = do {
     UPDATE_LOG file_name (c_str (overlay c buf));
     log_blocks reset file_name (if reset then [] else overlay c buf) cs }"

definition copy_log :: "bool \<Rightarrow> string \<Rightarrow> string \<Rightarrow> string \<Rightarrow> string io" where
  "copy_log reset file_name path buf = do {
     f \<leftarrow> call_stream (Sys (FOpen path ''r''));
     case f of None \<Rightarrow> ret buf
     | Some (fp, a) \<Rightarrow> do {
         buf' \<leftarrow> log_blocks reset file_name buf (blocks_of 1023 (concat (out a)));
         tell (Sys (FClose fp));
         ret buf' } }"

text \<open>The terminal's own package: \<open>run.sh\<close> in the unpacked directory.\<close>

definition run_local_update :: "FwUpdateInfo \<Rightarrow> unit io" where
  "run_local_update i = do {
     a \<leftarrow> call (Sys Getcwd);
     tell (Sys (Chdir (snprintf 128 (UPGRADE_FILE_LOCAL_PATH @ id_str i))));
     (_, resp) \<leftarrow> system_capture ''bash run.sh'' 512 [];
     UPDATE_LOG (fw_log i) (resp @ [newline]);
     tell (Sys (Chdir (if rc a = 0 then [] else snprintf 128 (c_str (concat (out a)))))) }"

definition upgrade_cmd :: "FwUpdateInfo \<Rightarrow> string" where
  "upgrade_cmd i = snprintf 256 (''bash /home/cktt/script/upgrade.sh '' @ id_str i)"

definition three_fields :: "conv list" where
  "three_fields = [CUntil CHR '','', CLit CHR '','', CUntil CHR '','', CLit CHR '','', CUntil CHR '','']"

text \<open>The upgrade on the unit, whose answer names three files there; its log is fetched and copied.\<close>

definition remote_upgrade :: "SSHClient \<Rightarrow> FwUpdateInfo \<Rightarrow> (int \<times> FwUpdateInfo \<times> string) io" where
  "remote_upgrade c i = do {
     (r, resp) \<leftarrow> SSHClient_Execute c (upgrade_cmd i) [] 512;
     if r \<noteq> 0 then ret (-1, i, [])
     else (let vs = sscanf three_fields resp; ri = resp_info i in do {
       l \<leftarrow> scan_field vs 0 80 (r_log ri);
       cf \<leftarrow> scan_field vs 1 80 (r_conf ri);
       dn \<leftarrow> scan_field vs 2 80 (r_down ri);
       let i = i\<lparr> resp_info := ri\<lparr> r_log := strip_slashes l, r_conf := cf, r_down := dn \<rparr> \<rparr> in do {
         d \<leftarrow> SSHClient_DownloadFile c (strip_slashes l) (local_copy i l);
         if d \<noteq> 0 then ret (-1, i, [])
         else do {
           buf \<leftarrow> copy_log False (fw_log i) (local_copy i l) [];
           ret (0, i, buf) } } }) }"

text \<open>\<open>wc -l\<close> of a list file on the unit: how many turns its loop makes.\<close>

definition count_lines :: "SSHClient \<Rightarrow> string \<Rightarrow> u32 \<Rightarrow> (int \<times> u32) io" where
  "count_lines c p file_num = do {
     (r, resp) \<leftarrow> SSHClient_Execute c (snprintf 256 (''wc -l '' @ p)) [] 512;
     ret (if r \<noteq> 0 then (-1, file_num) else (0, get_int (sscanf [CDec] resp) 0 file_num)) }"

text \<open>One file the unit wants sent to the cloud.\<close>

definition conf_file ::
    "(json \<Rightarrow> string) \<Rightarrow> SSHClient \<Rightarrow> FwUpdateInfo \<Rightarrow> nat \<Rightarrow> string \<Rightarrow> (int \<times> string) io" where
  "conf_file print c i k file_path = do {
     (r, resp) \<leftarrow> SSHClient_Execute c (sed_line k (r_conf (resp_info i))) [] 512;
     if r \<noteq> 0 then ret (-1, file_path)
     else (let vs = sscanf (three_fields @ [CLit CHR '','']) resp in do {
       addr \<leftarrow> scan_field vs 0 10 [];
       fp \<leftarrow> scan_field vs 1 80 [];
       up \<leftarrow> scan_field vs 2 100 [];
       d \<leftarrow> SSHClient_DownloadFile c (strip_slashes fp) (local_copy i fp);
       if d \<noteq> 0 then ret (-1, strip_slashes fp)
       else do {
         (_, b64) \<leftarrow> system_capture (snprintf 256 (''base64 -w 0 '' @ local_copy i fp)) 512000 [];
         (u, resp) \<leftarrow> do_file_upload print \<lparr> u_addr = addr, u_path = up, u_base64 = b64 \<rparr> resp;
         check_io (length resp < 512) OutOfBounds;
         UPDATE_LOG (fw_log i) (resp @ [newline]);
         UPDATE_LOG (fw_log i) (''upload file '' @ strip_slashes fp @
           (if u = 0 \<and> contains resp ''SUCCESS'' then '' to cloud success'' else '' to cloud failed'') @ [newline]);
         ret (0, strip_slashes fp) } }) }"

text \<open>The file loops: the locals \<open>l\<close> live through the turns, an error ends the function.\<close>

fun until_error :: "(nat \<Rightarrow> 'l \<Rightarrow> (int \<times> 'l) io) \<Rightarrow> nat list \<Rightarrow> 'l \<Rightarrow> (int \<times> 'l) io" where
  "until_error f [] l = ret (0, l)"
| "until_error f (k # ks) l = do {
     (r, l) \<leftarrow> f k l;
     if r \<noteq> 0 then ret (-1, l) else until_error f ks l }"

definition turns :: "u32 \<Rightarrow> nat list" where
  "turns file_num = [0..<nat (sint file_num)]"

definition upload_conf_files ::
    "(json \<Rightarrow> string) \<Rightarrow> SSHClient \<Rightarrow> FwUpdateInfo \<Rightarrow> (int \<times> u32 \<times> string) io" where
  "upload_conf_files print c i = do {
     (r, file_num) \<leftarrow> count_lines c (r_conf (resp_info i)) 0;
     if r \<noteq> 0 then ret (-1, file_num, [])
     else if file_num = 0 then ret (0, file_num, [])
     else do {
       (r, fp) \<leftarrow> until_error (conf_file print c i) (turns file_num) [];
       if r \<noteq> 0 then ret (-1, file_num, fp)
       else do { UPDATE_LOG (fw_log i) (''send file end'' @ [newline]); ret (0, file_num, fp) } } }"

text \<open>
  One file to fetch for the unit. The locals \<open>file_path\<close>, \<open>remote_path\<close> and the log
  buffer keep their values from turn to turn.
\<close>

definition wget_log :: string where "wget_log = UPGRADE_FILE_LOCAL_PATH @ ''wget.log''"

definition down_file ::
    "SSHClient \<Rightarrow> FwUpdateInfo \<Rightarrow> nat \<Rightarrow> string \<times> string \<times> string \<Rightarrow> (int \<times> string \<times> string \<times> string) io" where
  "down_file c i k = (\<lambda>(fp, rp, buf). do {
     (r, resp) \<leftarrow> SSHClient_Execute c (sed_line k (r_down (resp_info i))) [] 512;
     if r \<noteq> 0 then ret (-1, fp, rp, buf)
     else (let vs = sscanf [CDec, CLit CHR '','', CUntil CHR '','', CLit CHR '','', CUntil CHR '',''] resp in do {
       fp \<leftarrow> scan_field vs 1 80 fp;
       rp \<leftarrow> scan_field vs 2 80 rp;
       system_run (snprintf 256 (''wget '' @ fp @ '' -O '' @ UPGRADE_FILE_LOCAL_PATH @ basename rp @
         '' 2>&1 | tee -a '' @ wget_log));
       buf \<leftarrow> copy_log True (fw_log i) wget_log buf;
       system_run (snprintf 256 (''rm -rf '' @ wget_log));
       let rp = strip_slashes rp; fp = snprintf 80 (UPGRADE_FILE_LOCAL_PATH @ basename rp) in do {
         u \<leftarrow> SSHClient_UploadFile c fp rp;
         if u \<noteq> 0 then ret (-1, fp, rp, buf)
         else do {
           system_run (snprintf 256 (''rm -rf '' @ fp));
           (r, _) \<leftarrow> SSHClient_Execute c (snprintf 256 (''chmod 644 '' @ rp @ '' & chattr +i '' @ rp)) resp 512;
           ret (if r \<noteq> 0 then -1 else 0, fp, rp, buf) } } }) })"

definition fetch_down_files :: "SSHClient \<Rightarrow> FwUpdateInfo \<Rightarrow> u32 \<Rightarrow> string \<Rightarrow> string \<Rightarrow> int io" where
  "fetch_down_files c i file_num fp buf = do {
     (r, file_num) \<leftarrow> count_lines c (r_down (resp_info i)) file_num;
     if r \<noteq> 0 then ret (-1)
     else if file_num = 0 then ret 0
     else do {
       (r, _) \<leftarrow> until_error (down_file c i) (turns file_num) (fp, [], buf);
       if r \<noteq> 0 then ret (-1)
       else do {
         (r, _) \<leftarrow> SSHClient_Execute c ''supervisoctl -u cktt -p cktt restart algorithm'' [] 512;
         ret (if r \<noteq> 0 then -1 else 0) } } }"

definition update_unit :: "(json \<Rightarrow> string) \<Rightarrow> FwUpdateInfo \<Rightarrow> (int \<times> FwUpdateInfo) io" where
  "update_unit print i = do {
     c \<leftarrow> SSHClient_Init SERVER_IP SERVER_USERNAME SERVER_PASSWORD;
     (ok, c) \<leftarrow> SSHClient_Connect c;
     if ok \<noteq> 0 then do { SSHClient_Destroy c; ret (-1, i) }
     else do {
       (r, i, buf) \<leftarrow> remote_upgrade c i;
       if r \<noteq> 0 then do { SSHClient_Destroy c; ret (-1, i) }
       else do {
         (r, file_num, fp) \<leftarrow> upload_conf_files print c i;
         if r \<noteq> 0 then do { SSHClient_Destroy c; ret (-1, i) }
         else do {
           r \<leftarrow> fetch_down_files c i file_num fp buf;
           SSHClient_Destroy c;
           ret (if r \<noteq> 0 then -1 else 0, i) } } } }"

definition time_str :: "CustomTime \<Rightarrow> string" where
  "time_str t = dec0 4 (unat (usYear t)) @ ''-'' @ dec0 2 (unat (ucMonth t)) @ ''-'' @ dec0 2 (unat (ucDay t)) @ '' '' @
     dec0 2 (unat (ucHour t)) @ '':'' @ dec0 2 (unat (ucMinute t)) @ '':'' @ dec0 2 (unat (ucSecond t))"

definition make_report :: "FwUpdateInfo \<Rightarrow> FwUpdateInfo io" where
  "make_report i = do {
     t \<leftarrow> read_clock;
     (_, rep) \<leftarrow> system_capture (snprintf 256 (''base64 '' @ fw_log i @ '' | tr -d '' @ quoted [newline, CHR 0x0D]))
       10240 (r_report (resp_info i));
     ret (i\<lparr> resp_info := (resp_info i)\<lparr> r_time := snprintf 64 (time_str t), r_report := rep \<rparr> \<rparr>) }"

definition fkz9_fw_update_func :: "(json \<Rightarrow> string) \<Rightarrow> FwUpdateInfo \<Rightarrow> (int \<times> FwUpdateInfo) io" where
  "fkz9_fw_update_func print i = do {
     (r, i) \<leftarrow>
       (if contains (fw_type i) OTA_TASK_NOW
        then do {
          self \<leftarrow> dir_exists (snprintf 128 (UPGRADE_FILE_LOCAL_PATH @ id_str i @ ''/rt-a100''));
          if self then do { run_local_update i; ret (0, i) } else update_unit print i }
        else ret (0, i));
     if r \<noteq> 0 then ret (-1, i)
     else do {
       i \<leftarrow> make_report i;
       (if contains (fw_type i) OTA_TASK_NOW
        then do { system_run (snprintf 256 (''rm -rf '' @ UPGRADE_FILE_LOCAL_PATH @ id_str i)); ret () }
        else ret ());
       ret (0, i) } }"

text \<open>\<open>do_upgrade_firmware\<close> of \<open>cloud_comm.c\<close> with the one registered updater, which has no callback.\<close>

definition do_upgrade_firmware :: "(json \<Rightarrow> string) \<Rightarrow> FwUpdateInfo \<Rightarrow> (int \<times> FwUpdateInfo) io" where
  "do_upgrade_firmware print i = do {
     (r, i) \<leftarrow> fkz9_fw_trans_func i;
     if r \<noteq> 0 then ret (r, i) else fkz9_fw_update_func print i }"

lemma wf_log_blocks [wf_io_intros]: "wf_io (log_blocks reset f buf cs)"
  by (induction cs arbitrary: buf) (auto intro!: wf_io_intros)

lemma wf_until_error [wf_io_intros]: "(\<And>k l. wf_io (f k l)) \<Longrightarrow> wf_io (until_error f ks l)"
  by (induction ks arbitrary: l) (auto intro!: wf_io_intros)

lemma wf_trans [wf_io_intros]:
  "wf_io (local_md5_ok i)" "wf_io (push_package c i)" "wf_io (transfer_to_unit i)" "wf_io (fkz9_fw_trans_func i)"
  unfolding local_md5_ok_def push_package_def transfer_to_unit_def fkz9_fw_trans_func_def
  by (intro wf_io_intros)+

lemma wf_update [wf_io_intros]:
  "wf_io (scan_field vs fi cap old)" "wf_io (create_file_upload_data print info)" "wf_io (do_file_upload print u resp)"
  "wf_io (copy_log reset f p buf)" "wf_io (run_local_update i)" "wf_io (remote_upgrade c i)" "wf_io (count_lines c p num)"
  "wf_io (conf_file print c i k fp)" "wf_io (upload_conf_files print c i)" "wf_io (down_file c i k l)"
  "wf_io (fetch_down_files c i num fp buf)" "wf_io (update_unit print i)" "wf_io (make_report i)"
  "wf_io (fkz9_fw_update_func print i)" "wf_io (do_upgrade_firmware print i)"
  unfolding scan_field_def create_file_upload_data_def do_file_upload_def copy_log_def run_local_update_def
    remote_upgrade_def count_lines_def conf_file_def upload_conf_files_def down_file_def fetch_down_files_def
    update_unit_def make_report_def fkz9_fw_update_func_def do_upgrade_firmware_def Let_def
  by (intro wf_io_intros)+

subsection \<open>What a successful transfer has checked\<close>

text \<open>The answer \<open>a\<close> of a command, as \<open>_system_\<close> and \<open>execute\<close> hand it on, shows the MD5.\<close>

definition shows_md5 :: "FwUpdateInfo \<Rightarrow> response \<Rightarrow> bool" where
  "shows_md5 i a \<longleftrightarrow> rc a \<noteq> 0 \<and> contains (c_str (last_chunk 127 [] (concat (out a)))) (fw_md5 i)"

definition unit_shows_md5 :: "FwUpdateInfo \<Rightarrow> response \<Rightarrow> bool" where
  "unit_shows_md5 i a \<longleftrightarrow> rc a = 0 \<and> (\<exists>x. append_blocks 128 [] (out a) = Inr x \<and> contains (first_line x) (fw_md5 i))"

definition md5_cmd :: "string \<Rightarrow> string" where "md5_cmd p = snprintf 256 (''md5sum '' @ p)"

definition unpacked_self :: "nat \<Rightarrow> FwUpdateInfo \<Rightarrow> string" where
  "unpacked_self cap i = snprintf cap (UPGRADE_FILE_LOCAL_PATH @ id_str i @ ''/rt-a100'')"

lemma local_md5_event:
  assumes "value_of (local_md5_ok i) w" "ub w = None" "fw_md5 i \<noteq> []"
  shows "\<exists>a. (Sys (Popen (md5_cmd (fw_path i))), a) \<in> set (events (local_md5_ok i) w) \<and> shows_md5 i a"
  using assms unfolding events_def value_of_def
  by (auto simp: local_md5_ok_def system_capture_def Let_def md5_cmd_def shows_md5_def split: if_splits)

lemma dir_exists_event:
  assumes "value_of (dir_exists p) w" "ub w = None"
  shows "\<exists>a. (Sys (StatPath p), a) \<in> set (events (dir_exists p) w) \<and> rc a = 0 \<and> S_ISDIR (vl a)"
  using assms unfolding events_def value_of_def by (auto simp: dir_exists_def)

lemma push_package_success:
  assumes "ub w = None" "value_of (push_package c i) w = 0" "ub (snd (run_state (push_package c i) w)) = None"
  shows "(\<exists>sf a. (Sftp (SftpOpenW sf (remote_package i)), a) \<in> set (events (push_package c i) w) \<and> rc a \<noteq> 0) \<and>
     (\<exists>ch a. (Ssh (ChanExec ch (md5_cmd (remote_package i))), a) \<in> set (events (push_package c i) w) \<and> unit_shows_md5 i a)"
proof -
  let ?m1 = "SSHClient_Execute c (snprintf 256 (''mkdir -p '' @ UPGRADE_FILE_REMOTE_PATH @ ''/'' @ id_str i)) [] 128"
  let ?w1 = "snd (run_state ?m1 w)"
  let ?m2 = "SSHClient_UploadFile c (fw_path i) (remote_package i)"
  let ?w2 = "snd (run_state ?m2 ?w1)"
  let ?m3 = "SSHClient_Execute c (md5_cmd (remote_package i)) [] 128"
  let ?w3 = "snd (run_state ?m3 ?w2)"
  have v: "fst (value_of ?m1 w) = 0" "value_of ?m2 ?w1 = 0" "fst (value_of ?m3 ?w2) = 0"
    "contains (snd (value_of ?m3 ?w2)) (fw_md5 i)"
    using assms(2) by (auto simp: push_package_def case_prod_beta md5_cmd_def split: if_splits)
  have e: "ub ?w1 = None" "ub ?w2 = None" "ub ?w3 = None"
    using assms(3) v by (auto simp: push_package_def no_fault_bind case_prod_beta md5_cmd_def wf_io_intros simp del: run_state_bind)
  show ?thesis
    using upload_success [OF e(1) v(2)] execute_success [OF e(2) v(3) e(3)] v
    by (fastforce simp: push_package_def in_events_bind case_prod_beta md5_cmd_def unit_shows_md5_def wf_io_intros)
qed

lemma transfer_success:
  assumes "ub w = None" "value_of (transfer_to_unit i) w = 0" "ub (snd (run_state (transfer_to_unit i) w)) = None"
  shows "(\<exists>sf a. (Sftp (SftpOpenW sf (remote_package i)), a) \<in> set (events (transfer_to_unit i) w) \<and> rc a \<noteq> 0) \<and>
     (\<exists>ch a. (Ssh (ChanExec ch (md5_cmd (remote_package i))), a) \<in> set (events (transfer_to_unit i) w) \<and> unit_shows_md5 i a)"
proof -
  let ?m1 = "SSHClient_Init SERVER_IP SERVER_USERNAME SERVER_PASSWORD"
  let ?w1 = "snd (run_state ?m1 w)"
  let ?m2 = "SSHClient_Connect (value_of ?m1 w)"
  let ?w2 = "snd (run_state ?m2 ?w1)"
  let ?m3 = "push_package (snd (value_of ?m2 ?w1)) i"
  have v: "fst (value_of ?m2 ?w1) = 0" "value_of ?m3 ?w2 = 0"
    using assms(2) by (auto simp: transfer_to_unit_def case_prod_beta split: if_splits)
  have e: "ub ?w2 = None" "ub (snd (run_state ?m3 ?w2)) = None"
    using assms(3) v by (auto simp: transfer_to_unit_def no_fault_bind case_prod_beta wf_io_intros simp del: run_state_bind)
  show ?thesis
    using push_package_success [OF e(1) v(2) e(2)] v
    by (fastforce simp: transfer_to_unit_def in_events_bind case_prod_beta wf_io_intros)
qed

lemma transfer_checked:
  assumes "ub w = None" "ub (snd (run_state (fkz9_fw_trans_func i) w)) = None"
    and "value_of (fkz9_fw_trans_func i) w = (0, i')" "fw_type i' \<noteq> []"
    and "\<not> contains (fw_type i) OTA_TASK_REBOOTED" "fw_md5 i \<noteq> []"
  shows "i' = i \<and>
     (\<exists>a. (Sys (Popen (md5_cmd (fw_path i))), a) \<in> set (events (fkz9_fw_trans_func i) w) \<and> shows_md5 i a) \<and>
     ((\<exists>a. (Sys (StatPath (unpacked_self 256 i)), a) \<in> set (events (fkz9_fw_trans_func i) w) \<and> rc a = 0 \<and> S_ISDIR (vl a)) \<or>
      (\<exists>sf a. (Sftp (SftpOpenW sf (remote_package i)), a) \<in> set (events (fkz9_fw_trans_func i) w) \<and> rc a \<noteq> 0) \<and>
      (\<exists>ch a. (Ssh (ChanExec ch (md5_cmd (remote_package i))), a) \<in> set (events (fkz9_fw_trans_func i) w) \<and> unit_shows_md5 i a))"
proof -
  let ?l1 = "UPDATE_LOG (fw_log i) (''start to check '' @ fw_name i @ '' md5'' @ [newline])"
  let ?w1 = "snd (run_state ?l1 w)"
  let ?w2 = "snd (run_state (local_md5_ok i) ?w1)"
  let ?w3 = "snd (run_state (UPDATE_LOG (fw_log i) (''end to check '' @ fw_name i @ '' md5'' @ [newline])) ?w2)"
  let ?tar = "system_run (snprintf 256 (''tar -xzf '' @ UPGRADE_FILE_LOCAL_PATH @ id_str i @ ''/'' @ fw_name i @
            '' -C '' @ UPGRADE_FILE_LOCAL_PATH @ id_str i @ ''/''))"
  let ?w4 = "snd (run_state ?tar ?w3)"
  let ?m5 = "dir_exists (unpacked_self 256 i)"
  let ?w5 = "snd (run_state ?m5 ?w4)"
  let ?r = "if value_of ?m5 ?w4 then ret 0 else transfer_to_unit i"
  have v: "value_of (local_md5_ok i) ?w1" "i' = i" "value_of ?r ?w5 = 0"
    using assms(3-5) by (auto simp: fkz9_fw_trans_func_def unpacked_self_def split: if_splits)
  have e: "ub ?w1 = None" "ub ?w4 = None" "ub ?w5 = None" "ub (snd (run_state ?r ?w5)) = None"
    using assms(2,5) v
    by (auto simp: fkz9_fw_trans_func_def unpacked_self_def no_fault_bind wf_io_intros simp del: run_state_bind)
  note ev = fkz9_fw_trans_func_def in_events_bind wf_io_intros unpacked_self_def
  have "\<exists>a. (Sys (Popen (md5_cmd (fw_path i))), a) \<in> set (events (fkz9_fw_trans_func i) w) \<and> shows_md5 i a"
    using local_md5_event [OF v(1) e(1) assms(6)] assms(5) by (auto simp: ev)
  moreover have "\<exists>a. (Sys (StatPath (unpacked_self 256 i)), a) \<in> set (events (fkz9_fw_trans_func i) w) \<and> rc a = 0 \<and> S_ISDIR (vl a)"
    if "value_of ?m5 ?w4"
    using dir_exists_event [OF that e(2)] assms(5) v(1) by (auto simp: ev)
  moreover have "(\<exists>sf a. (Sftp (SftpOpenW sf (remote_package i)), a) \<in> set (events (fkz9_fw_trans_func i) w) \<and> rc a \<noteq> 0) \<and>
      (\<exists>ch a. (Ssh (ChanExec ch (md5_cmd (remote_package i))), a) \<in> set (events (fkz9_fw_trans_func i) w) \<and> unit_shows_md5 i a)"
    if "\<not> value_of ?m5 ?w4"
    using transfer_success [OF e(3)] v(3) e(4) that assms(5) v(1) by (fastforce simp: ev)
  ultimately show ?thesis using v(2) by blast
qed

text \<open>
  C2: A package is passed on as ready (result 0, its type kept) only after the MD5 printed for the local
  file contained the expected one, and, unless the unpacked directory marks it as the terminal's own,
  only after it was written to the unit's path for that task and the MD5 printed there contained it too.
\<close>

theorem transfer_is_verified:
  assumes "ub w = None" "ub (snd (run_state (fkz9_fw_trans_func i) w)) = None"
    and "value_of (fkz9_fw_trans_func i) w = (0, i')" "fw_type i' \<noteq> []"
    and "\<not> contains (fw_type i) OTA_TASK_REBOOTED" "fw_md5 i \<noteq> []"
  shows "i' = i \<and>
     (\<exists>a. (Sys (Popen (md5_cmd (fw_path i))), a) \<in> set (events (fkz9_fw_trans_func i) w) \<and> shows_md5 i a) \<and>
     ((\<exists>a. (Sys (StatPath (unpacked_self 256 i)), a) \<in> set (events (fkz9_fw_trans_func i) w) \<and> rc a = 0 \<and> S_ISDIR (vl a)) \<or>
      (\<exists>sf a. (Sftp (SftpOpenW sf (remote_package i)), a) \<in> set (events (fkz9_fw_trans_func i) w) \<and> rc a \<noteq> 0) \<and>
      (\<exists>ch a. (Ssh (ChanExec ch (md5_cmd (remote_package i))), a) \<in> set (events (fkz9_fw_trans_func i) w) \<and> unit_shows_md5 i a))"
  using assms by (rule transfer_checked)

definition fw_env :: "request \<Rightarrow> response" where
  "fw_env r = (case r of
       Sys (Popen _) \<Rightarrow> \<lparr> rc = 1, vl = 0, out = [''d41d8  p.tgz'' @ [newline]] \<rparr>
     | Sys (StatPath _) \<Rightarrow> \<lparr> rc = -1, vl = 0, out = [] \<rparr>
     | Sys (FOpen _ _) \<Rightarrow> \<lparr> rc = 1, vl = 0, out = [''package''] \<rparr>
     | Ssh SshNew \<Rightarrow> \<lparr> rc = 1, vl = 0, out = [] \<rparr>
     | Ssh (ChanNew _) \<Rightarrow> \<lparr> rc = 1, vl = 0, out = [] \<rparr>
     | Ssh (ChanExec _ _) \<Rightarrow> \<lparr> rc = 0, vl = 0, out = [''d41d8  p.tgz'' @ [newline]] \<rparr>
     | Sftp (SftpNew _) \<Rightarrow> \<lparr> rc = 1, vl = 0, out = [] \<rparr>
     | Sftp (SftpOpenW _ _) \<Rightarrow> \<lparr> rc = 1, vl = 0, out = [] \<rparr>
     | _ \<Rightarrow> \<lparr> rc = 0, vl = 0, out = [] \<rparr>)"

definition fw_world :: world where
  "fw_world = \<lparr> env = \<lambda>_. fw_env, localtime = \<lambda>_. tm_example, trace = [], ub = None \<rparr>"

definition fw_example :: FwUpdateInfo where
  "fw_example = \<lparr> fw_path = ''/upgrade/cktt/7/p.tgz'', fw_name = ''p.tgz'', fw_md5 = ''d41d8'', fw_id = 7,
     fw_type = OTA_TASK_NOW, fw_log = ''l'',
     resp_info = \<lparr> r_log = [], r_time = [], r_report = [], r_conf = [], r_down = [] \<rparr> \<rparr>"

lemma fw_example_trans:
  "value_of (fkz9_fw_trans_func fw_example) fw_world = (0, fw_example)"
  "ub (snd (run_state (fkz9_fw_trans_func fw_example) fw_world)) = None"
  by code_simp+

theorem transfer_is_verified_witness:
  "\<exists>a. (Sys (Popen (md5_cmd ''/upgrade/cktt/7/p.tgz'')), a) \<in> set (events (fkz9_fw_trans_func fw_example) fw_world) \<and>
     shows_md5 fw_example a"
  using transfer_is_verified [OF _ fw_example_trans(2,1)]
  by (simp add: fw_world_def) (simp add: fw_example_def OTA_TASK_NOW_def OTA_TASK_REBOOTED_def contains_def)

subsection \<open>No installation before the check\<close>

definition installs :: "FwUpdateInfo \<Rightarrow> request \<Rightarrow> bool" where
  "installs i r \<longleftrightarrow> r = Sys (Popen ''bash run.sh'') \<or> (\<exists>ch. r = Ssh (ChanExec ch (upgrade_cmd i)))"

lemma not_installs [simp]:
  "is_ssh r \<Longrightarrow> \<not> is_exec r \<Longrightarrow> \<not> installs i r"
  "\<not> installs i (Sys (StatPath p))" "\<not> installs i (Sys (FAppend f t))" "\<not> installs i (Sys LocalTime)"
  "installs i (Sys (Popen cmd)) \<longleftrightarrow> cmd = ''bash run.sh''"
  "installs i (Ssh (ChanExec ch cmd)) \<longleftrightarrow> cmd = upgrade_cmd i"
  by (auto simp: installs_def)

lemma transfer_installs_nothing:
  "emits (\<lambda>r. \<not> installs i r) (fkz9_fw_trans_func i)"
proof -
  have unit: "emits (\<lambda>r. \<not> installs i r) (transfer_to_unit i)"
    unfolding transfer_to_unit_def push_package_def
    by (intro emits_intros emits_session emits_execute; simp add: upgrade_cmd_def snprintf_def)
  show ?thesis
    unfolding fkz9_fw_trans_func_def local_md5_ok_def
    by (intro emits_intros unit; simp add: snprintf_def)
qed

lemma cleared_type_installs_nothing:
  assumes "\<not> contains (fw_type i') OTA_TASK_NOW"
  shows "emits (\<lambda>r. \<not> installs i r) (fkz9_fw_update_func print i')"
  unfolding fkz9_fw_update_func_def make_report_def using assms
  by (intro emits_intros; simp add: snprintf_def)

lemma install_checked:
  assumes "(r, a) \<in> set (events (do_upgrade_firmware print i) w)" "installs i r"
    and "\<not> contains (fw_type i) OTA_TASK_REBOOTED" "fw_md5 i \<noteq> []"
  shows "\<exists>pre post b. events (do_upgrade_firmware print i) w = pre @ post \<and> (\<forall>e \<in> set pre. \<not> installs i (fst e)) \<and>
     (Sys (Popen (md5_cmd (fw_path i))), b) \<in> set pre \<and> shows_md5 i b"
proof -
  let ?pre = "events (fkz9_fw_trans_func i) w"
  let ?w' = "snd (run_state (fkz9_fw_trans_func i) w)"
  obtain z i' where v: "value_of (fkz9_fw_trans_func i) w = (z, i')" by fastforce
  have pre: "\<forall>e \<in> set ?pre. \<not> installs i (fst e)"
    using transfer_installs_nothing [of i] by (simp add: emits_def)
  define rest where "rest = (if z \<noteq> 0 then ret (z, i') else fkz9_fw_update_func print i')"
  have ev: "events (do_upgrade_firmware print i) w = ?pre @ events rest ?w'"
    unfolding do_upgrade_firmware_def
    by (subst events_bind) (auto simp: v rest_def intro!: wf_io_intros)
  have r: "(r, a) \<in> set (events rest ?w')"
    using assms(1,2) pre unfolding ev by auto
  then have "z = 0" and u: "(r, a) \<in> set (events (fkz9_fw_update_func print i') ?w')"
    by (auto simp: rest_def split: if_splits)
  then have f: "ub ?w' = None" "ub w = None"
    using events_no_fault [OF _ u] fault_stays [of "fkz9_fw_trans_func i" w] by (simp_all add: wf_io_intros)
  have "contains (fw_type i') OTA_TASK_NOW"
    using emitsD [OF cleared_type_installs_nothing u] assms(2) by blast
  then have "fw_type i' \<noteq> []" by (auto simp: OTA_TASK_NOW_def)
  from transfer_checked [OF f(2) f(1) _ this assms(3,4)] v \<open>z = 0\<close>
  obtain b where "(Sys (Popen (md5_cmd (fw_path i))), b) \<in> set ?pre" "shows_md5 i b" by auto
  with ev pre show ?thesis by blast
qed

text \<open>
  An upgrade never runs before the check: if \<open>do_upgrade_firmware\<close> issues \<open>run.sh\<close> on the
  terminal or \<open>upgrade.sh\<close> on the unit for a task that is not a reboot task, it has, earlier in the
  same call, printed the MD5 of the package and found the expected one in it.
\<close>

theorem install_after_check:
  assumes "(r, a) \<in> set (events (do_upgrade_firmware print i) w)" "installs i r"
    and "\<not> contains (fw_type i) OTA_TASK_REBOOTED" "fw_md5 i \<noteq> []"
  shows "\<exists>pre post b. events (do_upgrade_firmware print i) w = pre @ post \<and> (\<forall>e \<in> set pre. \<not> installs i (fst e)) \<and>
     (Sys (Popen (md5_cmd (fw_path i))), b) \<in> set pre \<and> shows_md5 i b"
  using assms by (rule install_checked)

lemma fw_example_installs:
  "(Ssh (ChanExec 43 (upgrade_cmd fw_example)), fw_env (Ssh (ChanExec 43 (upgrade_cmd fw_example))))
     \<in> set (events (do_upgrade_firmware (\<lambda>_. ''{}'') fw_example) fw_world)"
  by code_simp

theorem install_after_check_witness:
  "\<exists>b. (Sys (Popen (md5_cmd ''/upgrade/cktt/7/p.tgz'')), b)
      \<in> set (events (do_upgrade_firmware (\<lambda>_. ''{}'') fw_example) fw_world) \<and> shows_md5 fw_example b"
proof -
  have "\<not> contains (fw_type fw_example) OTA_TASK_REBOOTED" "fw_md5 fw_example \<noteq> []" "fw_path fw_example = ''/upgrade/cktt/7/p.tgz''"
    by code_simp+
  then show ?thesis
    using install_after_check [OF fw_example_installs] by auto
qed

subsection \<open>A package with the wrong MD5\<close>

text \<open>
  When the printed MD5 does not contain the expected one, \<open>do_upgrade_firmware\<close> installs
  nothing and sends nothing to the unit: it logs the refusal, clears the task type, makes the report
  and returns 0, so that its caller sends that report as after a successful upgrade.
\<close>

theorem wrong_md5_refused:
  assumes "ub w = None" "\<not> contains (fw_type i) OTA_TASK_REBOOTED"
    and "a = env w (trace w @ [(Sys (FAppend (fw_log i) t1), env w (trace w) (Sys (FAppend (fw_log i) t1)))])
               (Sys (Popen (md5_cmd (fw_path i))))"
    and "t1 = ''start to check '' @ fw_name i @ '' md5'' @ [newline]"
    and "rc a \<noteq> 0" "\<not> shows_md5 i a"
  shows "fst (value_of (do_upgrade_firmware print i) w) = 0 \<and>
     fw_type (snd (value_of (do_upgrade_firmware print i) w)) = [] \<and>
     map fst (events (do_upgrade_firmware print i) w) =
       [Sys (FAppend (fw_log i) t1), Sys (Popen (md5_cmd (fw_path i))),
        Sys (FAppend (fw_log i) (''md5 not match, do not excute task '' @ id_str i @ '', ota failed'' @ [newline])),
        Sys LocalTime,
        Sys (Popen (snprintf 256 (''base64 '' @ fw_log i @ '' | tr -d '' @ quoted [newline, CHR 0x0D])))]"
proof -
  have "\<not> contains [] OTA_TASK_NOW" by (simp add: OTA_TASK_NOW_def)
  with assms show ?thesis
    unfolding events_def value_of_def
    by (simp add: do_upgrade_firmware_def fkz9_fw_trans_func_def fkz9_fw_update_func_def make_report_def local_md5_ok_def
        system_capture_def UPDATE_LOG_def md5_cmd_def shows_md5_def Let_def)
qed

definition bad_example :: FwUpdateInfo where
  "bad_example = fw_example\<lparr> fw_md5 := ''ffff'' \<rparr>"

theorem wrong_md5_refused_witness:
  "fst (value_of (do_upgrade_firmware (\<lambda>_. ''{}'') bad_example) fw_world) = 0 \<and>
   length (events (do_upgrade_firmware (\<lambda>_. ''{}'') bad_example) fw_world) = 5"
proof -
  have p: "ub fw_world = None" "\<not> contains (fw_type bad_example) OTA_TASK_REBOOTED"
    "rc (fw_env (Sys (Popen (md5_cmd (fw_path bad_example))))) \<noteq> 0"
    "\<not> shows_md5 bad_example (fw_env (Sys (Popen (md5_cmd (fw_path bad_example)))))" "env fw_world es = fw_env" for es
    by (simp add: fw_world_def, code_simp, code_simp, code_simp, simp add: fw_world_def)
  note t = wrong_md5_refused [OF p(1,2) refl refl, of "\<lambda>_. ''{}''", unfolded p(5), OF p(3,4)]
  show ?thesis
    using conjunct1 [OF t] arg_cong [OF conjunct2 [OF conjunct2 [OF t]], of length] by simp
qed

subsection \<open>Copying a file into the log\<close>

fun log_texts :: "bool \<Rightarrow> string \<Rightarrow> string list \<Rightarrow> string list" where
  "log_texts reset buf [] = []"
| "log_texts reset buf (c # cs) =
     c_str (overlay c buf) # log_texts reset (if reset then [] else overlay c buf) cs"

lemma run_log_blocks:
  assumes "ub w = None"
  shows "\<exists>b. run_state (log_blocks reset f buf cs) w =
     (b, w\<lparr> trace := trace w @ answers (env w) (trace w) (map (\<lambda>t. Sys (FAppend f t)) (log_texts reset buf cs)) \<rparr>)"
  using assms
proof (induction cs arbitrary: w buf)
  case (Cons c cs)
  let ?r = "Sys (FAppend f (c_str (overlay c buf)))"
  from Cons.IH [of "w\<lparr> trace := trace w @ [(?r, env w (trace w) ?r)] \<rparr>" "if reset then [] else overlay c buf"] Cons.prems
  show ?case by (auto simp: UPDATE_LOG_def)
qed simp

lemma c_str_id: "CHR 0x00 \<notin> set s \<Longrightarrow> c_str s = s"
  by (auto simp: c_str_def takeWhile_eq_all_conv)

lemma reset_texts: "CHR 0x00 \<notin> set s \<Longrightarrow> 0 < n \<Longrightarrow> concat (log_texts True [] (blocks_of n s)) = s"
proof (induction n s rule: blocks_of.induct)
  case (1 n s)
  show ?case
  proof (cases "s = []")
    case False
    with 1 have "CHR 0x00 \<notin> set (take n s)" "CHR 0x00 \<notin> set (drop n s)" by (auto dest: in_set_takeD in_set_dropD)
    with 1 False show ?thesis by (simp add: blocks_of.simps [of n s] overlay_def c_str_id)
  qed (simp add: blocks_of.simps)
qed

lemma stale_texts:
  "CHR 0x00 \<notin> set s \<Longrightarrow> CHR 0x00 \<notin> set buf \<Longrightarrow> length buf = n \<Longrightarrow> 0 < n \<Longrightarrow>
     concat (log_texts False buf (blocks_of n s)) = s \<longleftrightarrow> n dvd length s"
proof (induction n s arbitrary: buf rule: blocks_of.induct)
  case (1 n s)
  then have nul: "CHR 0x00 \<notin> set (take n s)" "CHR 0x00 \<notin> set (drop n s)" "CHR 0x00 \<notin> set (drop (length s) buf)"
    by (auto dest: in_set_takeD in_set_dropD)
  consider "s = []" | "s \<noteq> []" "length s < n" | "s \<noteq> []" "n \<le> length s" by linarith
  then show ?case
  proof cases
    case 1
    then show ?thesis by (simp add: blocks_of.simps)
  next
    case 2
    with nul 1 have "concat (log_texts False buf (blocks_of n s)) = s @ drop (length s) buf"
      by (simp add: blocks_of.simps [of n s] blocks_of.simps [of n "[]"] overlay_def c_str_id)
    with 2 1 show ?thesis by (auto dest: dvd_imp_le)
  next
    case 3
    with nul 1 have "concat (log_texts False buf (blocks_of n s)) =
        take n s @ concat (log_texts False (take n s) (blocks_of n (drop n s)))"
      by (simp add: blocks_of.simps [of n s] overlay_def c_str_id)
    moreover have "concat (log_texts False (take n s) (blocks_of n (drop n s))) = drop n s \<longleftrightarrow> n dvd length (drop n s)"
      using 3 1 nul by simp
    ultimately show ?thesis
      using 3 by (metis append_take_drop_id length_drop same_append_eq dvd_minus_self linorder_not_less)
  qed
qed

lemma texts_exact_iff:
  assumes "CHR 0x00 \<notin> set s" "0 < n"
  shows "concat (log_texts False [] (blocks_of n s)) = s \<longleftrightarrow> length s \<le> n \<or> n dvd length s"
proof (cases "length s \<le> n")
  case True
  then show ?thesis
    using assms by (cases "s = []") (simp_all add: blocks_of.simps [of n s] blocks_of.simps [of n "[]"] overlay_def c_str_id)
next
  case False
  have nul: "CHR 0x00 \<notin> set (take n s)" "CHR 0x00 \<notin> set (drop n s)"
    using assms(1) by (auto dest: in_set_takeD in_set_dropD)
  from False have "concat (log_texts False [] (blocks_of n s)) =
      take n s @ concat (log_texts False (take n s) (blocks_of n (drop n s)))"
    using nul assms(2) by (cases "s = []") (simp_all add: blocks_of.simps [of n s] overlay_def c_str_id)
  then have "concat (log_texts False [] (blocks_of n s)) = s \<longleftrightarrow> n dvd length s - n"
    using stale_texts [OF nul(2,1)] False assms(2) by (metis append_take_drop_id length_drop length_take linorder_le_cases min.absorb2 same_append_eq)
  with False show ?thesis by (metis dvd_minus_self linorder_le_cases not_less)
qed

definition appended :: "string \<Rightarrow> event list \<Rightarrow> string" where
  "appended f es = concat (map (\<lambda>e. case fst e of Sys (FAppend f' t) \<Rightarrow> if f' = f then t else [] | _ \<Rightarrow> []) es)"

lemma appended_answers:
  "appended f (answers e tr (map (\<lambda>t. Sys (FAppend f t)) ts)) = concat ts"
  by (induction ts arbitrary: tr) (simp_all add: appended_def)

text \<open>
  The log of the unit's upgrade is copied exactly if and only if it has at most 1023 bytes or a
  multiple of 1023: otherwise the loop, which does not clear its buffer, appends to the last block the
  rest of the one before. The loop that clears it (the \<open>wget\<close> log) copies every file exactly
  when its buffer is clear at the start.
\<close>

theorem log_copied_exactly_iff:
  assumes "ub w = None" "a = env w (trace w) (Sys (FOpen p ''r''))" "rc a \<noteq> 0" "CHR 0x00 \<notin> set (concat (out a))"
  shows "(appended f (events (copy_log False f p []) w) = concat (out a) \<longleftrightarrow>
           length (concat (out a)) \<le> 1023 \<or> 1023 dvd length (concat (out a))) \<and>
     appended f (events (copy_log True f p []) w) = concat (out a)"
proof -
  let ?s = "concat (out a)" and ?w = "w\<lparr> trace := trace w @ [(Sys (FOpen p ''r''), a)] \<rparr>"
  have run: "appended f (events (copy_log reset f p []) w) = concat (log_texts reset [] (blocks_of 1023 ?s))" for reset
  proof -
    obtain b where "run_state (log_blocks reset f [] (blocks_of 1023 ?s)) ?w = (b, ?w\<lparr> trace := trace ?w @
        answers (env w) (trace ?w) (map (\<lambda>t. Sys (FAppend f t)) (log_texts reset [] (blocks_of 1023 ?s))) \<rparr>)"
      using run_log_blocks [of ?w reset f "[]" "blocks_of 1023 ?s"] assms(1) by auto
    then have "events (copy_log reset f p []) w = (Sys (FOpen p ''r''), a) #
        answers (env w) (trace ?w) (map (\<lambda>t. Sys (FAppend f t)) (log_texts reset [] (blocks_of 1023 ?s))) @
        [(Sys (FClose (length (trace w))), env w (trace ?w @
           answers (env w) (trace ?w) (map (\<lambda>t. Sys (FAppend f t)) (log_texts reset [] (blocks_of 1023 ?s)))) (Sys (FClose (length (trace w)))))]"
      using assms(1-3) by (simp add: events_def copy_log_def)
    then show ?thesis
      using appended_answers [of f] by (simp add: appended_def)
  qed
  with texts_exact_iff [OF assms(4), of 1023] reset_texts [OF assms(4), of 1023] show ?thesis by simp
qed

theorem log_copied_exactly_iff_witness:
  "appended ''l'' (events (copy_log False ''l'' ''p'' [])
     \<lparr> env = \<lambda>_ _. \<lparr> rc = 1, vl = 0, out = [replicate 1024 CHR ''x''] \<rparr>, localtime = \<lambda>_. tm_example, trace = [], ub = None \<rparr>)
   \<noteq> replicate 1024 CHR ''x''"
proof -
  have "\<not> (1023::nat) dvd 1024" by presburger
  then show ?thesis
    using log_copied_exactly_iff [of "\<lparr> env = \<lambda>_ _. \<lparr> rc = 1, vl = 0, out = [replicate 1024 CHR ''x''] \<rparr>,
        localtime = \<lambda>_. tm_example, trace = [], ub = None \<rparr>", OF _ refl, of "''p''" "''l''"]
    by simp
qed

subsection \<open>Every listed file is sent to the cloud\<close>

fun is_post :: "request \<Rightarrow> bool" where
  "is_post (Curl (CurlPost _ _ _)) = True"
| "is_post _ = False"

definition posts :: "'a io \<Rightarrow> world \<Rightarrow> nat" where
  "posts m w = length (filter (\<lambda>e. is_post (fst e)) (events m w))"

lemma posts_bind:
  "wf_io m \<Longrightarrow> (\<And>x. wf_io (f x)) \<Longrightarrow>
     posts (State_Monad.bind m f) w = posts m w + posts (f (value_of m w)) (snd (run_state m w))"
  by (simp add: posts_def events_bind)

lemma posts_none: "emits (\<lambda>r. \<not> is_post r) m \<Longrightarrow> posts m w = 0"
  by (auto simp: emits_def posts_def filter_empty_conv)

lemma posts_one: "ub w = None \<Longrightarrow> ub (snd (run_state (do_file_upload print u resp) w)) = None \<Longrightarrow>
    posts (do_file_upload print u resp) w = 1"
  by (auto simp: posts_def events_def do_file_upload_def create_file_upload_data_def http_post_request_def
      check_io_def fault_io_def Let_def split: if_splits option.splits)

lemma ssh_not_post: "is_ssh r \<Longrightarrow> \<not> is_post r"
  by (cases r) auto

lemma posts_zero [simp]:
  "posts (SSHClient_Execute c cmd o' cap) w = 0" "posts (SSHClient_DownloadFile c r l) w = 0"
  "posts (scan_field vs fi cap old) w = 0" "posts (system_capture cmd n old) w = 0" "posts (UPDATE_LOG f t) w = 0"
  "posts (check_io b e) w = 0" "posts (ret x) w = 0" "posts (count_lines c p num) w = 0"
  unfolding scan_field_def count_lines_def
  by (rule posts_none; intro emits_intros; simp add: ssh_not_post)+

lemma conf_file_posts:
  assumes "fst (value_of (conf_file print c i k fp) w) = 0" "ub (snd (run_state (conf_file print c i k fp) w)) = None"
  shows "posts (conf_file print c i k fp) w = 1"
  using assms
  by (auto simp: conf_file_def posts_bind no_fault_bind posts_one case_prod_beta Let_def wf_io_intros
      simp del: run_state_bind split: if_splits)

lemma conf_files_posts:
  assumes "fst (value_of (until_error (conf_file print c i) ks fp) w) = 0"
    and "ub (snd (run_state (until_error (conf_file print c i) ks fp) w)) = None"
  shows "posts (until_error (conf_file print c i) ks fp) w = length ks"
  using assms
  by (induction ks arbitrary: fp w)
    (auto simp: posts_bind no_fault_bind conf_file_posts case_prod_beta wf_io_intros
      simp del: run_state_bind split: if_splits)


definition post_env :: "request \<Rightarrow> response" where
  "post_env r = (case r of
       Ssh (ChanNew _) \<Rightarrow> \<lparr> rc = 1, vl = 0, out = [] \<rparr>
     | Ssh (ChanExec _ cmd) \<Rightarrow> \<lparr> rc = 0, vl = 0, out = [if starts_with ''wc'' cmd then ''1 c'' else ''7,/a,/b,''] \<rparr>
     | Sftp (SftpOpenR _ _) \<Rightarrow> \<lparr> rc = 1, vl = 0, out = [''x''] \<rparr>
     | Sys (FOpen _ _) \<Rightarrow> \<lparr> rc = 1, vl = 0, out = [] \<rparr>
     | Curl CurlInit \<Rightarrow> \<lparr> rc = 1, vl = 0, out = [] \<rparr>
     | Curl (CurlPost _ _ _) \<Rightarrow> \<lparr> rc = 0, vl = 0, out = [''SUCCESS''] \<rparr>
     | _ \<Rightarrow> \<lparr> rc = 0, vl = 0, out = [] \<rparr>)"

definition post_world :: world where
  "post_world = \<lparr> env = \<lambda>_. post_env, localtime = \<lambda>_. tm_example, trace = [], ub = None \<rparr>"

definition post_client :: SSHClient where
  "post_client = \<lparr> host = ''h'', username = ''u'', password = ''p'', session = Some 100, sftp = Some 101 \<rparr>"

lemma post_world_simps [simp]: "ub post_world = None" "trace post_world = []" "env post_world es = post_env"
  by (simp_all add: post_world_def)

lemmas session_run = SSHClient_Execute_def SSHClient_DownloadFile_def append_blocks_eq c_str_def first_line_def newline_def
  post_env_def post_client_def sed_line_def snprintf_def

lemmas scan_run = three_fields_def scan_field_def scan_digits_def is_digit_def skip_ws_def is_ws_def
  get_int_def get_str_def strtol_sat_def digit_val_def

lemma strip_example: "strip_slashes ''/a'' = ''/a''"
  by code_simp

lemma post_example_run:
  "\<exists>w'. run_state (upload_conf_files (\<lambda>_. ''{}'') post_client fw_example) post_world = ((0, 1, ''/a''), w') \<and> ub w' = None"
  by (simp add: Let_def strip_example upload_conf_files_def count_lines_def conf_file_def turns_def session_run scan_run
      system_capture_def do_file_upload_def create_file_upload_data_def http_post_request_def check_io_def UPDATE_LOG_def
      post_write_callback_def)


end
