(* ===== verification/CloudComm.thy ===== *)
theory CloudComm
  imports Fkz9Comm Firmware
begin

text \<open>
  \<open>services/cloud_comm.c\<close>, the command side: bytes from the cloud connection are queued by
  \<open>proc_message_cb\<close>, and the event task takes them one by one, checks them and looks their sign up
  in the table the linker collects from all files (the entry of this file first, then those of
  \<open>fkz9_comm.c\<close>). The one command handled here is the request for a wave file: fetch it from the unit
  by SFTP, upload it by FTP, answer.
\<close>

definition sizeof_WaveFileReq :: nat where "sizeof_WaveFileReq = 7"

definition WAVE_FILE_REMOTE_PATH :: string where "WAVE_FILE_REMOTE_PATH = ''/upload/fkz9/wavedat/''"
definition WAVE_FILE_LOCAL_PATH :: string where "WAVE_FILE_LOCAL_PATH = ''/upload/cktt/wavedat/''"
definition FTP_SERVER_URL :: string where "FTP_SERVER_URL = ''ftp://152.136.194.95''"
definition FTP_SERVER_USER :: string where "FTP_SERVER_USER = ''ovp''"
definition FTP_SERVER_PASS :: string where "FTP_SERVER_PASS = ''abcd1234''"

subsection \<open>The wave file answer\<close>

definition WaveFileResp :: "DevBaseInfo \<Rightarrow> CustomTime \<Rightarrow> bytes" where
  "WaveFileResp b t =
     le16 (db_to_bcd (dev_addr b)) @
     [year_bcd t, byte_to_bcd (ucMonth t), byte_to_bcd (ucDay t), byte_to_bcd (ucHour t),
      byte_to_bcd (ucMinute t), 0]"

text \<open>The buffer is not cleared; every byte of the frame is assigned.\<close>

definition func_wave_file_resp :: "int app" where
  "func_wave_file_resp = do {
     b \<leftarrow> gets base_info;
     t \<leftarrow> io read_clock;
     let buf = frame_in (replicate 64 0) MSG_SIGN_WAVE_FILE_RESP (WaveFileResp b t)
     in do { client_send buf (length buf); pure 0 } }"

subsection \<open>The wave file request\<close>

text \<open>\<open>WaveFileReq\<close> after the header, with its BCD fields converted.\<close>

record wave_req =
  w_addr :: nat
  w_year :: nat
  w_month :: nat
  w_day :: nat
  w_hour :: nat
  w_minute :: nat

definition WaveFileReq_at :: "bytes \<Rightarrow> wave_req" where
  "WaveFileReq_at arg =
     \<lparr> w_addr = nat (bcd_to_db (of_le16 (arg ! 5) (arg ! 6))),
       w_year = nat (bcd_to_byte (arg ! 7) + 2000),
       w_month = nat (bcd_to_byte (arg ! 8)), w_day = nat (bcd_to_byte (arg ! 9)),
       w_hour = nat (bcd_to_byte (arg ! 10)), w_minute = nat (bcd_to_byte (arg ! 11)) \<rparr>"

definition day_str :: "wave_req \<Rightarrow> string" where
  "day_str r = dec0 4 (w_year r) @ dec0 2 (w_month r) @ dec0 2 (w_day r)"

definition r_folder :: "wave_req \<Rightarrow> string" where
  "r_folder r = snprintf 128 (WAVE_FILE_REMOTE_PATH @ day_str r @ ''/'' @ day_str r @ dec0 2 (w_hour r) @ ''/'')"

definition file_name :: "wave_req \<Rightarrow> string" where
  "file_name r = snprintf 64 (dec0 4 (w_addr r) @ ''-wavedat-'' @ day_str r @ dec0 2 (w_hour r) @
     dec0 2 (w_minute r) @ ''.dat.gz'')"

definition l_path :: "wave_req \<Rightarrow> string" where
  "l_path r = snprintf 128 (WAVE_FILE_LOCAL_PATH @ day_str r @ dec0 2 (w_hour r) @ ''/'' @ file_name r)"

definition r_path :: "wave_req \<Rightarrow> string" where
  "r_path r = snprintf 256 (r_folder r @ file_name r)"

definition mkdir_cmd :: "wave_req \<Rightarrow> string" where
  "mkdir_cmd r = snprintf 140 (''mkdir -p '' @ WAVE_FILE_LOCAL_PATH @ day_str r @ dec0 2 (w_hour r))"

definition ftp_path :: "wave_req \<Rightarrow> string" where
  "ftp_path r = snprintf 128 (''/'' @ dec0 4 (w_addr r) @ ''/wavefile/'' @ dec0 4 (w_year r) @ dec0 2 (w_month r) @
     ''/'' @ dec0 2 (w_day r) @ ''/'' @ dec0 2 (w_hour r) @ ''/'' @ dec0 4 (w_addr r) @ ''-wavedat-'' @ day_str r @
     dec0 2 (w_hour r) @ dec0 2 (w_minute r) @ ''.dat.gz'')"

text \<open>The part of \<open>func_wave_file_req\<close> up to the file's arrival: 0 when it was downloaded.\<close>

definition fetch_wave_file :: "wave_req \<Rightarrow> int io" where
  "fetch_wave_file r = do {
     system_run (mkdir_cmd r);
     c \<leftarrow> SSHClient_Init SERVER_IP SERVER_USERNAME SERVER_PASSWORD;
     (ok, c) \<leftarrow> SSHClient_Connect c;
     if ok \<noteq> 0 then do { SSHClient_Destroy c; ret (-1) }
     else do {
       d \<leftarrow> SSHClient_DownloadFile c (r_path r) (l_path r);
       SSHClient_Destroy c;
       ret (if d \<noteq> 0 then -1 else 0) } }"

definition func_wave_file_req :: "bytes \<Rightarrow> int app" where
  "func_wave_file_req arg = (let r = WaveFileReq_at arg in io (do {
     d \<leftarrow> fetch_wave_file r;
     if d \<noteq> 0 then ret (-1)
     else do {
       u \<leftarrow> ftp_upload FTP_SERVER_URL (l_path r) (Some (ftp_path r)) FTP_SERVER_USER FTP_SERVER_PASS;
       if u \<noteq> 0 then ret (-1)
       else do { system_run ''rm -rf /upload''; ret 0 } } }))"

subsection \<open>Receive and dispatch\<close>

text \<open>An entry of the table: sign, handler, callback after success.\<close>

type_synonym MsgProcInf = "u8 \<times> (bytes \<Rightarrow> int app) \<times> int app option"

definition message_processing :: "MsgProcInf list" where
  "message_processing =
     (174, func_wave_file_req, Some func_wave_file_resp) # map (\<lambda>(s, f). (s, f, None)) fkz9_message_table"

definition proc_message_cb :: "bytes \<Rightarrow> unit app" where
  "proc_message_cb buf =
     (if buf = [] then pure ()
      else do {
        ok \<leftarrow> gets cloud_set;
        if \<not> ok then fault_app NullDeref
        else do {
          q \<leftarrow> gets event_queue;
          case enqueue q buf (length buf) of
            Inl e \<Rightarrow> fault_app e
          | Inr (_, q') \<Rightarrow> modify (\<lambda>s. s\<lparr> event_queue := q' \<rparr>) } })"

text \<open>\<open>for (; start != end; start++)\<close>: the position of the first entry with the sign, or the end.\<close>

fun find_entry :: "MsgProcInf list \<Rightarrow> u8 \<Rightarrow> nat \<Rightarrow> nat" where
  "find_entry [] sign start = start"
| "find_entry (e # tbl) sign start = (if fst e = sign then start else find_entry tbl sign (start + 1))"

text \<open>\<open>pFuncEntry(buf)\<close>, and the callback when it returned 0.\<close>

definition handle_entry :: "MsgProcInf \<Rightarrow> bytes \<Rightarrow> unit app" where
  "handle_entry e buf = do {
     r \<leftarrow> fst (snd e) buf;
     (case snd (snd e) of None \<Rightarrow> pure ()
      | Some cb \<Rightarrow> if r = 0 then do { cb; pure () } else pure ()) }"

text \<open>
  One turn of \<open>cloud_event_task_entry\<close>. Its locals survive the turn: the buffer of 256 bytes and the
  table position \<open>start\<close>, which is set once, before the loop.
\<close>

definition cloud_event_turn :: "MsgProcInf list \<Rightarrow> nat \<times> bytes \<Rightarrow> (nat \<times> bytes) app" where
  "cloud_event_turn tbl = (\<lambda>(start, buf). do {
     q \<leftarrow> gets event_queue;
     case dequeue q buf 0 of
       Inl e \<Rightarrow> do { fault_app e; pure (start, buf) }
     | Inr (r, buf', len, q') \<Rightarrow>
         if r \<noteq> 0 then pure (start, buf)
         else do {
           modify (\<lambda>s. s\<lparr> event_queue := q' \<rparr>);
           case cloud_check buf' of
             Inl e \<Rightarrow> do { fault_app e; pure (start, buf') }
           | Inr False \<Rightarrow> pure (start, buf')
           | Inr True \<Rightarrow>
               let i = find_entry (drop start tbl) (ucSign (MsgFramHdr_at buf')) start
               in if length tbl \<le> i then pure (i, buf')
                  else do { handle_entry (tbl ! i) buf'; pure (i, buf') } } })"

fun cloud_event_turns :: "MsgProcInf list \<Rightarrow> nat \<Rightarrow> nat \<times> bytes \<Rightarrow> (nat \<times> bytes) app" where
  "cloud_event_turns tbl 0 l = pure l"
| "cloud_event_turns tbl (Suc n) l = do { l' \<leftarrow> cloud_event_turn tbl l; cloud_event_turns tbl n l' }"

subsection \<open>Dispatch\<close>

lemma find_entry_bounds: "start \<le> find_entry tbl sign start \<and> find_entry tbl sign start \<le> start + length tbl"
proof (induction tbl arbitrary: start)
  case Nil
  show ?case by simp
next
  case (Cons e tbl)
  from Cons.IH [of "start + 1"] show ?case by auto
qed

lemma find_entry_end: "sign \<notin> fst ` set tbl \<Longrightarrow> find_entry tbl sign start = start + length tbl"
  by (induction tbl arbitrary: start) auto

lemma find_entry_found:
  "find_entry tbl sign start < start + length tbl \<Longrightarrow> fst (tbl ! (find_entry tbl sign start - start)) = sign"
proof (induction tbl arbitrary: start)
  case Nil
  then show ?case by simp
next
  case (Cons e tbl)
  with find_entry_bounds [of "start + 1" tbl sign] show ?case
    by (auto simp: nth_Cons' Suc_diff_le)
qed

lemma event_dequeue:
  assumes "queue_inv 256 q" "contents q = m # ms" "length buf = 256"
  obtains q' where "dequeue q buf n = Inr (0, m @ drop (length m) buf, length m, q')"
    "queue_inv 256 q'" "contents q' = ms"
  using dequeue_first [OF assms(1,2), of buf n] assms(3) by auto



text \<open>
  Once a command has moved the table position past an entry, commands for that entry are ignored
  for the rest of the program: with the position at or past every entry for the signs that arrive,
  any number of turns over any received bytes changes nothing but the event queue and, on a malformed
  length, the fault state; no handler runs, nothing is sent or published.
\<close>

theorem cloud_dispatch_deaf:
  assumes "length tbl \<le> start"
  shows "\<exists>q u. snd (run_state (cloud_event_turns tbl n (start, buf)) s) =
     s\<lparr> event_queue := q, wld := (wld s)\<lparr> ub := u \<rparr> \<rparr>"
proof -
  have turn: "\<exists>q u buf'. run_state (cloud_event_turn tbl (start, buf)) s =
      ((start, buf'), s\<lparr> event_queue := q, wld := (wld s)\<lparr> ub := u \<rparr> \<rparr>)" for buf s
  proof (cases "dequeue (event_queue s) buf 0")
    case (Inl e)
    then show ?thesis
      by (cases s, cases "wld s")
        (auto simp: cloud_event_turn_def intro!: exI [of _ "event_queue s"] exI [of _ "if ub (wld s) = None then Some e else ub (wld s)"])
  next
    case (Inr x)
    obtain r b l q where "x = (r, b, l, q)" by (cases x)
    with Inr assms show ?thesis
      by (cases s, cases "wld s")
        (auto simp: cloud_event_turn_def Let_def split: sum.split bool.split)
  qed
  show ?thesis
  proof (induction n arbitrary: buf s)
    case 0
    show ?case
      by (cases s, cases "wld s") auto
  next
    case (Suc n)
    obtain q u buf' where t: "run_state (cloud_event_turn tbl (start, buf)) s =
      ((start, buf'), s\<lparr> event_queue := q, wld := (wld s)\<lparr> ub := u \<rparr> \<rparr>)" using turn by blast
    from Suc.IH [of buf' "s\<lparr> event_queue := q, wld := (wld s)\<lparr> ub := u \<rparr> \<rparr>"] show ?case
      by (auto simp: t)
  qed
qed

theorem cloud_dispatch_deaf_witness:
  "\<exists>q u. snd (run_state (cloud_event_turns message_processing 5 (12, replicate 256 0)) app_example) =
     app_example\<lparr> event_queue := q, wld := (wld app_example)\<lparr> ub := u \<rparr> \<rparr>"
  by (rule cloud_dispatch_deaf) (simp add: message_processing_def fkz9_message_table_def)

subsection \<open>From the connection to the event queue\<close>

text \<open>
  The connection's read callback hands over at most 1024 bytes, the event queue's segments hold
  256: a delivery of up to 256 bytes is queued whole (or dropped when 63 wait), a longer one overruns
  the heap block; before the context pointer is set, any delivery dereferences null.
\<close>

theorem delivery_to_event_queue:
  assumes "tcp_client_read_cb c avail = Some m" "queue_inv 256 (event_queue s)" "ub (wld s) = None"
  shows "length m \<le> 1024 \<and>
     (let s' = snd (run_state (proc_message_cb m) s)
      in if \<not> cloud_set s then app_ub s' = Some NullDeref
         else if length (contents (event_queue s)) = 63 then app_ub s' = None \<and> contents (event_queue s') = contents (event_queue s)
         else if 256 < length m then app_ub s' = Some BufferOverflow
         else app_ub s' = None \<and> contents (event_queue s') = contents (event_queue s) @ [m])"
proof -
  have m: "m = take 1024 avail" "m \<noteq> []"
    using assms(1) by (auto simp: tcp_client_read_cb_def Let_def split: if_splits)
  let ?q = "event_queue s"
  have full: "length (contents ?q) = 63 \<Longrightarrow> enqueue ?q m (length m) = Inr (-1, ?q)"
    using enqueue_full [OF assms(2)] by simp
  have over: "length (contents ?q) \<noteq> 63 \<Longrightarrow> 256 < length m \<Longrightarrow> enqueue ?q m (length m) = Inl BufferOverflow"
    using enqueue_overflow [OF assms(2), of "length m" m] ring.within_cap [OF assms(2)] by simp
  have fits: "length (contents ?q) \<noteq> 63 \<Longrightarrow> \<not> 256 < length m \<Longrightarrow>
      \<exists>q'. enqueue ?q m (length m) = Inr (0, q') \<and> contents q' = contents ?q @ [m]"
    using enqueue_accept [OF assms(2), of "length m" m] ring.within_cap [OF assms(2)] by auto
  show ?thesis
    using m full over fits assms(3)
    by (auto simp: proc_message_cb_def Let_def app_ub_def simp del: length_contents)
qed

theorem delivery_to_event_queue_witness:
  "app_ub (snd (run_state (proc_message_cb (replicate 300 0)) app_example)) = Some BufferOverflow"
  using delivery_to_event_queue [of "(cl tcp_up)" "replicate 300 0" "replicate 300 0" app_example]
    queue_example_inv
  by (simp add: tcp_client_read_cb_def tcp_up_eq tcp_start_def tcp_client_register_cb_def Let_def)

subsection \<open>Wave files\<close>

lemma emits_ftp_upload [emits_intros]:
  assumes "P (Curl CurlInit)" "P (Sys (StatPath l))" "P (Sys (FOpen l ''rb''))" "\<And>h. P (Curl (CurlCleanup h))"
    "\<And>h. P (Sys (FClose h))"
    "\<And>h d n. P (Curl (CurlPut h (case r of None \<Rightarrow> url | Some p \<Rightarrow> url @ p) (u @ '':'' @ p) d n))"
  shows "emits P (ftp_upload url l r u p)"
  unfolding ftp_upload_def by (intro emits_intros assms)

fun is_put :: "request \<Rightarrow> bool" where
  "is_put (Curl (CurlPut _ _ _ _ _)) = True"
| "is_put _ = False"

lemma fetch_no_put: "emits (\<lambda>r. \<not> is_put r) (fetch_wave_file r)"
proof -
  have "is_ssh r \<Longrightarrow> \<not> is_put r" for r by (cases r rule: is_ssh.cases) auto
  then show ?thesis
    unfolding fetch_wave_file_def by (intro emits_intros) auto
qed

lemma fetch_success:
  assumes "ub w = None" "value_of (fetch_wave_file r) w = 0" "ub (snd (run_state (fetch_wave_file r) w)) = None"
  shows "\<exists>sf a. (Sftp (SftpOpenR sf (r_path r)), a) \<in> set (events (fetch_wave_file r) w) \<and> rc a \<noteq> 0 \<and> 0 \<le> vl a"
proof -
  define w1 where "w1 = snd (run_state (system_run (mkdir_cmd r)) w)"
  define c0 where "c0 = value_of (SSHClient_Init SERVER_IP SERVER_USERNAME SERVER_PASSWORD) w1"
  define w2 where "w2 = snd (run_state (SSHClient_Init SERVER_IP SERVER_USERNAME SERVER_PASSWORD) w1)"
  obtain ok c where c: "value_of (SSHClient_Connect c0) w2 = (ok, c)" by fastforce
  define w3 where "w3 = snd (run_state (SSHClient_Connect c0) w2)"
  define w4 where "w4 = snd (run_state (SSHClient_DownloadFile c (r_path r) (l_path r)) w3)"
  have ok: "ok = 0" and d: "value_of (SSHClient_DownloadFile c (r_path r) (l_path r)) w3 = 0"
    using assms(2) c
    by (simp_all add: fetch_wave_file_def w1_def [symmetric] c0_def [symmetric] w2_def [symmetric]
        w3_def [symmetric] split: if_splits)
  have "ub (snd (run_state (SSHClient_Destroy c) w4)) = None"
    using assms(3) c ok
    by (simp add: fetch_wave_file_def snd_bind w1_def [symmetric] c0_def [symmetric] w2_def [symmetric]
        w3_def [symmetric] w4_def [symmetric] del: run_state_bind)
  then have "ub w4 = None" by (rule fault_stays [OF wf_ssh(7)])
  moreover from this have "ub w3 = None" unfolding w4_def by (rule fault_stays [OF wf_ssh(6)])
  ultimately obtain sf a where
    "(Sftp (SftpOpenR sf (r_path r)), a) \<in> set (events (SSHClient_DownloadFile c (r_path r) (l_path r)) w3)"
    "rc a \<noteq> 0" "0 \<le> vl a"
    using download_success [OF _ d] unfolding w4_def by blast
  moreover have "e \<in> set (events (SSHClient_DownloadFile c (r_path r) (l_path r)) w3) \<Longrightarrow>
      e \<in> set (events (fetch_wave_file r) w)" for e
    using c ok unfolding fetch_wave_file_def
    by (subst in_events_bind, (intro wf_io_intros)+)+
      (simp add: w1_def [symmetric] c0_def [symmetric] w2_def [symmetric] w3_def [symmetric],
       subst in_events_bind, (intro wf_io_intros)+, simp)
  ultimately show ?thesis by blast
qed


definition wave_env :: "request \<Rightarrow> response" where
  "wave_env r = (case r of
       Ssh SshNew \<Rightarrow> \<lparr> rc = 1, vl = 0, out = [] \<rparr> | Sftp (SftpNew _) \<Rightarrow> \<lparr> rc = 1, vl = 0, out = [] \<rparr>
     | Sftp (SftpOpenR _ _) \<Rightarrow> \<lparr> rc = 1, vl = 0, out = [''wave''] \<rparr>
     | Sys (FOpen _ _) \<Rightarrow> \<lparr> rc = 1, vl = 0, out = [''wave''] \<rparr> | Sys (Popen _) \<Rightarrow> \<lparr> rc = 1, vl = 0, out = [] \<rparr>
     | Curl CurlInit \<Rightarrow> \<lparr> rc = 1, vl = 0, out = [] \<rparr> | _ \<Rightarrow> \<lparr> rc = 0, vl = 0, out = [] \<rparr>)"

definition wave_app :: App where
  "wave_app = app_example\<lparr> wld := quiet_world\<lparr> env := \<lambda>_. wave_env \<rparr> \<rparr>"

definition wave_arg :: bytes where
  "wave_arg = frame 0xAE [0x02, 0x20, 0x25, 0x05, 0x12, 0x15, 0x44]"


lemma length_WaveFileResp [simp]: "length (WaveFileResp b t) = 8"
  by (simp add: WaveFileResp_def)

text \<open>
  The answer to a served wave file request is one frame of 15 bytes on the cloud connection that
  passes the check, with sign 0xAF, the BCD device address and local time down to the minute, and code 0.
\<close>

theorem wave_file_answer:
  assumes "queue_inv 1400 (tx_queue (client s))" "is_connected (client s)"
    and "length (contents (tx_queue (client s))) < 63" "ub (wld s) = None" "unat (dev_addr (base_info s)) < 16000"
    and "t = localtime (wld s) (vl (env (wld s) (trace (wld s)) (Sys LocalTime)))" "valid_tm t"
  shows "\<exists>f. contents (tx_queue (client (snd (run_state func_wave_file_resp s)))) =
       contents (tx_queue (client s)) @ [f] \<and>
     length f = 15 \<and> cloud_check f = Inr True \<and> ucSign (MsgFramHdr_at f) = MSG_SIGN_WAVE_FILE_RESP \<and>
     bcd_to_db (of_le16 (f ! 5) (f ! 6)) = int (unat (dev_addr (base_info s))) \<and>
     map bcd_to_byte (take 6 (drop 7 f)) =
       [tm_year t - 100, tm_mon t + 1, tm_mday t, tm_hour t, tm_min t, 0]"
proof -
  let ?b = "base_info s"
  let ?p = "WaveFileResp ?b (get_system_time t)"
  let ?f = "frame MSG_SIGN_WAVE_FILE_RESP ?p"
  define s1 where "s1 = s\<lparr> wld := (wld s)\<lparr> trace := trace (wld s) @ [(Sys LocalTime, env (wld s) (trace (wld s)) (Sys LocalTime))] \<rparr> \<rparr>"
  have fr: "frame_in (replicate 64 0) MSG_SIGN_WAVE_FILE_RESP ?p = ?f"
    by (rule frame_in_frame) simp
  obtain q where q: "run_state (client_send ?f 15) s1 = (0, s1\<lparr> client := (client s1)\<lparr> tx_queue := q \<rparr> \<rparr>)"
    "contents q = contents (tx_queue (client s)) @ [?f]"
    using client_send_connected [of s1 15 ?f] assms(1-3) by (auto simp: s1_def)
  have "contents (tx_queue (client (snd (run_state func_wave_file_resp s)))) = contents (tx_queue (client s)) @ [?f]"
    using q assms(4) fr unfolding s1_def
    by (simp add: func_wave_file_resp_def value_of_def Let_def assms(6) [symmetric])
  moreover have "cloud_check ?f = Inr True"
    using frame_checks [of ?p MSG_SIGN_WAVE_FILE_RESP "[]"] by simp
  moreover have "?f ! 5 = ucast (db_to_bcd (dev_addr ?b))" "?f ! 6 = ucast (drop_bit 8 (db_to_bcd (dev_addr ?b)))"
    using nth_frame [of 0 ?p] nth_frame [of 1 ?p] by (simp_all add: WaveFileResp_def le16_def)
  moreover have "take 6 (drop 7 ?f) = [year_bcd (get_system_time t), byte_to_bcd (ucMonth (get_system_time t)),
      byte_to_bcd (ucDay (get_system_time t)), byte_to_bcd (ucHour (get_system_time t)),
      byte_to_bcd (ucMinute (get_system_time t)), 0]"
    by (simp add: frame_def Let_def WaveFileResp_def le16_def hdr_bytes_def)
  moreover have "bcd_to_byte 0 = 0" by (simp add: bcd_to_byte_def)
  ultimately show ?thesis
    using bcd_db_id [of "dev_addr ?b"] assms(5) get_system_time_fields [OF assms(7)] year_bcd_value [OF assms(7)]
    by (intro exI [of _ ?f]) simp
qed

theorem wave_file_answer_witness:
  "\<exists>f. contents (tx_queue (client (snd (run_state func_wave_file_resp app_example)))) = [f] \<and>
     bcd_to_db (of_le16 (f ! 5) (f ! 6)) = 2002"
  using wave_file_answer [of app_example tm_example] tcp_up_facts
  by (auto simp: info_example_def tm_example_def valid_tm_def simp flip: length_contents)

end
