(* ===== verification/Gpio.thy ===== *)
theory Gpio
  imports Shell
begin

text \<open>
  \<open>hal/led.c\<close> and the macros of \<open>hal/led.h\<close>: the run and the fault LED, each a GPIO of the \<open>sysfs\<close>
  tree with a descriptor for its direction and one for its value. A negative descriptor is \<open>None\<close>.
  The operations, which descriptors they leave open, and what the pin shows.
\<close>

record GpioController =
  gpio_num :: string
  fd_value :: "nat option"
  fd_dir :: "nat option"
  pin :: int

definition GPIO_SYSFS_PATH :: string where "GPIO_SYSFS_PATH = ''/sys/class/gpio/''"
definition SYS_RUN_LED_PIN_NUM :: string where "SYS_RUN_LED_PIN_NUM = ''104''"
definition SYS_FAULT_LED_PIN_NUM :: string where "SYS_FAULT_LED_PIN_NUM = ''103''"

text \<open>
  What \<open>write(fd, s, sizeof(s))\<close> sends when \<open>s\<close> is a pointer: eight bytes, the string, its NUL, and then
  what lies behind it in memory, \<open>beyond s\<close>.
\<close>

definition ptr_bytes :: "(string \<Rightarrow> string) \<Rightarrow> string \<Rightarrow> string" where
  "ptr_bytes beyond s = take 8 (s @ [CHR 0x00] @ beyond s)"

definition gpio_path :: "string \<Rightarrow> string \<Rightarrow> string" where
  "gpio_path num file = snprintf 64 (GPIO_SYSFS_PATH @ ''gpio'' @ num @ file)"

text \<open>When the value file cannot be opened the direction file is closed, but its descriptor stays.\<close>

definition open_files :: "GpioController \<Rightarrow> (int \<times> GpioController) io" where
  "open_files g = do {
     d \<leftarrow> call_handle (Dev (DevOpen (gpio_path (gpio_num g) ''/direction'')));
     case d of None \<Rightarrow> ret (-1, g)
     | Some h \<Rightarrow> do {
         v \<leftarrow> call_handle (Dev (DevOpen (gpio_path (gpio_num g) ''/value'')));
         case v of None \<Rightarrow> do { tell (Dev (DevClose h)); ret (-1, g\<lparr> fd_dir := d \<rparr>) }
         | Some _ \<Rightarrow> ret (0, g\<lparr> fd_dir := d, fd_value := v \<rparr>) } }"

definition GpioController_Init :: "(string \<Rightarrow> string) \<Rightarrow> string \<Rightarrow> GpioController \<Rightarrow> (int \<times> GpioController) io" where
  "GpioController_Init beyond num g0 = (let g = g0\<lparr> gpio_num := num, fd_value := None, fd_dir := None \<rparr> in do {
     e \<leftarrow> call_handle (Dev (DevOpen ''/sys/class/gpio/export''));
     case e of None \<Rightarrow> ret (-1, g)
     | Some h \<Rightarrow> do {
         a \<leftarrow> call (Dev (DevWrite h (ptr_bytes beyond num)));
         tell (Dev (DevClose h));
         if rc a < 0 then ret (-1, g) else open_files g } })"

definition GpioController_SetDirection :: "(string \<Rightarrow> string) \<Rightarrow> GpioController \<Rightarrow> string \<Rightarrow> int io" where
  "GpioController_SetDirection beyond g direction =
     (case fd_dir g of None \<Rightarrow> ret (-1)
      | Some h \<Rightarrow> do {
          a \<leftarrow> call (Dev (DevWrite h (ptr_bytes beyond direction)));
          ret (if rc a < 0 then -1 else 0) })"

definition GpioController_SetValue :: "GpioController \<Rightarrow> int \<Rightarrow> (int \<times> GpioController) io" where
  "GpioController_SetValue g v =
     (case fd_value g of None \<Rightarrow> ret (-1, g)
      | Some h \<Rightarrow> do {
          a \<leftarrow> call (Dev (DevWrite h (if v \<noteq> 0 then ''1'' else ''0'')));
          ret (if rc a < 0 then (-1, g) else (0, g\<lparr> pin := v \<rparr>)) })"

text \<open>
  \<open>atoi(&buf)\<close> of one character: white space, a sign or a digit makes it read on, behind the variable.
  \<open>buf\<close> is what the variable holds when nothing was read.
\<close>

definition reads_on :: "char \<Rightarrow> bool" where
  "reads_on c \<longleftrightarrow> c \<in> set '' 0123456789+-'' \<or> of_char c \<in> {9..13::nat}"

definition GpioController_GetValue :: "char \<Rightarrow> GpioController \<Rightarrow> int \<Rightarrow> (int \<times> int) io" where
  "GpioController_GetValue buf g old =
     (case fd_value g of None \<Rightarrow> ret (-1, old)
      | Some h \<Rightarrow> do {
          a \<leftarrow> call (Dev (DevRead h 1));
          if rc a < 0 then ret (-1, old)
          else do {
            let c = (case concat (out a) of [] \<Rightarrow> buf | x # _ \<Rightarrow> if rc a = 0 then buf else x);
            check_io (\<not> reads_on c) OutOfBounds;
            tell (Dev (DevSeek h));
            ret (0, 0) } })"

definition GpioController_Cleanup :: "GpioController \<Rightarrow> GpioController io" where
  "GpioController_Cleanup g = do {
     (case fd_value g of None \<Rightarrow> ret () | Some h \<Rightarrow> tell (Dev (DevClose h)));
     (case fd_dir g of None \<Rightarrow> ret () | Some h \<Rightarrow> tell (Dev (DevClose h)));
     u \<leftarrow> call_handle (Dev (DevOpen ''/sys/class/gpio/unexport''));
     (case u of None \<Rightarrow> ret ()
      | Some h \<Rightarrow> do { tell (Dev (DevWrite h (snprintf 64 (gpio_num g)))); tell (Dev (DevClose h)) });
     ret (g\<lparr> fd_value := None, fd_dir := None \<rparr>) }"

subsection \<open>The LEDs\<close>

definition led_init :: "(string \<Rightarrow> string) \<Rightarrow> string \<Rightarrow> GpioController \<Rightarrow> (int \<times> GpioController) io" where
  "led_init beyond num g = do {
     (r, g) \<leftarrow> GpioController_Init beyond num g;
     if r < 0 then ret (-1, g)
     else do {
       d \<leftarrow> GpioController_SetDirection beyond g ''out'';
       if d < 0 then do { g \<leftarrow> GpioController_Cleanup g; ret (-1, g) } else ret (0, g) } }"

definition led_set_high :: "GpioController \<Rightarrow> (int \<times> GpioController) io" where
  "led_set_high g = GpioController_SetValue g 1"

definition led_set_low :: "GpioController \<Rightarrow> (int \<times> GpioController) io" where
  "led_set_low g = GpioController_SetValue g 0"

definition led_toggle :: "GpioController \<Rightarrow> (int \<times> GpioController) io" where
  "led_toggle g = GpioController_SetValue g (if pin g = 0 then 1 else 0)"

definition led_get_state :: "char \<Rightarrow> GpioController \<Rightarrow> int \<Rightarrow> (int \<times> int) io" where
  "led_get_state buf g old = GpioController_GetValue buf g old"

definition led_destroy :: "GpioController \<Rightarrow> GpioController io" where
  "led_destroy g = GpioController_Cleanup g"

text \<open>The macros; the run LED lights high, the fault LED low.\<close>

definition RUN_LED_INIT :: "(string \<Rightarrow> string) \<Rightarrow> GpioController \<Rightarrow> GpioController io" where
  "RUN_LED_INIT beyond g = do { (_, g) \<leftarrow> led_init beyond SYS_RUN_LED_PIN_NUM g; (_, g) \<leftarrow> led_set_low g; ret g }"

definition FAULT_LED_INIT :: "(string \<Rightarrow> string) \<Rightarrow> GpioController \<Rightarrow> GpioController io" where
  "FAULT_LED_INIT beyond g = do { (_, g) \<leftarrow> led_init beyond SYS_FAULT_LED_PIN_NUM g; (_, g) \<leftarrow> led_set_high g; ret g }"

definition RUN_LED_OFF :: "GpioController \<Rightarrow> GpioController io" where
  "RUN_LED_OFF g = do { (_, g) \<leftarrow> led_set_low g; ret g }"

definition RUN_LED_TOGGLE :: "GpioController \<Rightarrow> GpioController io" where
  "RUN_LED_TOGGLE g = do { (_, g) \<leftarrow> led_toggle g; ret g }"

definition FAULT_LED_ON :: "GpioController \<Rightarrow> GpioController io" where
  "FAULT_LED_ON g = do { (_, g) \<leftarrow> led_set_low g; ret g }"

lemmas gpio_defs = GpioController_Init_def open_files_def GpioController_SetDirection_def GpioController_SetValue_def
  GpioController_GetValue_def GpioController_Cleanup_def led_init_def led_set_high_def led_set_low_def led_toggle_def
  led_get_state_def led_destroy_def

lemma wf_gpio [wf_io_intros]:
  "wf_io (open_files g)" "wf_io (GpioController_Init beyond num g)" "wf_io (GpioController_SetDirection beyond g dir)"
  "wf_io (GpioController_SetValue g v)" "wf_io (GpioController_GetValue buf g old)" "wf_io (GpioController_Cleanup g)"
  unfolding gpio_defs Let_def by (intro wf_io_intros)+

lemma wf_led [wf_io_intros]:
  "wf_io (led_init beyond num g)" "wf_io (led_set_high g)" "wf_io (led_set_low g)" "wf_io (led_toggle g)"
  "wf_io (led_get_state buf g old)" "wf_io (led_destroy g)" "wf_io (RUN_LED_INIT beyond g)" "wf_io (FAULT_LED_INIT beyond g)"
  "wf_io (RUN_LED_OFF g)" "wf_io (RUN_LED_TOGGLE g)" "wf_io (FAULT_LED_ON g)"
  unfolding led_init_def led_set_high_def led_set_low_def led_toggle_def led_get_state_def led_destroy_def
    RUN_LED_INIT_def FAULT_LED_INIT_def RUN_LED_OFF_def RUN_LED_TOGGLE_def FAULT_LED_ON_def
  by (intro wf_io_intros)+

subsection \<open>Descriptors\<close>

text \<open>
  The descriptors open after events that begin at position \<open>k\<close> of the trace, \<open>None\<close> once one is closed
  that is not open.
\<close>

definition fd_step :: "nat \<Rightarrow> event \<Rightarrow> nat list option \<Rightarrow> nat list option" where
  "fd_step k e l = (case l of None \<Rightarrow> None
     | Some fs \<Rightarrow> (case fst e of
           Dev (DevOpen _) \<Rightarrow> Some (if rc (snd e) = 0 then fs else k # fs)
         | Dev (DevClose h) \<Rightarrow> if h \<in> set fs then Some (remove1 h fs) else None
         | _ \<Rightarrow> Some fs))"

fun fds :: "nat \<Rightarrow> event list \<Rightarrow> nat list option \<Rightarrow> nat list option" where
  "fds k [] l = l"
| "fds k (e # es) l = fds (Suc k) es (fd_step k e l)"

lemma fds_append [simp]: "fds k (es @ fs) l = fds (k + length es) fs (fds k es l)"
  by (induction es arbitrary: k l) auto

lemma fd_step_simps [simp]:
  "fd_step k e None = None"
  "fd_step k (Dev (DevOpen p), a) (Some fs) = Some (if rc a = 0 then fs else k # fs)"
  "fd_step k (Dev (DevClose h), a) (Some fs) = (if h \<in> set fs then Some (remove1 h fs) else None)"
  "fd_step k (Dev (DevWrite h s), a) (Some fs) = Some fs"
  by (simp_all add: fd_step_def)

lemma fds_None [simp]: "fds k es None = None"
  by (induction es arbitrary: k) auto

text \<open>The effect of an operation on the open descriptors.\<close>

definition fds_of :: "'a io \<Rightarrow> world \<Rightarrow> nat list option \<Rightarrow> nat list option" where
  "fds_of m w l = fds (length (trace w)) (events m w) l"

lemma fds_of_bind:
  assumes "wf_io m" "\<And>x. wf_io (f x)"
  shows "fds_of (State_Monad.bind m f) w l = fds_of (f (value_of m w)) (snd (run_state m w)) (fds_of m w l)"
  using wf_trace [OF assms(1), of w] by (simp add: fds_of_def events_bind [OF assms] del: run_state_bind)

text \<open>
  From \<open>w\<close> with \<open>l\<close> open the operation runs without fault, and \<open>P\<close> holds of its result, the world and
  the descriptors it leaves open.
\<close>

definition yields :: "world \<Rightarrow> nat list option \<Rightarrow> 'a io \<Rightarrow> ('a \<Rightarrow> world \<Rightarrow> nat list option \<Rightarrow> bool) \<Rightarrow> bool" where
  "yields w l m P \<longleftrightarrow> ub w = None \<and> wf_io m \<and> ub (snd (run_state m w)) = None \<and>
     P (value_of m w) (snd (run_state m w)) (fds_of m w l)"

lemma yields_bind:
  assumes "yields w l m (\<lambda>x w' l'. yields w' l' (f x) P)" "\<And>x. wf_io (f x)"
  shows "yields w l (State_Monad.bind m f) P"
  using assms wf_bind [of m f] fds_of_bind [of m f] unfolding yields_def
  by (simp add: snd_bind del: run_state_bind)

lemma yields_ret [simp]: "yields w l (ret x) P \<longleftrightarrow> ub w = None \<and> P x w l"
  by (auto simp: yields_def fds_of_def wf_ret)

lemma yields_mono: "yields w l m P \<Longrightarrow> (\<And>x w' l'. ub w' = None \<Longrightarrow> P x w' l' \<Longrightarrow> Q x w' l') \<Longrightarrow> yields w l m Q"
  by (simp add: yields_def)

text \<open>What a controller holds; \<open>half_open\<close>: its direction file only, which is closed already.\<close>

definition held :: "GpioController \<Rightarrow> nat list" where
  "held g = (case fd_value g of None \<Rightarrow> [] | Some v \<Rightarrow> [v]) @ (case fd_dir g of None \<Rightarrow> [] | Some d \<Rightarrow> [d])"

definition half_open :: "GpioController \<Rightarrow> bool" where
  "half_open g \<longleftrightarrow> fd_dir g \<noteq> None \<and> fd_value g = None"

text \<open>The descriptors \<open>l\<close> are those \<open>g\<close> believes to hold, unless it is half open.\<close>

definition tracked :: "GpioController \<Rightarrow> nat list option \<Rightarrow> bool" where
  "tracked g l \<longleftrightarrow> l = Some (if half_open g then [] else held g) \<and> distinct (held g)"

lemma init_yields:
  assumes "ub w = None"
  shows "yields w (Some []) (GpioController_Init b num g0)
     (\<lambda>(r, g) _ l. tracked g l \<and> (if fd_value g \<noteq> None then r = 0 else r = -1) \<and>
        half_open g = half_open (snd (value_of (GpioController_Init b num g0) w)))"
  using assms
  by (auto simp: yields_def wf_gpio tracked_def fds_of_def events_def value_of_def GpioController_Init_def open_files_def Let_def
      half_open_def held_def intro!: wf_io_intros split: option.split)

lemma cleanup_yields:
  assumes "ub w = None" "tracked g l"
  shows "yields w l (GpioController_Cleanup g)
     (\<lambda>g' _ l'. l' = (if half_open g then None else Some []) \<and> held g' = [] \<and> \<not> half_open g')"
  using assms
  by (auto simp: yields_def wf_gpio tracked_def fds_of_def events_def value_of_def GpioController_Cleanup_def half_open_def held_def
      intro!: wf_io_intros split: option.split)

lemma set_direction_yields:
  assumes "ub w = None"
  shows "yields w l (GpioController_SetDirection b g d) (\<lambda>_ _ l'. l' = l)"
  using assms
  by (cases l) (auto simp: yields_def wf_gpio fds_of_def events_def value_of_def GpioController_SetDirection_def intro!: wf_io_intros split: option.split)

lemma set_value_yields:
  assumes "ub w = None" "tracked g l"
  shows "yields w l (GpioController_SetValue g v) (\<lambda>(_, g') _ l'. tracked g' l' \<and> half_open g' = half_open g)"
  using assms
  by (auto simp: yields_def wf_gpio tracked_def fds_of_def events_def value_of_def GpioController_SetValue_def half_open_def held_def
      intro!: wf_io_intros split: option.split)

lemma led_init_yields:
  assumes "ub w = None"
  shows "yields w (Some []) (led_init b num g0)
     (\<lambda>(_, g) _ l. tracked g l \<and> half_open g = half_open (snd (value_of (GpioController_Init b num g0) w)))"
  unfolding led_init_def
proof (rule yields_bind [OF yields_mono [OF init_yields [OF assms]]], goal_cases)
  case (1 x w' l')
  obtain r g where x: "x = (r, g)" by fastforce
  show ?case
  proof (cases "r < 0")
    case True
    then show ?thesis using 1 by (simp add: x)
  next
    case False
    then have "\<not> half_open g" using 1 by (auto simp: x half_open_def split: if_splits)
    moreover have "yields w'' l' (do { g \<leftarrow> GpioController_Cleanup g; ret (-1, g) })
        (\<lambda>(_, g') _ l. tracked g' l \<and> \<not> half_open g')" if "ub w'' = None" for w''
      using 1 \<open>\<not> half_open g\<close>
      by (intro yields_bind [OF yields_mono [OF cleanup_yields [OF that]]]) (auto simp: x tracked_def wf_ret)
    ultimately show ?thesis using False 1
      by (auto simp: x intro!: yields_bind [OF yields_mono [OF set_direction_yields]] wf_io_intros)
  qed
qed (intro wf_io_intros)

lemma half_open_iff:
  assumes "ub w = None"
  shows "half_open (snd (value_of (GpioController_Init b SYS_RUN_LED_PIN_NUM g0) w)) \<longleftrightarrow>
     (\<exists>a. (Dev (DevOpen ''/sys/class/gpio/gpio104/value''), a) \<in> set (events (GpioController_Init b SYS_RUN_LED_PIN_NUM g0) w) \<and>
        rc a = 0)"
proof -
  have "gpio_path ''104'' ''/value'' = ''/sys/class/gpio/gpio104/value''"
    "gpio_path ''104'' ''/direction'' = ''/sys/class/gpio/gpio104/direction''"
    by (simp_all add: gpio_path_def GPIO_SYSFS_PATH_def snprintf_def)
  then show ?thesis using assms
    by (simp add: value_of_def events_def GpioController_Init_def open_files_def Let_def half_open_def SYS_RUN_LED_PIN_NUM_def
        split: option.split)
qed

text \<open>
  The run LED as \<open>main\<close> uses it, initialised, switched off at the end and released, opens and closes each
  descriptor once, whatever fails on the way, with one exception: when the value file cannot be opened, the
  descriptor of the direction file is closed at once, kept, and closed a second time at the release.
\<close>

theorem led_descriptors:
  assumes "ub w = None"
  shows "fds_of (do { g \<leftarrow> RUN_LED_INIT b g0; g \<leftarrow> RUN_LED_OFF g; led_destroy g }) w (Some []) =
     (if \<exists>a. (Dev (DevOpen ''/sys/class/gpio/gpio104/value''), a) \<in> set (events (GpioController_Init b SYS_RUN_LED_PIN_NUM g0) w) \<and>
           rc a = 0
      then None else Some [])"
proof -
  let ?h = "half_open (snd (value_of (GpioController_Init b SYS_RUN_LED_PIN_NUM g0) w))"
  have off: "yields w' l (RUN_LED_OFF g) (\<lambda>g' _ l'. tracked g' l' \<and> half_open g' = half_open g)"
    if "ub w' = None" "tracked g l" for w' l g
    unfolding RUN_LED_OFF_def led_set_low_def
    by (rule yields_bind [OF yields_mono [OF set_value_yields [OF that]]]) (auto intro: wf_io_intros)
  have init: "yields w (Some []) (RUN_LED_INIT b g0) (\<lambda>g _ l. tracked g l \<and> half_open g = ?h)"
    unfolding RUN_LED_INIT_def led_set_low_def
    by (rule yields_bind [OF yields_mono [OF led_init_yields [OF assms]]])
      (auto intro!: wf_io_intros yields_bind [OF yields_mono [OF set_value_yields]])
  have "yields w (Some []) (do { g \<leftarrow> RUN_LED_INIT b g0; g \<leftarrow> RUN_LED_OFF g; led_destroy g })
      (\<lambda>_ _ l. l = (if ?h then None else Some []))"
    unfolding led_destroy_def
    by (rule yields_bind [OF yields_mono [OF init]])
      (auto intro!: wf_io_intros yields_bind [OF yields_mono [OF off]] intro: yields_mono [OF cleanup_yields])
  then show ?thesis by (simp add: yields_def half_open_iff [OF assms])
qed

definition no_value_world :: world where
  "no_value_world = \<lparr> env = \<lambda>_ r. \<lparr> rc = (if r = Dev (DevOpen ''/sys/class/gpio/gpio104/value'') then 0 else 1), vl = 0, out = [] \<rparr>,
     localtime = \<lambda>_. undefined, trace = [], ub = None \<rparr>"

definition cleared_gpio :: GpioController where
  "cleared_gpio = \<lparr> gpio_num = [], fd_value = None, fd_dir = None, pin = 0 \<rparr>"

theorem led_descriptors_witness:
  "fds_of (do { g \<leftarrow> RUN_LED_INIT id cleared_gpio; g \<leftarrow> RUN_LED_OFF g; led_destroy g }) no_value_world (Some []) = None"
proof -
  have u: "ub no_value_world = None" by (simp add: no_value_world_def)
  have "half_open (snd (value_of (GpioController_Init id SYS_RUN_LED_PIN_NUM cleared_gpio) no_value_world))"
    by (simp add: value_of_def GpioController_Init_def open_files_def half_open_def no_value_world_def SYS_RUN_LED_PIN_NUM_def
        gpio_path_def GPIO_SYSFS_PATH_def snprintf_def Let_def)
  then have "\<exists>a. (Dev (DevOpen ''/sys/class/gpio/gpio104/value''), a) \<in>
      set (events (GpioController_Init id SYS_RUN_LED_PIN_NUM cleared_gpio) no_value_world) \<and> rc a = 0"
    using half_open_iff [OF u] by blast
  with led_descriptors [OF u, of id cleared_gpio] show ?thesis by (simp only: if_True simp_thms)
qed

subsection \<open>What the pin shows\<close>

datatype led_op = LedHigh | LedLow | LedToggle

fun led_ops :: "led_op list \<Rightarrow> GpioController \<Rightarrow> GpioController io" where
  "led_ops [] g = ret g"
| "led_ops (x # xs) g = do {
     (_, g) \<leftarrow> (case x of LedHigh \<Rightarrow> led_set_high g | LedLow \<Rightarrow> led_set_low g | LedToggle \<Rightarrow> led_toggle g);
     led_ops xs g }"

text \<open>The level after some events on the value file \<open>h\<close>, and after operations that all succeed.\<close>

definition shown :: "nat \<Rightarrow> bool \<Rightarrow> event list \<Rightarrow> bool" where
  "shown h lvl es = fold (\<lambda>(r, a) lvl. case r of
     Dev (DevWrite k s) \<Rightarrow> if k = h \<and> 0 \<le> rc a then s = ''1'' else lvl | _ \<Rightarrow> lvl) es lvl"

definition level :: "led_op list \<Rightarrow> bool \<Rightarrow> bool" where
  "level = fold (\<lambda>x lvl. case x of LedHigh \<Rightarrow> True | LedLow \<Rightarrow> False | LedToggle \<Rightarrow> \<not> lvl)"

lemma led_ops_run:
  assumes "ub w = None" "fd_value g = Some h" "g' = fst (run_state (led_ops xs g) w)" "w' = snd (run_state (led_ops xs g) w)"
  shows "ub w' = None \<and> fd_value g' = Some h \<and> (\<exists>es. trace w' = trace w @ es \<and> (pin g' \<noteq> 0 \<longleftrightarrow> shown h (pin g \<noteq> 0) es) \<and>
     ((\<forall>e \<in> set es. 0 \<le> rc (snd e)) \<longrightarrow> (pin g' \<noteq> 0 \<longleftrightarrow> level xs (pin g \<noteq> 0))))"
  using assms
proof (induction xs arbitrary: g w)
  case Nil
  then show ?case by (simp add: shown_def level_def)
next
  case (Cons x xs)
  define v where "v = (case x of LedHigh \<Rightarrow> 1 | LedLow \<Rightarrow> 0 | LedToggle \<Rightarrow> if pin g = 0 then 1 else (0::int))"
  define a where "a = env w (trace w) (Dev (DevWrite h (if v \<noteq> 0 then ''1'' else ''0'')))"
  define g1 where "g1 = (if rc a < 0 then g else g\<lparr> pin := v \<rparr>)"
  define w1 where "w1 = w\<lparr> trace := trace w @ [(Dev (DevWrite h (if v \<noteq> 0 then ''1'' else ''0'')), a)] \<rparr>"
  have "run_state (led_ops (x # xs) g) w = run_state (led_ops xs g1) w1"
    using Cons.prems(1,2)
    by (cases x) (simp_all add: led_set_high_def led_set_low_def led_toggle_def GpioController_SetValue_def v_def a_def g1_def w1_def)
  moreover have "ub w1 = None" "fd_value g1 = Some h" using Cons.prems(1,2) by (simp_all add: w1_def g1_def)
  ultimately obtain es where es: "ub w' = None" "fd_value g' = Some h" "trace w' = trace w1 @ es"
    "pin g' \<noteq> 0 \<longleftrightarrow> shown h (pin g1 \<noteq> 0) es"
    "(\<forall>e \<in> set es. 0 \<le> rc (snd e)) \<longrightarrow> (pin g' \<noteq> 0 \<longleftrightarrow> level xs (pin g1 \<noteq> 0))"
    using Cons.IH [of w1 g1] Cons.prems(3,4) by auto
  have "trace w' = trace w @ ((Dev (DevWrite h (if v \<noteq> 0 then ''1'' else ''0'')), a) # es)" using es(3) by (simp add: w1_def)
  moreover have "shown h (pin g \<noteq> 0) ((Dev (DevWrite h (if v \<noteq> 0 then ''1'' else ''0'')), a) # es) = shown h (pin g1 \<noteq> 0) es"
    by (simp add: shown_def g1_def)
  moreover have "0 \<le> rc a \<Longrightarrow> level (x # xs) (pin g \<noteq> 0) = level xs (pin g1 \<noteq> 0)"
    by (cases x) (simp_all add: level_def g1_def v_def)
  ultimately show ?case using es by auto
qed

text \<open>
  The remembered state of an LED follows its pin: after any sequence of switching and toggling, successful
  or not, it is on exactly if the last successful write to the value file was a 1; and when every write
  succeeds, it is the level the operations describe.
\<close>

theorem led_state_is_pin:
  assumes "ub w = None" "fd_value g = Some h"
  shows "(pin (value_of (led_ops xs g) w) \<noteq> 0 \<longleftrightarrow> shown h (pin g \<noteq> 0) (events (led_ops xs g) w)) \<and>
     ((\<forall>e \<in> set (events (led_ops xs g) w). 0 \<le> rc (snd e)) \<longrightarrow>
        (pin (value_of (led_ops xs g) w) \<noteq> 0 \<longleftrightarrow> level xs (pin g \<noteq> 0)))"
  using led_ops_run [OF assms refl refl, of xs] by (auto simp: value_of_def events_def)

theorem led_state_is_pin_witness:
  "pin (value_of (led_ops [LedToggle, LedToggle, LedToggle] (cleared_gpio\<lparr> fd_value := Some 3 \<rparr>)) no_value_world) \<noteq> 0"
proof -
  let ?g = "cleared_gpio\<lparr> fd_value := Some 3 \<rparr>" and ?xs = "[LedToggle, LedToggle, LedToggle]"
  have "\<forall>e \<in> set (events (led_ops ?xs ?g) no_value_world). 0 \<le> rc (snd e)"
    by (simp add: events_def led_toggle_def GpioController_SetValue_def no_value_world_def cleared_gpio_def)
  then show ?thesis using led_state_is_pin [of no_value_world ?g 3 ?xs]
    by (simp add: level_def no_value_world_def cleared_gpio_def del: led_ops.simps)
qed

subsection \<open>Reading and writing too much\<close>

text \<open>
  \<open>led_get_state\<close> reads behind its one-character buffer for every value a GPIO can have, and the export
  writes eight bytes for a number of three digits, the last four from behind the string.
\<close>

lemma get_state_overreads:
  assumes "ub w = None" "fd_value g = Some h" "env w (trace w) (Dev (DevRead h 1)) = \<lparr> rc = 1, vl = 0, out = [[c]] \<rparr>"
    and "c \<in> {CHR ''0'', CHR ''1''}"
  shows "ub (snd (run_state (led_get_state buf g old) w)) = Some OutOfBounds"
  using assms by (auto simp: led_get_state_def GpioController_GetValue_def reads_on_def check_io_def fault_io_def)

lemma export_overreads:
  assumes "ub w = None" "rc (env w (trace w) (Dev (DevOpen ''/sys/class/gpio/export''))) \<noteq> 0" "length (beyond ''104'') = 4"
  shows "\<exists>a. (Dev (DevWrite (length (trace w)) (''104'' @ [CHR 0x00] @ beyond ''104'')), a)
     \<in> set (events (GpioController_Init beyond SYS_RUN_LED_PIN_NUM g0) w)"
  using assms
  by (simp add: events_def GpioController_Init_def open_files_def Let_def SYS_RUN_LED_PIN_NUM_def ptr_bytes_def split: option.split)

end
