(* ===== verification/NavData.thy ===== *)
theory NavData
  imports LaneTo CloudComm Gpio
begin

text \<open>
  \<open>nav_data_msg_task_cb\<close> of \<open>services/cloud_comm.c\<close>: every second the navigation
  receiver is read and its data are sent to the cloud. The numbers are byte-swapped as integers, also
  the floating point ones, which are first converted to unsigned integers and, swapped, back. What a
  conversion out of range delivers is a parameter. The run LED is toggled first.
\<close>

definition NAVDataSeg :: "(flo \<Rightarrow> u64) \<Rightarrow> (flo \<Rightarrow> u32) \<Rightarrow> SGData \<Rightarrow> bytes" where
  "NAVDataSeg oor64 oor32 sg =
     le16 0 @ [0] @ le16 (bswap_16 (utc_year sg)) @
     [utc_month sg, utc_day sg, utc_hour sg, utc_minutes sg] @ le16 (bswap_16 (utc_millisecond sg)) @
     le64 (double_bits (bswap_64 (flo_to_word oor64 (latitude sg)))) @
     le64 (double_bits (bswap_64 (flo_to_word oor64 (longitude sg)))) @
     le32 (float_bits (bswap_32 (flo_to_word oor32 (altitude_msl sg)))) @
     le32 (bswap_32 (vn sg)) @ le32 (bswap_32 (ve sg)) @ le32 (bswap_32 (vd sg)) @
     le32 (bswap_32 (ground_speed sg)) @ le32 (bswap_32 (traveled_distance sg)) @
     le32 (bswap_32 (roll sg)) @ le32 (bswap_32 (pitch sg)) @ le32 (bswap_32 (heading sg)) @
     le16 (bswap_16 (north_uncertainty sg)) @ le16 (bswap_16 (east_uncertainty sg)) @
     le16 (bswap_16 (down_uncertainty sg)) @ le16 (bswap_16 (vn_uncertainty sg)) @
     le16 (bswap_16 (ve_uncertainty sg)) @ le16 (bswap_16 (vd_uncertainty sg)) @
     le16 (bswap_16 (roll_uncertainty sg)) @ le16 (bswap_16 (pitch_uncertainty sg)) @
     le16 (bswap_16 (yaw_uncertainty sg)) @ le16 (bswap_16 (misalign_angle_roll sg)) @
     le16 (bswap_16 (misalign_angle_pitch sg)) @ le16 (bswap_16 (misalign_angle_yaw sg)) @
     le16 (bswap_16 (reference_station_id sg)) @
     [ucast (bswap_16 (ucast (time_since_last_diff sg)))] @ replicate 64 0"

lemma length_NAVDataSeg [simp]: "length (NAVDataSeg oor64 oor32 sg) = 154"
  by (simp add: NAVDataSeg_def)

text \<open>
  \<open>buf\<close> is the uninitialised read buffer; the result is the new \<open>sg_data\<close> and the run LED, \<open>None\<close> out of fuel.
\<close>

definition nav_data_msg_task_cb ::
    "(flo \<Rightarrow> u64) \<Rightarrow> (flo \<Rightarrow> u32) \<Rightarrow> nat \<Rightarrow> LaneToCtx \<Rightarrow> string \<Rightarrow> SGData \<Rightarrow> GpioController \<Rightarrow>
       (SGData \<times> GpioController) option app" where
  "nav_data_msg_task_cb oor64 oor32 fuel laneTo buf sg led = do {
     led \<leftarrow> io (RUN_LED_TOGGLE led);
     r \<leftarrow> io (laneTo_read_nav_data fuel laneTo buf sg);
     case r of None \<Rightarrow> pure None
     | Some sg \<Rightarrow>
         (let f = frame_in (replicate 512 0) MSG_SIGN_TRANS_NAV_DATA (NAVDataSeg oor64 oor32 sg)
          in do { client_send f (length f); pure (Some (sg, led)) }) }"

subsection \<open>The frame\<close>

text \<open>Only the whole part of a number in range is sent.\<close>

lemma flo_to_word_whole:
  "trunc_flo x = Some n \<Longrightarrow> 0 \<le> n \<Longrightarrow> n < 2 ^ LENGTH('w) \<Longrightarrow> flo_to_word oor x = (word_of_int n :: 'w::len word)"
  by (simp add: flo_to_word_def)

lemma low_byte_lost: "ucast (bswap_16 (ucast (b :: u8))) = (0 :: u8)"
  by (rule bit_word_eqI) (auto simp: bswap_16_def bit_simps dest: bit_imp_le_length)

lemma drop_frame: "drop 5 (take (5 + length p) (frame s p)) = p"
  by (simp add: frame_def Let_def)


definition nav_example :: SGData where
  "nav_example = sg_data\<lparr> utc_year := 25, latitude := Finite 79 (-1), longitude := Finite 116 0, altitude_msl := Finite 50 0,
     time_since_last_diff := 7 \<rparr>"


end
