(* ===== verification/Linked_List.thy ===== *)
theory Linked_List
  imports Fifo
begin

text \<open>
  \<open>lib/list.c\<close>: the singly linked list that holds the timer events and the firmware tasks.
  Nodes live in a heap, a map from addresses to nodes; \<open>malloc\<close> is a parameter, a
  function that returns an unused address or \<open>None\<close>. The element counter is a
  \<open>uint16_t\<close>, so the list is a queue of capacity 65535 that does not notice when it is
  full. A node access after \<open>free\<close> is a fault.
\<close>

type_synonym addr = nat

record 'a ListNode =
  nxt :: "addr option"
  arg :: 'a

type_synonym 'a heap = "addr \<Rightarrow> 'a ListNode option"

record RootList =
  p_Head :: "addr option"
  p_Tail :: "addr option"
  lcount :: u16
  mutexOpt :: int

type_synonym 'a list_state = "'a heap \<times> RootList"

definition List_Init_Thread :: "RootList \<Rightarrow> int \<times> RootList" where
  "List_Init_Thread l = (0, l\<lparr> p_Head := None, p_Tail := None, lcount := 0, mutexOpt := 1 \<rparr>)"

definition List_Init :: "RootList \<Rightarrow> int \<times> RootList" where
  "List_Init l = (0, l\<lparr> p_Head := None, p_Tail := None, lcount := 0, mutexOpt := 0 \<rparr>)"

definition List_Insert ::
    "('a heap \<Rightarrow> addr option) \<Rightarrow> 'a list_state \<Rightarrow> 'a \<Rightarrow> (int \<times> 'a list_state) outcome" where
  "List_Insert malloc s x =
     (case s of (h, l) \<Rightarrow>
       (case malloc h of
          None \<Rightarrow> Inr (-1, h, l)
        | Some new_node \<Rightarrow>
            (let h1 = h(new_node \<mapsto> \<lparr> nxt = None, arg = x \<rparr>)
             in if p_Head l = None
                then Inr (0, h1, l\<lparr> p_Head := Some new_node, p_Tail := Some new_node,
                                    lcount := lcount l + 1 \<rparr>)
                else case p_Tail l of
                    None \<Rightarrow> Inl NullDeref
                  | Some t \<Rightarrow>
                      (case h1 t of
                         None \<Rightarrow> Inl UseAfterFree
                       | Some n \<Rightarrow> Inr (0, h1(t \<mapsto> n\<lparr> nxt := Some new_node \<rparr>),
                                        l\<lparr> p_Tail := Some new_node, lcount := lcount l + 1 \<rparr>)))))"

definition List_GetHead :: "RootList option \<Rightarrow> addr option" where
  "List_GetHead p =
     (case p of None \<Rightarrow> None
      | Some l \<Rightarrow> if lcount l = 0 \<or> p_Head l = None then None else p_Head l)"

definition List_DelHead :: "'a list_state \<Rightarrow> (int \<times> 'a list_state) outcome" where
  "List_DelHead s =
     (case s of (h, l) \<Rightarrow>
       if lcount l = 0 then Inr (-1, h, l)
       else case p_Head l of
           None \<Rightarrow> Inr (-1, h, l)
         | Some p \<Rightarrow>
             (case h p of
                None \<Rightarrow> Inl UseAfterFree
              | Some n \<Rightarrow>
                  (let l1 = l\<lparr> p_Head := nxt n, lcount := lcount l - 1 \<rparr>;
                       l2 = (if lcount l1 = 0 then l1\<lparr> p_Head := None, p_Tail := None \<rparr> else l1)
                   in Inr (0, h(p := None), l2))))"

subsection \<open>Abstraction and invariant\<close>

fun walk :: "'a heap \<Rightarrow> addr option \<Rightarrow> nat \<Rightarrow> addr list" where
  "walk h p 0 = []"
| "walk h None (Suc n) = []"
| "walk h (Some a) (Suc n) = a # (case h a of None \<Rightarrow> [] | Some nd \<Rightarrow> walk h (nxt nd) n)"

definition nodes :: "'a list_state \<Rightarrow> addr list" where
  "nodes s = walk (fst s) (p_Head (snd s)) (unat (lcount (snd s)))"

definition list_contents :: "'a list_state \<Rightarrow> 'a list" where
  "list_contents s = map (\<lambda>a. arg (the (fst s a))) (nodes s)"

fun path :: "'a heap \<Rightarrow> addr option \<Rightarrow> addr list \<Rightarrow> bool" where
  "path h p [] = (p = None)"
| "path h p (a # as) = (p = Some a \<and> (\<exists>nd. h a = Some nd \<and> path h (nxt nd) as))"

definition list_rep :: "'a list_state \<Rightarrow> addr list \<Rightarrow> bool" where
  "list_rep s as \<longleftrightarrow>
     path (fst s) (p_Head (snd s)) as \<and> distinct as \<and>
     p_Tail (snd s) = (if as = [] then None else Some (last as)) \<and>
     unat (lcount (snd s)) = length as"

definition list_inv :: "'a list_state \<Rightarrow> bool" where
  "list_inv s \<longleftrightarrow> list_rep s (nodes s)"

lemma walk_path: "path h p as \<Longrightarrow> walk h p (length as) = as"
  by (induction as arbitrary: p) auto

lemma list_rep_nodes: "list_rep s as \<Longrightarrow> nodes s = as"
  by (simp add: list_rep_def nodes_def walk_path)

lemma list_inv_iff: "list_inv s \<longleftrightarrow> (\<exists>as. list_rep s as)"
  using list_rep_nodes unfolding list_inv_def by metis

lemma path_allocated: "path h p as \<Longrightarrow> a \<in> set as \<Longrightarrow> \<exists>nd. h a = Some nd"
  by (induction as arbitrary: p) auto

lemma path_other [simp]: "a \<notin> set as \<Longrightarrow> path (h(a := x)) p as = path h p as"
  by (induction as arbitrary: p) auto

lemma path_snoc:
  "path h p (as @ [t]) \<Longrightarrow> distinct (as @ [t]) \<Longrightarrow> a \<notin> set (as @ [t]) \<Longrightarrow> h t = Some n \<Longrightarrow>
     path (h(a \<mapsto> \<lparr> nxt = None, arg = x \<rparr>, t \<mapsto> n\<lparr> nxt := Some a \<rparr>)) p (as @ [t, a])"
  by (induction as arbitrary: p) auto

lemma length_list_contents: "list_rep s as \<Longrightarrow> length (list_contents s) = length as"
  by (simp add: list_contents_def list_rep_nodes)

lemma unat_Suc_u16: "unat (c :: u16) < 65535 \<Longrightarrow> unat (c + 1) = Suc (unat c)"
  by (simp add: unat_word_ariths)

subsection \<open>The operations on every branch\<close>

text \<open>What the list relies on of \<open>malloc\<close>: a block that is not in use.\<close>

definition alloc_ok :: "('a heap \<Rightarrow> addr option) \<Rightarrow> bool" where
  "alloc_ok malloc \<longleftrightarrow> (\<forall>h. finite (dom h) \<longrightarrow> (\<exists>a. malloc h = Some a \<and> h a = None))"

lemma alloc_okE:
  assumes "alloc_ok malloc" "finite (dom h)"
  obtains a where "malloc h = Some a" "h a = None"
  using assms unfolding alloc_ok_def by blast

lemma list_rep_unallocated: "list_rep (h, l) as \<Longrightarrow> h a = None \<Longrightarrow> a \<notin> set as"
  using path_allocated unfolding list_rep_def by fastforce

lemma map_arg_upd: "a \<notin> set as \<Longrightarrow> map (\<lambda>b. arg (the ((h(a := x)) b))) as = map (\<lambda>b. arg (the (h b))) as"
  by auto

lemma insert_rep:
  assumes rep: "list_rep (h, l) as" and new: "malloc h = Some a" "h a = None"
    and room: "length as < 65535"
  shows "\<exists>s'. List_Insert malloc (h, l) x = Inr (0, s') \<and> list_rep s' (as @ [a]) \<and>
           list_contents s' = list_contents (h, l) @ [x] \<and> dom (fst s') = insert a (dom h)"
proof -
  have a: "a \<notin> set as" by (rule list_rep_unallocated [OF rep new(2)])
  have cnt: "unat (lcount l + 1) = Suc (length as)"
    using rep room unat_Suc_u16 [of "lcount l"] by (simp add: list_rep_def)
  show ?thesis
  proof (cases as rule: rev_cases)
    case Nil
    with rep have hd: "p_Head l = None" by (simp add: list_rep_def)
    define s' where "s' = (h(a \<mapsto> \<lparr> nxt = None, arg = x \<rparr>),
      l\<lparr> p_Head := Some a, p_Tail := Some a, lcount := lcount l + 1 \<rparr>)"
    have "List_Insert malloc (h, l) x = Inr (0, s')"
      using hd new by (simp add: List_Insert_def s'_def)
    moreover have rep': "list_rep s' (as @ [a])"
      using Nil cnt by (simp add: list_rep_def s'_def)
    moreover have "list_contents s' = list_contents (h, l) @ [x]"
      unfolding list_contents_def list_rep_nodes [OF rep'] list_rep_nodes [OF rep]
      using Nil by (simp add: s'_def)
    moreover have "dom (fst s') = insert a (dom h)" by (simp add: s'_def)
    ultimately show ?thesis by blast
  next
    case (snoc bs t)
    with rep obtain nd where hd: "p_Head l \<noteq> None" and tl: "p_Tail l = Some t" and t: "h t = Some nd"
      using path_allocated [of h "p_Head l" as t] by (cases bs) (auto simp: list_rep_def)
    from a snoc have ta: "t \<noteq> a" "t \<in> set as" by auto
    define s' where "s' = (h(a \<mapsto> \<lparr> nxt = None, arg = x \<rparr>, t \<mapsto> nd\<lparr> nxt := Some a \<rparr>),
      l\<lparr> p_Tail := Some a, lcount := lcount l + 1 \<rparr>)"
    have "List_Insert malloc (h, l) x = Inr (0, s')"
      using hd tl t ta new by (auto simp: List_Insert_def s'_def)
    moreover have rep': "list_rep s' (as @ [a])"
      using rep snoc a t cnt path_snoc [of h "p_Head l" bs t a nd x]
      by (simp add: list_rep_def s'_def)
    moreover have "list_contents s' = list_contents (h, l) @ [x]"
      unfolding list_contents_def list_rep_nodes [OF rep'] list_rep_nodes [OF rep]
      using a t ta by (auto simp: s'_def)
    moreover have "dom (fst s') = insert a (dom h)" using t by (auto simp: s'_def)
    ultimately show ?thesis by blast
  qed
qed

lemma delete_rep:
  assumes rep: "list_rep (h, l) (a # as)"
  shows "\<exists>s' nd. List_GetHead (Some l) = Some a \<and> h a = Some nd \<and> List_DelHead (h, l) = Inr (0, s') \<and>
           list_rep s' as \<and> list_contents (h, l) = arg nd # list_contents s' \<and> dom (fst s') = dom h - {a}"
proof -
  from rep obtain nd where hd: "p_Head l = Some a" and nd: "h a = Some nd"
    and p: "path h (nxt nd) as" and a: "a \<notin> set as" "distinct as"
    and cnt: "unat (lcount l) = Suc (length as)" and tl: "p_Tail l = Some (last (a # as))"
    by (auto simp: list_rep_def)
  from cnt have ne: "lcount l \<noteq> 0" by auto
  have dec: "unat (lcount l - 1) = length as"
    using cnt ne by (simp add: unat_minus_one)
  then have z: "lcount l - 1 = 0 \<longleftrightarrow> as = []" by (metis length_0_conv unat_eq_zero)
  define l' where "l' = (if as = [] then l\<lparr> p_Head := None, p_Tail := None, lcount := lcount l - 1 \<rparr>
    else l\<lparr> p_Head := nxt nd, lcount := lcount l - 1 \<rparr>)"
  have del: "List_DelHead (h, l) = Inr (0, h(a := None), l')"
    using ne hd nd z by (simp add: List_DelHead_def Let_def l'_def)
  have rep': "list_rep (h(a := None), l') as"
    using p a tl dec by (simp add: list_rep_def l'_def)
  have "list_contents (h, l) = arg nd # list_contents (h(a := None), l')"
    unfolding list_contents_def list_rep_nodes [OF rep] list_rep_nodes [OF rep']
    using nd a by (auto simp: map_arg_upd)
  with del rep' hd nd ne show ?thesis
    by (auto simp: List_GetHead_def)
qed

lemma delete_empty:
  "list_rep (h, l) [] \<Longrightarrow> List_GetHead (Some l) = None \<and> List_DelHead (h, l) = Inr (-1, h, l)"
  by (simp add: list_rep_def List_GetHead_def List_DelHead_def unat_eq_zero)

subsection \<open>The list is a bounded queue\<close>

text \<open>
  How the tasks use the list: look at the head, take its argument, delete the node
  (\<open>cloud_timer_task_entry\<close> and \<open>do_downlaod_firmware\<close> of \<open>services/cloud_comm.c\<close>).
\<close>

definition list_put ::
    "('a heap \<Rightarrow> addr option) \<Rightarrow> 'a list_state \<Rightarrow> 'a \<Rightarrow> (int \<times> 'a list_state) outcome" where
  "list_put malloc s x = List_Insert malloc s x"

definition list_get :: "'a list_state \<Rightarrow> ('a \<times> 'a list_state) option outcome" where
  "list_get s =
     (case List_GetHead (Some (snd s)) of
        None \<Rightarrow> Inr None
      | Some a \<Rightarrow>
          (case fst s a of
             None \<Rightarrow> Inl UseAfterFree
           | Some nd \<Rightarrow> (case List_DelHead s of Inl e \<Rightarrow> Inl e | Inr (rc, s') \<Rightarrow> Inr (Some (arg nd, s')))))"

definition list_ready :: "('a heap \<Rightarrow> addr option) \<Rightarrow> 'a list_state \<Rightarrow> bool" where
  "list_ready malloc s \<longleftrightarrow> alloc_ok malloc \<and> finite (dom (fst s)) \<and> list_inv s"

interpretation linked: fifo "list_put malloc" list_get list_contents "list_ready malloc"
    "\<lambda>_. True" 65535 for malloc
proof unfold_locales
  show "list_ready malloc s \<Longrightarrow> length (list_contents s) < 65535 \<Longrightarrow>
      \<exists>s'. list_put malloc s x = Inr (0, s') \<and> list_ready malloc s' \<and>
        list_contents s' = list_contents s @ [x]" for s :: "'a list_state" and x
  proof -
    assume r: "list_ready malloc s" and room: "length (list_contents s) < 65535"
    obtain h l where s: "s = (h, l)" by (cases s)
    from r s have ok: "alloc_ok malloc" "finite (dom h)" and rep: "list_rep (h, l) (nodes s)"
      by (auto simp: list_ready_def list_inv_def)
    from ok obtain a where "malloc h = Some a" "h a = None" by (rule alloc_okE)
    from insert_rep [where malloc = malloc and x = x, OF rep this] room rep s length_list_contents [OF rep] ok
    show ?thesis by (auto simp: list_put_def list_ready_def list_inv_iff)
  qed
  show "list_ready malloc s \<Longrightarrow> list_contents s = [] \<Longrightarrow> list_get s = Inr None" for s :: "'a list_state"
    using delete_empty [of "fst s" "snd s"] length_list_contents [of s "nodes s"]
    by (simp add: list_ready_def list_inv_def list_get_def)
  show "list_ready malloc s \<Longrightarrow> list_contents s = x # xs \<Longrightarrow>
      \<exists>s'. list_get s = Inr (Some (x, s')) \<and> list_ready malloc s' \<and> list_contents s' = xs"
    for s :: "'a list_state" and x xs
  proof -
    assume r: "list_ready malloc s" and c: "list_contents s = x # xs"
    obtain h l where s: "s = (h, l)" by (cases s)
    from r s have rep: "list_rep (h, l) (nodes s)" by (simp add: list_ready_def list_inv_def)
    with c s length_list_contents [OF rep] obtain a as where "nodes s = a # as"
      by (cases "nodes s") auto
    with delete_rep [of h l a as] rep s r c show ?thesis
      by (force simp: list_get_def list_ready_def list_inv_iff)
  qed
  show "list_ready malloc s \<Longrightarrow> length (list_contents s) \<le> 65535" for s :: "'a list_state"
    using length_list_contents [of s "nodes s"] unat_u16_bound [of "lcount (snd s)"]
    by (simp add: list_ready_def list_inv_def list_rep_def)
qed

text \<open>
  C6: \<open>List_Insert\<close> and \<open>List_DelHead\<close> keep a well-formed list, and implement a queue: with
  fewer than 65535 elements an insertion returns 0 and appends; looking at the head and deleting it
  gives the oldest element, or nothing when the list is empty; no node is used after it is freed.
\<close>

theorem linked_list_queue:
  assumes "list_ready malloc s"
  shows "(length (list_contents s) < 65535 \<longrightarrow> (\<exists>s'. List_Insert malloc s x = Inr (0, s') \<and>
            list_ready malloc s' \<and> list_contents s' = list_contents s @ [x])) \<and>
         (case list_contents s of
            [] \<Rightarrow> list_get s = Inr None
          | y # ys \<Rightarrow> \<exists>s'. list_get s = Inr (Some (y, s')) \<and> list_ready malloc s' \<and> list_contents s' = ys)"
  using linked.enq_accept [OF assms, of x] linked.deq_empty [OF assms] linked.deq_first [OF assms]
  by (auto simp: list_put_def split: list.split)

definition first_free :: "'a heap \<Rightarrow> addr option" where
  "first_free h = Some (LEAST a. h a = None)"

lemma first_free_ok: "alloc_ok first_free"
  unfolding alloc_ok_def first_free_def
proof (intro allI impI)
  fix h :: "'a heap"
  assume "finite (dom h)"
  then obtain a where "a \<notin> dom h" using ex_new_if_finite infinite_UNIV_nat by blast
  then have "h a = None" by auto
  then show "\<exists>a. Some (LEAST a. h a = None) = Some a \<and> h a = None" by (metis (mono_tags) LeastI)
qed

definition list_empty_state :: "nat list_state" where
  "list_empty_state = (Map.empty, snd (List_Init \<lparr> p_Head = None, p_Tail = None, lcount = 9, mutexOpt = 1 \<rparr>))"

lemma list_empty_state_ready: "list_ready first_free list_empty_state" "list_contents list_empty_state = []"
  by (simp_all add: list_ready_def first_free_ok list_empty_state_def List_Init_def list_inv_def
      list_rep_def nodes_def list_contents_def)

theorem linked_list_queue_witness:
  "\<exists>s'. List_Insert first_free list_empty_state 5 = Inr (0, s') \<and> list_contents s' = [5]"
  using linked_list_queue [OF list_empty_state_ready(1), of 5]
  by (auto simp: list_empty_state_ready(2))

text \<open>
  The counter is 16 bits wide and an insertion does not check it: the insertion into a list of
  65535 elements returns 0, sets the count to 0, and from then on \<open>List_GetHead\<close> returns
  \<open>NULL\<close> and \<open>List_DelHead\<close> -1, although 65536 nodes are linked.
\<close>

theorem linked_list_count_wraps:
  assumes "list_rep (h, l) as" "length as = 65535" "malloc h = Some a" "h a = None"
  shows "\<exists>h' l'. List_Insert malloc (h, l) x = Inr (0, h', l') \<and> lcount l' = 0 \<and>
           path h' (p_Head l') (as @ [a]) \<and> List_GetHead (Some l') = None \<and>
           List_DelHead (h', l') = Inr (-1, h', l')"
proof -
  have a: "a \<notin> set as" by (rule list_rep_unallocated [OF assms(1,4)])
  from assms(2) obtain bs t where as: "as = bs @ [t]" by (cases as rule: rev_cases) auto
  with assms obtain nd where hd: "p_Head l \<noteq> None" and tl: "p_Tail l = Some t" and t: "h t = Some nd"
    using path_allocated [of h "p_Head l" as t] by (cases bs) (auto simp: list_rep_def)
  have "lcount l = (-1 :: u16)"
    by (rule word_unat_eq_iff [THEN iffD2]) (use assms in \<open>simp add: list_rep_def unsigned_minus_1_eq_mask mask_eq_exp_minus_1\<close>)
  then have cnt: "lcount l + 1 = 0" by simp
  define h' where "h' = h(a \<mapsto> \<lparr> nxt = None, arg = x \<rparr>, t \<mapsto> nd\<lparr> nxt := Some a \<rparr>)"
  define l' where "l' = l\<lparr> p_Tail := Some a, lcount := lcount l + 1 \<rparr>"
  have "List_Insert malloc (h, l) x = Inr (0, h', l')"
    using hd tl t a as assms(3) by (auto simp: List_Insert_def h'_def l'_def)
  moreover have "path h' (p_Head l') (as @ [a])"
    using assms(1) a as t path_snoc [of h "p_Head l" bs t a nd x]
    by (simp add: h'_def l'_def list_rep_def)
  moreover have "lcount l' = 0" by (simp add: l'_def cnt)
  ultimately show ?thesis by (auto simp: List_GetHead_def List_DelHead_def)
qed

definition list_chain :: "nat heap" where
  "list_chain a = (if a < 65535
     then Some \<lparr> nxt = (if a < 65534 then Some (a + 1) else None), arg = a \<rparr> else None)"

lemma list_chain_path:
  "n < 65535 \<Longrightarrow> path list_chain (Some (65534 - n)) [65534 - n..<65535]"
proof (induction n)
  case 0
  then show ?case by (simp add: list_chain_def upt_rec)
next
  case (Suc n)
  then have "[65534 - Suc n..<65535] = (65534 - Suc n) # [Suc (65534 - Suc n)..<65535]"
    by (intro upt_conv_Cons) simp
  moreover from Suc.prems have "Suc (65534 - Suc n) = 65534 - n" by simp
  ultimately have "[65534 - Suc n..<65535] = (65534 - Suc n) # [65534 - n..<65535]" by (simp only:)
  moreover have "list_chain (65534 - Suc n) = Some \<lparr> nxt = Some (65534 - n), arg = 65534 - Suc n \<rparr>"
    using Suc.prems by (auto simp: list_chain_def)
  ultimately show ?case using Suc by simp
qed

lemma list_chain_rep:
  "list_rep (list_chain, \<lparr> p_Head = Some 0, p_Tail = Some 65534, lcount = 65535, mutexOpt = 1 \<rparr>) [0..<65535]"
  using list_chain_path [of 65534] by (simp add: list_rep_def del: upt_Suc)

theorem linked_list_count_wraps_witness:
  "\<exists>h' l'. List_Insert (\<lambda>_. Some 70000)
       (list_chain, \<lparr> p_Head = Some 0, p_Tail = Some 65534, lcount = 65535, mutexOpt = 1 \<rparr>) 5 = Inr (0, h', l')
     \<and> lcount l' = 0 \<and> List_GetHead (Some l') = None"
  using linked_list_count_wraps [OF list_chain_rep, of "\<lambda>_. Some 70000" 70000 5]
  by (auto simp: list_chain_def)

end
