(* ===== verification/Ota.thy ===== *)
theory Ota
  imports Firmware Context Linked_List
begin

text \<open>
  \<open>services/cloud_comm.c\<close>, the OTA side: the heartbeat to the OTA server and its answer, which
  lists upgrade tasks; the thread that works the task list off; the mission file, in which tasks for
  the next reboot survive it, and the timer that reads it back. The JSON library is a parameter:
  \<open>print\<close> and \<open>parse\<close> over the type \<open>json\<close>, whose numbers are cJSON's \<open>valueint\<close>. Memory that
  \<open>malloc\<close> returns is a parameter too (\<open>junk\<close>), for the fields nothing is assigned to.
\<close>

definition OTA_HEARTBEAT_URL :: string where "OTA_HEARTBEAT_URL = ''https://ota.cktt.com.cn/ota-server/heartbeat''"
definition OTA_UPREPORT_URL :: string where "OTA_UPREPORT_URL = ''https://ota.cktt.com.cn/ota-server/submitReport''"
definition CLOUD_SERVER_USERNAME :: string where "CLOUD_SERVER_USERNAME = ''123''"
definition CLOUD_SERVER_PASSWORD :: string where "CLOUD_SERVER_PASSWORD = ''123''"
definition MISSION_FILE_LOCAL_PATH :: string where "MISSION_FILE_LOCAL_PATH = ''/upgrade/cktt/ota_mission''"
definition SELF_UPGRADE_FILE_PATH :: string where "SELF_UPGRADE_FILE_PATH = ''/opt/upgrade.sh''"
definition FW_NEED_DOWNLOAD :: u8 where "FW_NEED_DOWNLOAD = 0xA0"

text \<open>\<open>strtok\<close> over the URL, each part copied into an array of 64: the last part, or nothing changed.\<close>

definition GetFileName :: "string \<Rightarrow> string \<Rightarrow> string io" where
  "GetFileName url file_name =
     (let ts = tokens [CHR ''/''] url in do {
        check_io (\<forall>t \<in> set ts. length t < 64) BufferOverflow;
        ret (if ts = [] then file_name else last ts) })"

subsection \<open>Heartbeat\<close>

record UnitInfo =
  unit_name :: string
  hw_ver :: string
  sw_ver :: string

record OtaHeartBeat =
  h_dev_addr :: string
  cpu_info :: string
  used_mem :: string
  total_mem :: string
  used_disk :: string
  total_disk :: string
  h_up_time :: string
  cur_time :: string
  units :: "UnitInfo list"
  unit_num :: u16

definition cleared_heartbeat :: OtaHeartBeat where
  "cleared_heartbeat = \<lparr> h_dev_addr = [], cpu_info = [], used_mem = [], total_mem = [], used_disk = [],
     total_disk = [], h_up_time = [], cur_time = [], units = [], unit_num = 0 \<rparr>"

text \<open>The formats \<open>%[^,],...,%[^,]\<close> with \<open>n\<close> fields.\<close>

fun comma_fields :: "nat \<Rightarrow> conv list" where
  "comma_fields 0 = []"
| "comma_fields (Suc 0) = [CUntil CHR '','']"
| "comma_fields (Suc n) = CUntil CHR '','' # CLit CHR '','' # comma_fields n"

definition scan_base_info :: "string \<Rightarrow> OtaHeartBeat \<Rightarrow> OtaHeartBeat io" where
  "scan_base_info resp h = (let vs = sscanf (CSp # comma_fields 8) resp in do {
     f0 \<leftarrow> scan_field vs 0 32 (h_dev_addr h); f1 \<leftarrow> scan_field vs 1 32 (cpu_info h);
     f2 \<leftarrow> scan_field vs 2 32 (total_disk h); f3 \<leftarrow> scan_field vs 3 32 (used_disk h);
     f4 \<leftarrow> scan_field vs 4 32 (total_mem h); f5 \<leftarrow> scan_field vs 5 32 (used_mem h);
     f6 \<leftarrow> scan_field vs 6 32 (h_up_time h); f7 \<leftarrow> scan_field vs 7 32 (cur_time h);
     ret (h\<lparr> h_dev_addr := f0, cpu_info := f1, total_disk := f2, used_disk := f3, total_mem := f4,
             used_mem := f5, h_up_time := f6, cur_time := f7 \<rparr>) })"

text \<open>The boot time kept with the device information, in an array of 30.\<close>

definition keep_up_time :: "string \<Rightarrow> DevBaseInfo \<Rightarrow> DevBaseInfo io" where
  "keep_up_time up b =
     (if strncmp_eq up (up_time b) (length up) then ret b
      else do { check_io (length up < 30) BufferOverflow; ret (b\<lparr> up_time := up \<rparr>) })"

definition scan_unit :: "UnitInfo \<Rightarrow> string \<Rightarrow> UnitInfo io" where
  "scan_unit junk token =
     (let vs = sscanf [CUntil CHR '':'', CLit CHR '':'', CUntil CHR '','', CLit CHR '','', CWord] token in do {
        n \<leftarrow> scan_field vs 0 32 (unit_name junk);
        s \<leftarrow> scan_field vs 1 32 (sw_ver junk);
        h \<leftarrow> scan_field vs 2 32 (hw_ver junk);
        ret \<lparr> unit_name = n, hw_ver = h, sw_ver = s \<rparr> })"

fun scan_units :: "UnitInfo \<Rightarrow> string list \<Rightarrow> UnitInfo list io" where
  "scan_units junk [] = ret []"
| "scan_units junk (t # ts) = do { u \<leftarrow> scan_unit junk t; us \<leftarrow> scan_units junk ts; ret (u # us) }"

definition get_ota_heartbeat_info ::
    "UnitInfo \<Rightarrow> OtaHeartBeat \<Rightarrow> DevBaseInfo \<Rightarrow> (int \<times> OtaHeartBeat \<times> DevBaseInfo) io" where
  "get_ota_heartbeat_info junk h b = do {
     c \<leftarrow> SSHClient_Init SERVER_IP SERVER_USERNAME SERVER_PASSWORD;
     (ok, c) \<leftarrow> SSHClient_Connect c;
     if ok \<noteq> 0 then do { SSHClient_Destroy c; ret (-1, h, b) }
     else do {
       (r, resp) \<leftarrow> SSHClient_Execute c ''bash /home/cktt/script/updater.sh base_info'' [] 512;
       if r \<noteq> 0 then do { SSHClient_Destroy c; ret (-1, h, b) }
       else do {
         h \<leftarrow> scan_base_info resp h;
         b \<leftarrow> keep_up_time (h_up_time h) b;
         (r, resp) \<leftarrow> SSHClient_Execute c ''bash /home/cktt/script/updater.sh unit_info'' [] 512;
         if r \<noteq> 0 then do { SSHClient_Destroy c; ret (-1, h, b) }
         else do {
           check_io (length resp < 256) BufferOverflow;
           us \<leftarrow> scan_units junk (tokens [CHR '';''] resp);
           SSHClient_Destroy c;
           ret (0, h\<lparr> units := us, unit_num := unit_num h + of_nat (length us) \<rparr>, b) } } } }"

definition create_unit_info_object :: "UnitInfo \<Rightarrow> nat \<Rightarrow> json" where
  "create_unit_info_object u ty =
     JObject [(if ty = 1 then ''software'' else ''hardware'', JString (unit_name u)),
              (''version'', JString (snprintf 64 (''V'' @ (if ty = 1 then sw_ver u else hw_ver u))))]"

text \<open>The number of units is a \<open>uint8_t\<close> here.\<close>

definition create_unit_info_array :: "u8 \<Rightarrow> UnitInfo list \<Rightarrow> nat \<Rightarrow> json" where
  "create_unit_info_array num us ty = JArray (map (\<lambda>u. create_unit_info_object u ty) (take (unat num) us))"

definition heartbeat_json :: "OtaHeartBeat \<Rightarrow> json" where
  "heartbeat_json h = JObject
     [(''lang'', JString ''zh_CN''), (''deviceAddress'', JString (h_dev_addr h)), (''usageCpu'', JString (cpu_info h)),
      (''usageMemory'', JString (used_mem h)), (''totalMemory'', JString (total_mem h)),
      (''usageDisk'', JString (used_disk h)), (''totalDisk'', JString (total_disk h)),
      (''upTime'', JString (h_up_time h)), (''systemTime'', JString (cur_time h)), (''extendInfo'', JString []),
      (''hardwareList'', create_unit_info_array (ucast (unit_num h)) (units h) 0),
      (''softwareList'', create_unit_info_array (ucast (unit_num h)) (units h) 1)]"

text \<open>The caller's buffer has 1024 bytes.\<close>

definition create_ota_heartbeat_data ::
    "(json \<Rightarrow> string) \<Rightarrow> UnitInfo \<Rightarrow> DevBaseInfo \<Rightarrow> (int \<times> string \<times> DevBaseInfo) io" where
  "create_ota_heartbeat_data print junk b = do {
     (r, h, b) \<leftarrow> get_ota_heartbeat_info junk cleared_heartbeat b;
     if r \<noteq> 0 then ret (-1, [], b)
     else (let buf = print (heartbeat_json h) in do {
       check_io (length buf < 1024) BufferOverflow;
       ret (0, buf, b) }) }"

subsection \<open>Report\<close>

definition report_json :: "DevBaseInfo \<Rightarrow> FwUpdateInfo \<Rightarrow> json" where
  "report_json b i = JObject
     [(''lang'', JString ''zh_CN''), (''deviceAddress'', JString (snprintf 10 (dec (unat (dev_addr b))))),
      (''taskId'', JNumber (uint (fw_id i))), (''executionTime'', JString (r_time (resp_info i))),
      (''executionReport'', JString (r_report (resp_info i)))]"

definition create_ota_report_data :: "(json \<Rightarrow> string) \<Rightarrow> DevBaseInfo \<Rightarrow> FwUpdateInfo \<Rightarrow> string io" where
  "create_ota_report_data print b i =
     (let buf = print (report_json b i) in do { check_io (length buf < 10240) BufferOverflow; ret buf })"

definition do_ota_report :: "(json \<Rightarrow> string) \<Rightarrow> DevBaseInfo \<Rightarrow> FwUpdateInfo \<Rightarrow> unit io" where
  "do_ota_report print b i = do {
     buf \<leftarrow> create_ota_report_data print b i;
     http_post_request OTA_UPREPORT_URL buf None;
     ret () }"

subsection \<open>Tasks\<close>

record FwDownInfo =
  d_id :: u16
  d_url :: string
  d_md5 :: string
  d_type :: string
  d_flag :: u8

definition task_id :: "FwDownInfo \<Rightarrow> string" where
  "task_id p = dec (unat (d_id p))"

text \<open>A line of the mission file.\<close>

definition mission_line :: "FwDownInfo \<Rightarrow> string \<Rightarrow> string" where
  "mission_line p up = task_id p @ '','' @ d_url p @ '','' @ d_md5 p @ '','' @ d_type p @ '','' @ up @ '','' @ [newline]"

definition log_name :: "DevBaseInfo \<Rightarrow> FwDownInfo \<Rightarrow> CustomTime \<Rightarrow> string" where
  "log_name b p t = snprintf 100 (UPGRADE_FILE_LOCAL_PATH @ task_id p @ ''/'' @ dec0 4 (unat (dev_addr b)) @ ''_'' @
     task_id p @ ''_'' @ dec0 4 (unat (usYear t)) @ dec0 2 (unat (ucMonth t)) @ dec0 2 (unat (ucDay t)) @
     dec0 2 (unat (ucHour t)) @ dec0 2 (unat (ucMinute t)) @ ''.log'')"

definition find_cmd :: "DevBaseInfo \<Rightarrow> FwDownInfo \<Rightarrow> string" where
  "find_cmd b p = ''find '' @ UPGRADE_FILE_LOCAL_PATH @ task_id p @ ''/ -name \"'' @ dec0 4 (unat (dev_addr b)) @ ''_'' @
     task_id p @ ''*.log\" | tr -d '' @ quoted [newline, CHR 0x0D]"

text \<open>The two ways to start: download now, or resume after a reboot. The log file and the task type.\<close>

definition download_package ::
    "DevBaseInfo \<Rightarrow> FwDownInfo \<Rightarrow> string \<Rightarrow> string \<Rightarrow> (string \<times> string) io" where
  "download_package b p file_name local_path = do {
     system_run (snprintf 64 (''mkdir -p '' @ UPGRADE_FILE_LOCAL_PATH @ task_id p));
     t \<leftarrow> read_clock;
     let log = log_name b p t in do {
       UPDATE_LOG log (time_str t @ '' upgrade mission '' @ task_id p @ [newline]);
       UPDATE_LOG log (''start to download ota file '' @ file_name @ [newline]);
       r \<leftarrow> ftp_download (d_url p) local_path None CLOUD_SERVER_USERNAME CLOUD_SERVER_PASSWORD;
       UPDATE_LOG log (if r = 0 then ''download ota file '' @ file_name @ '' success'' @ [newline]
                       else ''task '' @ task_id p @ '' download file failed'' @ [newline]);
       (if contains (d_type p) OTA_TASK_NEXT
        then UPDATE_LOG MISSION_FILE_LOCAL_PATH (mission_line p (up_time b)) else ret ());
       ret (log, d_type p) } }"

definition resume_package :: "DevBaseInfo \<Rightarrow> FwDownInfo \<Rightarrow> (string \<times> string) io" where
  "resume_package b p = do {
     (_, log) \<leftarrow> system_capture (snprintf 64 (find_cmd b p)) 100 [];
     t \<leftarrow> read_clock;
     UPDATE_LOG log (time_str t @ '' start to excute mission '' @ task_id p @ '' '' @ log @ [newline]);
     ret (log, snprintf 20 OTA_TASK_REBOOTED) }"

text \<open>One turn of the loop of \<open>do_downlaod_firmware\<close>; its local \<open>file_name\<close> survives the turn.\<close>

definition download_task :: "(json \<Rightarrow> string) \<Rightarrow> DevBaseInfo \<Rightarrow> FwDownInfo \<Rightarrow> string \<Rightarrow> string io" where
  "download_task print b p file_name = do {
     file_name \<leftarrow> GetFileName (d_url p) file_name;
     let local_path = snprintf 128 (UPGRADE_FILE_LOCAL_PATH @ task_id p @ ''/'' @ file_name) in do {
       (log, ty) \<leftarrow> (if d_flag p = FW_NEED_DOWNLOAD then download_package b p file_name local_path
                     else resume_package b p);
       (r, up_info) \<leftarrow> do_upgrade_firmware print
          \<lparr> fw_path = local_path, fw_name = file_name, fw_md5 = d_md5 p, fw_id = d_id p, fw_type = ty, fw_log = log,
             resp_info = \<lparr> r_log = [], r_time = [], r_report = [], r_conf = [], r_down = [] \<rparr> \<rparr>;
       (if r = 0 then do_ota_report print b up_info else ret ());
       ret file_name } }"

text \<open>The loop, with fuel; \<open>None\<close> is out of fuel. The list's lock is held all the time.\<close>

fun download_loop ::
    "(json \<Rightarrow> string) \<Rightarrow> DevBaseInfo \<Rightarrow> nat \<Rightarrow> FwDownInfo list_state \<Rightarrow> string \<Rightarrow> FwDownInfo list_state option io" where
  "download_loop print b 0 s file_name = ret None"
| "download_loop print b (Suc n) s file_name =
     (case List_GetHead (Some (snd s)) of
        None \<Rightarrow> ret (Some s)
      | Some a \<Rightarrow>
          (case fst s a of
             None \<Rightarrow> do { fault_io UseAfterFree; ret (Some s) }
           | Some nd \<Rightarrow> do {
               file_name \<leftarrow> download_task print b (arg nd) file_name;
               case List_DelHead s of
                 Inl e \<Rightarrow> do { fault_io e; ret (Some s) }
               | Inr (_, s') \<Rightarrow> download_loop print b n s' file_name }))"

definition do_downlaod_firmware ::
    "(json \<Rightarrow> string) \<Rightarrow> DevBaseInfo \<Rightarrow> FwDownInfo list_state \<Rightarrow> FwDownInfo list_state option io" where
  "do_downlaod_firmware print b s =
     (if 0 < unat (lcount (snd s)) then download_loop print b (Suc (unat (lcount (snd s)))) s [] else ret (Some s))"

fun run_tasks :: "(json \<Rightarrow> string) \<Rightarrow> DevBaseInfo \<Rightarrow> FwDownInfo list \<Rightarrow> string \<Rightarrow> unit io" where
  "run_tasks print b [] file_name = ret ()"
| "run_tasks print b (p # ps) file_name = do {
     file_name \<leftarrow> download_task print b p file_name;
     run_tasks print b ps file_name }"

lemma download_loop_runs:
  assumes "list_ready malloc s" "length (list_contents s) < n"
  shows "\<exists>s'. run_state (download_loop print b n s fn) w =
       (Some s', snd (run_state (run_tasks print b (list_contents s) fn) w)) \<and>
     list_ready malloc s' \<and> list_contents s' = []"
  using assms
proof (induction "list_contents s" arbitrary: n s fn w)
  case Nil
  then obtain m where n: "n = Suc m" by (cases n) auto
  have "List_GetHead (Some (snd s)) = None"
    using linked.deq_empty [OF Nil.prems(1)] Nil.hyps by (auto simp: list_get_def split: option.splits sum.splits)
  with n Nil show ?case by (intro exI [of _ s]) simp
next
  case (Cons p ps)
  from Cons.prems(2) obtain m where n: "n = Suc m" by (cases n) auto
  from linked.deq_first [OF Cons.prems(1) Cons.hyps(2) [symmetric]] obtain s' where
    g: "list_get s = Inr (Some (p, s'))" "list_ready malloc s'" "list_contents s' = ps" by auto
  then obtain a nd z where h: "List_GetHead (Some (snd s)) = Some a" "fst s a = Some nd" "arg nd = p"
    "List_DelHead s = Inr (z, s')"
    by (auto simp: list_get_def split: option.splits sum.splits)
  obtain fn' w' where t: "run_state (download_task print b p fn) w = (fn', w')" by fastforce
  have "length (list_contents s') < m" using Cons.prems(2) Cons.hyps(2) n g(3) by (metis Suc_less_eq length_Cons)
  from Cons.hyps(1) [OF g(3) [symmetric] g(2) this, of fn' w'] show ?case
    using h t n Cons.hyps(2) [symmetric] g(3) by simp
qed

lemma ready_count: "list_ready malloc s \<Longrightarrow> unat (lcount (snd s)) = length (list_contents s)"
  using length_list_contents [of s "nodes s"] by (simp add: list_ready_def list_inv_def list_rep_def)

lemma download_firmware_runs:
  assumes "list_ready malloc s"
  shows "\<exists>s'. run_state (do_downlaod_firmware print b s) w =
       (Some s', snd (run_state (run_tasks print b (list_contents s) []) w)) \<and>
     list_ready malloc s' \<and> list_contents s' = []"
  using download_loop_runs [OF assms, of "Suc (length (list_contents s))" print b "[]" w] assms ready_count [OF assms]
  by (cases "list_contents s") (auto simp: do_downlaod_firmware_def)


lemma wf_ota [wf_io_intros]:
  "wf_io (GetFileName url fn)" "wf_io (scan_base_info resp h)" "wf_io (keep_up_time up b)" "wf_io (scan_unit junk tk)"
  unfolding GetFileName_def scan_base_info_def keep_up_time_def scan_unit_def Let_def
  by (intro wf_io_intros)+

lemma wf_scan_units [wf_io_intros]: "wf_io (scan_units junk ts)"
  by (induction ts) (auto intro!: wf_io_intros)

lemma wf_ota_task [wf_io_intros]:
  "wf_io (get_ota_heartbeat_info junk h b)" "wf_io (create_ota_heartbeat_data print junk b)"
  "wf_io (create_ota_report_data print b i)" "wf_io (do_ota_report print b i)"
  "wf_io (download_package b p fn lp)" "wf_io (resume_package b p)" "wf_io (download_task print b p fn)"
  unfolding get_ota_heartbeat_info_def create_ota_heartbeat_data_def create_ota_report_data_def do_ota_report_def
    download_package_def resume_package_def download_task_def Let_def
  by (intro wf_io_intros)+


subsection \<open>The answer to the heartbeat\<close>

fun cJSON_GetObjectItem :: "json \<Rightarrow> string \<Rightarrow> json option" where
  "cJSON_GetObjectItem (JObject kvs) k = map_of kvs k"
| "cJSON_GetObjectItem _ k = None"

text \<open>A task is an object with a number and three strings; other entries are skipped.\<close>

definition task_of :: "json \<Rightarrow> (int \<times> string \<times> string \<times> string) option" where
  "task_of j =
     (case (cJSON_GetObjectItem j ''taskId'', cJSON_GetObjectItem j ''artifactUrl'',
            cJSON_GetObjectItem j ''artifactMd5'', cJSON_GetObjectItem j ''taskType'') of
        (Some (JNumber n), Some (JString u), Some (JString m), Some (JString ty)) \<Rightarrow> Some (n, u, m, ty)
      | _ \<Rightarrow> None)"

definition down_info :: "int \<times> string \<times> string \<times> string \<Rightarrow> FwDownInfo" where
  "down_info = (\<lambda>(n, u, m, ty). \<lparr> d_id = word_of_int n, d_url = u, d_md5 = m, d_type = ty, d_flag = FW_NEED_DOWNLOAD \<rparr>)"

text \<open>The \<open>strcpy\<close>s into the arrays of 128, 64 and 20.\<close>

definition task_fits :: "int \<times> string \<times> string \<times> string \<Rightarrow> bool" where
  "task_fits = (\<lambda>(n, u, m, ty). length u < 128 \<and> length m < 64 \<and> length ty < 20)"

fun insert_tasks ::
    "(FwDownInfo heap \<Rightarrow> addr option) \<Rightarrow> json list \<Rightarrow> FwDownInfo list_state \<Rightarrow> FwDownInfo list_state outcome" where
  "insert_tasks malloc [] s = Inr s"
| "insert_tasks malloc (j # js) s =
     (case task_of j of
        None \<Rightarrow> insert_tasks malloc js s
      | Some v \<Rightarrow>
          if task_fits v
          then (case List_Insert malloc s (down_info v) of Inl e \<Rightarrow> Inl e | Inr (_, s') \<Rightarrow> insert_tasks malloc js s')
          else Inl BufferOverflow)"

definition ota_heartbeat_resp_parse ::
    "(FwDownInfo heap \<Rightarrow> addr option) \<Rightarrow> (string \<Rightarrow> json option) \<Rightarrow> FwDownInfo list_state \<Rightarrow> string option \<Rightarrow>
       (int \<times> FwDownInfo list_state) outcome" where
  "ota_heartbeat_resp_parse malloc parse s respond =
     (case Option.bind respond parse of
        None \<Rightarrow> Inr (-1, s)
      | Some root \<Rightarrow>
          if (case cJSON_GetObjectItem root ''code'' of Some (JString c) \<Rightarrow> c \<noteq> ''SUCCESS'' | _ \<Rightarrow> False)
          then Inr (-1, s)
          else (case cJSON_GetObjectItem root ''taskList'' of
                  Some (JArray items) \<Rightarrow>
                    (case insert_tasks malloc items s of Inl e \<Rightarrow> Inl e | Inr s' \<Rightarrow> Inr (0, s'))
                | _ \<Rightarrow> Inr (0, s)))"

text \<open>The heartbeat timer: the device information and the task list after it.\<close>

definition ota_heartbeat_task_cb ::
    "(FwDownInfo heap \<Rightarrow> addr option) \<Rightarrow> (json \<Rightarrow> string) \<Rightarrow> (string \<Rightarrow> json option) \<Rightarrow> UnitInfo \<Rightarrow>
       DevBaseInfo \<Rightarrow> FwDownInfo list_state \<Rightarrow> (DevBaseInfo \<times> FwDownInfo list_state) io" where
  "ota_heartbeat_task_cb malloc print parse junk b s = do {
     (r, buf, b) \<leftarrow> create_ota_heartbeat_data print junk b;
     if r \<noteq> 0 then ret (b, s)
     else do {
       (r, resp) \<leftarrow> http_post_request OTA_HEARTBEAT_URL buf None;
       if r \<noteq> 0 then ret (b, s)
       else (case ota_heartbeat_resp_parse malloc parse s resp of
               Inl e \<Rightarrow> do { fault_io e; ret (b, s) }
             | Inr (_, s') \<Rightarrow> ret (b, s')) } }"

subsection \<open>The mission file after a reboot\<close>

definition mission_format :: "conv list" where
  "mission_format = CDec # CLit CHR '','' # comma_fields 4 @ [CLit CHR '','']"

definition mission_cmd :: "nat \<Rightarrow> string" where
  "mission_cmd k = snprintf 128 (''sed -n '' @ quoted (dec k @ ''p'') @ '' '' @ MISSION_FILE_LOCAL_PATH)"

text \<open>A line scanned into a task, of which \<open>old\<close> gives the fields not assigned, and the boot time.\<close>

definition scan_mission :: "string \<Rightarrow> FwDownInfo \<Rightarrow> string \<Rightarrow> (FwDownInfo \<times> string) io" where
  "scan_mission line old uptime = (let vs = sscanf mission_format line in do {
     u \<leftarrow> scan_field vs 1 128 (d_url old);
     m \<leftarrow> scan_field vs 2 64 (d_md5 old);
     ty \<leftarrow> scan_field vs 3 20 (d_type old);
     up \<leftarrow> scan_field vs 4 30 uptime;
     ret (old\<lparr> d_id := get_int vs 0 (d_id old), d_url := u, d_md5 := m, d_type := ty \<rparr>, up) })"

fun requeue_missions ::
    "(FwDownInfo heap \<Rightarrow> addr option) \<Rightarrow> FwDownInfo \<Rightarrow> nat list \<Rightarrow> string \<Rightarrow> string \<Rightarrow> FwDownInfo list_state \<Rightarrow>
       FwDownInfo list_state io" where
  "requeue_missions malloc junk [] resp uptime s = ret s"
| "requeue_missions malloc junk (k # ks) resp uptime s = do {
     (_, resp) \<leftarrow> system_capture (mission_cmd (k + 1)) 256 resp;
     (p, uptime) \<leftarrow> scan_mission resp junk uptime;
     case List_Insert malloc s (p\<lparr> d_flag := 0 \<rparr>) of
       Inl e \<Rightarrow> do { fault_io e; ret s }
     | Inr (_, s') \<Rightarrow> requeue_missions malloc junk ks resp uptime s' }"

definition count_cmd :: string where "count_cmd = snprintf 128 (''wc -l '' @ MISSION_FILE_LOCAL_PATH)"
definition remove_cmd :: string where "remove_cmd = snprintf 128 (''rm -rf '' @ MISSION_FILE_LOCAL_PATH)"

definition check_missions ::
    "(FwDownInfo heap \<Rightarrow> addr option) \<Rightarrow> FwDownInfo \<Rightarrow> DevBaseInfo \<Rightarrow> FwDownInfo list_state \<Rightarrow> FwDownInfo list_state io" where
  "check_missions malloc junk b s = do {
     (_, resp) \<leftarrow> system_capture count_cmd 256 [];
     let num = get_int (sscanf [CDec] resp) 0 (0 :: u8) in do {
       (_, resp) \<leftarrow> system_capture (mission_cmd 1) 256 resp;
       (_, uptime) \<leftarrow> scan_mission resp junk [];
       if strncmp_eq uptime (up_time b) (length uptime) then ret s
       else do {
         s' \<leftarrow> requeue_missions malloc junk [0..<unat num] resp uptime s;
         system_run remove_cmd;
         ret s' } } }"

definition reboot_upgrade_task_cb ::
    "(FwDownInfo heap \<Rightarrow> addr option) \<Rightarrow> FwDownInfo \<Rightarrow> DevBaseInfo \<Rightarrow> FwDownInfo list_state \<Rightarrow> FwDownInfo list_state io" where
  "reboot_upgrade_task_cb malloc junk b s = do {
     r \<leftarrow> is_file_empty MISSION_FILE_LOCAL_PATH;
     s \<leftarrow> (if r = 0 then check_missions malloc junk b s else ret s);
     e \<leftarrow> file_exists SELF_UPGRADE_FILE_PATH;
     (if e then tell (Sys (System (snprintf 128 (''bash '' @ SELF_UPGRADE_FILE_PATH @ '' &'')))) else ret ());
     ret s }"

subsection \<open>The task list is worked off in order\<close>

text \<open>
  C7: \<open>do_downlaod_firmware\<close> terminates with an empty list, having handled every task once, in the
  order of arrival, whatever the downloads and upgrades returned, with no node used after its release.
\<close>

theorem tasks_worked_off:
  assumes "list_ready malloc s"
  shows "\<exists>s'. run_state (do_downlaod_firmware print b s) w =
       (Some s', snd (run_state (run_tasks print b (list_contents s) []) w)) \<and>
     list_ready malloc s' \<and> list_contents s' = []"
  using assms by (rule download_firmware_runs)

subsection \<open>Tasks of an answer\<close>

lemma insert_tasks_spec:
  assumes "list_ready malloc s" "length (list_contents s) + length js < 65535"
  shows "if \<forall>v \<in> set (List.map_filter task_of js). task_fits v
         then \<exists>s'. insert_tasks malloc js s = Inr s' \<and> list_ready malloc s' \<and>
           list_contents s' = list_contents s @ map down_info (List.map_filter task_of js)
         else insert_tasks malloc js s = Inl BufferOverflow"
  using assms
proof (induction js arbitrary: s)
  case Nil
  then show ?case by (simp add: List.map_filter_simps)
next
  case (Cons j js)
  show ?case
  proof (cases "task_of j")
    case None
    have "length (list_contents s) + length js < 65535" using Cons.prems(2) by simp
    from Cons.IH [OF Cons.prems(1) this] None show ?thesis by (simp only: List.map_filter_simps insert_tasks.simps option.case)
  next
    case (Some v)
    from linked.enq_accept [OF Cons.prems(1), of "down_info v"] Cons.prems(2) obtain s' where
      "List_Insert malloc s (down_info v) = Inr (0, s')" "list_ready malloc s'"
      "list_contents s' = list_contents s @ [down_info v]" by (auto simp: list_put_def)
    with Cons.IH [of s'] Cons.prems(2) Some show ?thesis
      by (auto simp: List.map_filter_simps)
  qed
qed


text \<open>
  C24: An answer with a successful or absent code appends to the task list exactly its well-formed tasks, in
  the order given, entries of any other shape being skipped; an answer with another code or none at
  all changes nothing and is refused; a task whose URL, MD5 or type does not fit its array overruns it.
\<close>

theorem answer_tasks_queued:
  assumes "list_ready malloc s" "Option.bind respond parse = Some root"
    and "cJSON_GetObjectItem root ''taskList'' = Some (JArray items)" "length (list_contents s) + length items < 65535"
  shows "if \<exists>c. cJSON_GetObjectItem root ''code'' = Some (JString c) \<and> c \<noteq> ''SUCCESS''
         then ota_heartbeat_resp_parse malloc parse s respond = Inr (-1, s)
         else if \<forall>v \<in> set (List.map_filter task_of items). task_fits v
         then \<exists>s'. ota_heartbeat_resp_parse malloc parse s respond = Inr (0, s') \<and> list_ready malloc s' \<and>
           list_contents s' = list_contents s @ map down_info (List.map_filter task_of items)
         else ota_heartbeat_resp_parse malloc parse s respond = Inl BufferOverflow"
proof -
  have code: "(case cJSON_GetObjectItem root ''code'' of Some (JString c) \<Rightarrow> c \<noteq> ''SUCCESS'' | _ \<Rightarrow> False) \<longleftrightarrow>
      (\<exists>c. cJSON_GetObjectItem root ''code'' = Some (JString c) \<and> c \<noteq> ''SUCCESS'')"
    by (auto split: option.splits json.splits)
  show ?thesis
    using insert_tasks_spec [OF assms(1,4)] assms(2,3)
    by (auto simp: ota_heartbeat_resp_parse_def code split: if_split_asm)
qed

definition ota_root :: json where
  "ota_root = JObject [(''code'', JString ''SUCCESS''), (''taskList'', JArray
     [JObject [(''taskId'', JNumber 7), (''artifactUrl'', JString ''ftp://h/p.tgz''), (''artifactMd5'', JString ''d41d8''),
               (''taskType'', JString ''NEXT_REBOOT'')],
      JObject [(''taskId'', JString ''8'')]])]"

definition ota_task :: FwDownInfo where
  "ota_task = \<lparr> d_id = 7, d_url = ''ftp://h/p.tgz'', d_md5 = ''d41d8'', d_type = ''NEXT_REBOOT'', d_flag = FW_NEED_DOWNLOAD \<rparr>"

definition no_tasks :: "FwDownInfo list_state" where
  "no_tasks = (Map.empty, snd (List_Init_Thread \<lparr> p_Head = None, p_Tail = None, lcount = 0, mutexOpt = 0 \<rparr>))"

lemma no_tasks_ready: "list_ready first_free no_tasks" "list_contents no_tasks = []"
  by (simp_all add: list_ready_def first_free_ok no_tasks_def List_Init_Thread_def list_inv_def list_rep_def nodes_def list_contents_def)

theorem answer_tasks_queued_witness:
  "\<exists>s'. ota_heartbeat_resp_parse first_free (\<lambda>_. Some ota_root) no_tasks (Some ''r'') = Inr (0, s') \<and>
     list_contents s' = [ota_task]"
  using answer_tasks_queued [OF no_tasks_ready(1), of "Some ''r''" "\<lambda>_. Some ota_root" ota_root]
  by (auto simp: ota_root_def task_of_def List.map_filter_simps no_tasks_ready task_fits_def down_info_def ota_task_def)

lemma one_task: "\<exists>s. list_ready first_free s \<and> list_contents s = [ota_task]"
  using linked.enq_accept [OF no_tasks_ready(1), of ota_task] by (auto simp: no_tasks_ready list_put_def)

theorem tasks_worked_off_witness:
  "\<exists>s s'. list_contents s = [ota_task] \<and> list_contents s' = [] \<and>
     run_state (do_downlaod_firmware (\<lambda>_. ''{}'') info_example s) quiet_world =
       (Some s', snd (run_state (run_tasks (\<lambda>_. ''{}'') info_example [ota_task] []) quiet_world))"
proof -
  obtain s where s: "list_ready first_free s" "list_contents s = [ota_task]" using one_task by blast
  from tasks_worked_off [OF s(1), of "\<lambda>_. ''{}''" info_example quiet_world] s(2) show ?thesis by fastforce
qed

subsection \<open>A mission survives the reboot\<close>

text \<open>The fields of a task that a line of the mission file can carry.\<close>

definition line_field :: "nat \<Rightarrow> string \<Rightarrow> bool" where
  "line_field cap s \<longleftrightarrow> s \<noteq> [] \<and> length s < cap \<and> CHR '','' \<notin> set s \<and> newline \<notin> set s \<and> CHR 0x00 \<notin> set s"

definition mission_ok :: "FwDownInfo \<Rightarrow> string \<Rightarrow> bool" where
  "mission_ok p up \<longleftrightarrow> line_field 128 (d_url p) \<and> line_field 64 (d_md5 p) \<and> line_field 20 (d_type p) \<and> line_field 30 up"

lemma sscanf_mission:
  assumes "mission_ok p up"
  shows "sscanf mission_format (mission_line p up) =
     [SInt (uint (d_id p)), SStr (d_url p), SStr (d_md5 p), SStr (d_type p), SStr up]"
proof -
  have fmt: "mission_format = [CDec, CLit CHR '','', CUntil CHR '','', CLit CHR '','', CUntil CHR '','', CLit CHR '','',
      CUntil CHR '','', CLit CHR '','', CUntil CHR '','', CLit CHR '','']"
    by (simp add: mission_format_def numeral_eq_Suc)
  have line: "mission_line p up = dec (unat (d_id p)) @ CHR '','' # d_url p @ CHR '','' # d_md5 p @ CHR '','' # d_type p @
      CHR '','' # up @ CHR '','' # [newline]"
    by (simp add: mission_line_def task_id_def)
  have f: "d_url p \<noteq> []" "CHR '','' \<notin> set (d_url p)" "d_md5 p \<noteq> []" "CHR '','' \<notin> set (d_md5 p)"
    "d_type p \<noteq> []" "CHR '','' \<notin> set (d_type p)" "up \<noteq> []" "CHR '','' \<notin> set up"
    using assms by (auto simp: mission_ok_def line_field_def)
  have n: "unat (d_id p) < 2 ^ 63" by (rule less_trans [OF unat_u16_bound]) simp
  show ?thesis
    unfolding fmt line
    by (subst sscanf_CDec_dec [OF n], simp add: is_digit_def)
      (simp only: sscanf_CLit sscanf_CUntil_field [OF f(1,2)] sscanf_CUntil_field [OF f(3,4)] sscanf_CUntil_field [OF f(5,6)]
        sscanf_CUntil_field [OF f(7,8)] sscanf.simps(1) uint_nat [symmetric])
qed

lemma length_mission_line: "mission_ok p up \<Longrightarrow> length (mission_line p up) < 256"
  using length_dec_u16 [OF unat_u16_bound, of "d_id p"]
  by (auto simp: mission_ok_def line_field_def mission_line_def task_id_def)

lemma nul_free_mission_line: "mission_ok p up \<Longrightarrow> CHR 0x00 \<notin> set (mission_line p up)"
  by (auto simp: mission_ok_def line_field_def mission_line_def task_id_def newline_def is_digit_def dest: dec_digits)


lemma capture_line:
  assumes "ub w = None" "env w (trace w) (Sys (Popen cmd)) = \<lparr> rc = 1, vl = 0, out = [l @ [newline]] \<rparr>"
    and "newline \<notin> set l" "CHR 0x00 \<notin> set l" "Suc (length l) < n"
  shows "run_state (system_capture cmd n old) w =
     ((0, l @ [newline]), w\<lparr> trace := trace w @ [(Sys (Popen cmd), \<lparr> rc = 1, vl = 0, out = [l @ [newline]] \<rparr>)] \<rparr>)"
proof -
  have f: "newline \<notin> set l \<Longrightarrow> length l < m \<Longrightarrow> fgets m (l @ [newline]) = (l @ [newline], [])" for m
    by (induction m l rule: fgets.induct) auto
  have "last_chunk (n - 1) [] (l @ [newline]) = l @ [newline]"
    using assms(5) f [OF assms(3), of "n - 1"]
    by (subst last_chunk.simps, simp) (simp add: last_chunk.simps [of _ _ "[]"])
  moreover have "c_str (l @ [newline]) = l @ [newline]"
    using assms(4) by (intro c_str_id) (simp add: newline_def)
  ultimately show ?thesis using assms by (simp add: system_capture_def Let_def)
qed

definition mission_body :: "FwDownInfo \<Rightarrow> string \<Rightarrow> string" where
  "mission_body p up = task_id p @ '','' @ d_url p @ '','' @ d_md5 p @ '','' @ d_type p @ '','' @ up @ '',''"

lemma mission_line_eq: "mission_line p up = mission_body p up @ [newline]"
  by (simp add: mission_line_def mission_body_def)

lemma newline_free_mission: "mission_ok p up \<Longrightarrow> newline \<notin> set (mission_body p up)"
  by (auto simp: mission_ok_def line_field_def mission_body_def task_id_def newline_def is_digit_def dest: dec_digits)

lemma capture_mission:
  assumes "ub w = None" "env w (trace w) (Sys (Popen cmd)) = \<lparr> rc = 1, vl = 0, out = [mission_line p up] \<rparr>" "mission_ok p up"
  shows "run_state (system_capture cmd 256 old) w =
     ((0, mission_line p up), w\<lparr> trace := trace w @ [(Sys (Popen cmd), \<lparr> rc = 1, vl = 0, out = [mission_line p up] \<rparr>)] \<rparr>)"
  unfolding mission_line_eq
  using assms(2) length_mission_line [OF assms(3)] nul_free_mission_line [OF assms(3)]
  by (intro capture_line assms(1) newline_free_mission assms(3)) (simp_all add: mission_line_eq)

lemma run_scan_mission:
  "mission_ok p up \<Longrightarrow> run_state (scan_mission (mission_line p up) old u) w = ((p\<lparr> d_flag := d_flag old \<rparr>, up), w)"
  by (simp add: scan_mission_def sscanf_mission scan_field_def get_str_def get_int_def check_io_def mission_ok_def line_field_def)

definition count_line :: "nat \<Rightarrow> string" where
  "count_line n = dec n @ '' '' @ MISSION_FILE_LOCAL_PATH"

definition mission_answers :: "world \<Rightarrow> FwDownInfo list \<Rightarrow> string \<Rightarrow> bool" where
  "mission_answers w ps up \<longleftrightarrow>
     (\<forall>tr. env w tr (Sys (FOpen MISSION_FILE_LOCAL_PATH ''r'')) = \<lparr> rc = 1, vl = 1, out = [] \<rparr>) \<and>
     (\<forall>tr. env w tr (Sys (Popen count_cmd)) =
        \<lparr> rc = 1, vl = 0, out = [count_line (length ps) @ [newline]] \<rparr>) \<and>
     (\<forall>tr. \<forall>k < length ps. env w tr (Sys (Popen (mission_cmd (k + 1)))) =
        \<lparr> rc = 1, vl = 0, out = [mission_line (ps ! k) up] \<rparr>)"

lemma requeue_run:
  assumes "list_ready malloc s" "ub w = None" "mission_answers w ps up" "\<forall>p \<in> set ps. mission_ok p up"
    and "\<forall>k \<in> set ks. k < length ps" "length (list_contents s) + length ks < 65535"
  shows "\<exists>s' es. run_state (requeue_missions malloc junk ks resp u s) w = (s', w\<lparr> trace := trace w @ es \<rparr>) \<and>
     list_ready malloc s' \<and> list_contents s' = list_contents s @ map (\<lambda>k. (ps ! k)\<lparr> d_flag := 0 \<rparr>) ks"
  using assms
proof (induction ks arbitrary: resp u s w)
  case Nil
  then show ?case by (auto intro: exI [of _ "[]"])
next
  case (Cons k ks)
  let ?p = "ps ! k" and ?a = "\<lparr> rc = 1, vl = 0, out = [mission_line (ps ! k) up] \<rparr>"
  let ?w = "w\<lparr> trace := trace w @ [(Sys (Popen (mission_cmd (k + 1))), ?a)] \<rparr>"
  from Cons.prems have p: "mission_ok ?p up" "k < length ps" by auto
  then have e: "env w (trace w) (Sys (Popen (mission_cmd (k + 1)))) = ?a"
    using Cons.prems(3) by (simp add: mission_answers_def)
  have eq: "?p\<lparr> d_flag := d_flag junk, d_flag := 0 \<rparr> = ?p\<lparr> d_flag := 0 \<rparr>" by simp
  from linked.enq_accept [OF Cons.prems(1), of "?p\<lparr> d_flag := 0 \<rparr>"] Cons.prems(6) obtain s1 where
    s1: "List_Insert malloc s (?p\<lparr> d_flag := 0 \<rparr>) = Inr (0, s1)" "list_ready malloc s1"
      "list_contents s1 = list_contents s @ [?p\<lparr> d_flag := 0 \<rparr>]" by (auto simp: list_put_def)
  have "mission_answers ?w ps up" using Cons.prems(3) by (simp add: mission_answers_def)
  with Cons.IH [OF s1(2), of ?w "mission_line ?p up" up] Cons.prems s1(3) obtain s' es where
    s': "run_state (requeue_missions malloc junk ks (mission_line ?p up) up s1) ?w = (s', ?w\<lparr> trace := trace ?w @ es \<rparr>)"
      "list_ready malloc s'" "list_contents s' = list_contents s1 @ map (\<lambda>k. (ps ! k)\<lparr> d_flag := 0 \<rparr>) ks" by auto
  show ?case
    using s' s1 capture_mission [OF Cons.prems(2) e p(1)]
    by (intro exI [of _ s'] exI [of _ "(Sys (Popen (mission_cmd (k + 1))), ?a) # es"])
      (simp add: run_scan_mission [OF p(1)])
qed

lemma wf_scan_mission [wf_io_intros]: "wf_io (scan_mission line old u)"
  unfolding scan_mission_def Let_def by (intro wf_io_intros wf_update)

lemma wf_requeue [wf_io_intros]: "wf_io (requeue_missions malloc junk ks resp u s)"
  by (induction ks arbitrary: resp u s) (auto intro!: wf_io_intros wf_update split: prod.split)

lemma wf_reboot [wf_io_intros]:
  "wf_io (check_missions malloc junk b s)" "wf_io (reboot_upgrade_task_cb malloc junk b s)"
  unfolding check_missions_def reboot_upgrade_task_cb_def Let_def by (intro wf_io_intros)+

text \<open>
  C23: Tasks for the next reboot survive it. When the mission file holds a printed line for each of the
  tasks \<open>ps\<close>, and the boot time in it is not the current one, the reboot timer scans them back
  unchanged, marked not to be downloaded, and queues them in order: of \<open>n\<close> tasks the first
  \<open>n mod 256\<close>, since the count is kept in a \<open>uint8_t\<close>; the file is removed in any case.
\<close>

theorem missions_survive_reboot:
  assumes "list_ready malloc s" "ub w = None" "mission_answers w ps up" "\<forall>p \<in> set ps. mission_ok p up"
    and "ps \<noteq> []" "\<not> strncmp_eq up (up_time b) (length up)" "length (list_contents s) + length ps < 65535"
  shows "\<exists>s' w'. run_state (reboot_upgrade_task_cb malloc junk b s) w = (s', w') \<and> list_ready malloc s' \<and>
     list_contents s' = list_contents s @ map (\<lambda>p. p\<lparr> d_flag := 0 \<rparr>) (take (length ps mod 256) ps) \<and>
     Sys (Popen remove_cmd) \<in> fst ` set (events (reboot_upgrade_task_cb malloc junk b s) w)"
proof -
  let ?l = "count_line (length ps)" and ?m = "mission_line (ps ! 0) up"
  let ?n = "length ps mod 256"
  define w0 where "w0 = w\<lparr> trace := trace w @ [(Sys (FOpen MISSION_FILE_LOCAL_PATH ''r''), \<lparr> rc = 1, vl = 1, out = [] \<rparr>)] \<rparr>"
  have w0: "ub w0 = None" "mission_answers w0 ps up" using assms(2,3) by (simp_all add: w0_def mission_answers_def)
  have n: "length (dec (length ps)) \<le> 5" using assms(7) by (intro length_dec_le) simp_all
  have "env w0 (trace w0) (Sys (Popen count_cmd)) = \<lparr> rc = 1, vl = 0, out = [?l @ [newline]] \<rparr>"
    using w0(2) by (simp add: mission_answers_def)
  moreover have "newline \<notin> set ?l" "CHR 0x00 \<notin> set ?l"
    by (auto simp: count_line_def newline_def MISSION_FILE_LOCAL_PATH_def is_digit_def dest: dec_digits)
  moreover have "Suc (length ?l) < 256" using n by (simp add: count_line_def MISSION_FILE_LOCAL_PATH_def)
  ultimately obtain w1 e1 where r1: "run_state (system_capture count_cmd 256 []) w0 = ((0, ?l @ [newline]), w1)"
    and w1: "ub w1 = None" "mission_answers w1 ps up" "trace w1 = trace w0 @ e1"
    using capture_line [OF w0(1), of count_cmd ?l 256 "[]"] w0 by (simp add: mission_answers_def)
  have num: "get_int (sscanf [CDec] (?l @ [newline])) 0 (0 :: u8) = of_nat (length ps)"
    using sscanf_CDec_dec [of "length ps" "'' '' @ MISSION_FILE_LOCAL_PATH @ [newline]" "[]"] assms(7)
    by (simp add: count_line_def get_int_def is_digit_def)
  have u: "unat (of_nat (length ps) :: u8) = ?n" by (rule unat_store_u8)
  have ok: "mission_ok (ps ! 0) up" using assms(4,5) by simp
  have "env w1 (trace w1) (Sys (Popen (mission_cmd (Suc 0)))) = \<lparr> rc = 1, vl = 0, out = [?m] \<rparr>"
    using w1(2) assms(5) by (auto simp: mission_answers_def)
  from capture_mission [OF w1(1) this ok, of "?l @ [newline]"] w1 obtain w2 e2 where
    r2: "run_state (system_capture (mission_cmd (Suc 0)) 256 (?l @ [newline])) w1 = ((0, ?m), w2)"
    and w2: "ub w2 = None" "mission_answers w2 ps up" and t2: "trace w2 = trace w1 @ e2" by (auto simp: mission_answers_def)
  have ks: "\<forall>k \<in> set [0..<?n]. k < length ps" "length (list_contents s) + length [0..<?n] < 65535"
    using assms(7) mod_less_eq_dividend [of "length ps" 256] by auto
  from requeue_run [OF assms(1) w2 assms(4) ks, of junk ?m up] w2 obtain s' w3 e3 where
    r3: "run_state (requeue_missions malloc junk [0..<?n] ?m up s) w2 = (s', w3)" "list_ready malloc s'"
      "list_contents s' = list_contents s @ map (\<lambda>k. (ps ! k)\<lparr> d_flag := 0 \<rparr>) [0..<?n]" and w3: "ub w3 = None" "trace w3 = trace w2 @ e3" by auto
  have t: "map (\<lambda>k. (ps ! k)\<lparr> d_flag := 0 \<rparr>) [0..<?n] = map (\<lambda>p. p\<lparr> d_flag := 0 \<rparr>) (take ?n ps)"
    using mod_less_eq_dividend [of "length ps" 256] by (intro nth_equalityI) auto
  have c: "run_state (check_missions malloc junk b s) w0 = (s', snd (run_state (system_run remove_cmd) w3))"
    using r3(1) assms(6)
    by (simp add: check_missions_def r1 num u r2 run_scan_mission [OF ok] case_prod_beta del: upt_Suc sscanf.simps)
  have f: "run_state (is_file_empty MISSION_FILE_LOCAL_PATH) w = (0, w0)"
    using assms(2,3) by (simp add: is_file_empty_def mission_answers_def w0_def)
  have "value_of (reboot_upgrade_task_cb malloc junk b s) w = s'"
    by (simp add: value_of_def reboot_upgrade_task_cb_def f c case_prod_beta)
  moreover have "Sys (Popen remove_cmd) \<in> fst ` set (events (reboot_upgrade_task_cb malloc junk b s) w)"
  proof -
    have "Sys (Popen remove_cmd) \<in> fst ` set (events (check_missions malloc junk b s) w0)"
      using w1(3) t2 w3 by (simp add: events_def c system_run_def)
    then show ?thesis
      using f by (auto simp: reboot_upgrade_task_cb_def in_events_bind value_of_def wf_io_intros)
  qed
  ultimately show ?thesis
    using r3 t by (metis run_value)
qed

definition old_boot :: string where "old_boot = ''2025-05-01 08:00:00''"

definition mission_world :: world where
  "mission_world = \<lparr> env = \<lambda>_ r.
       if r = Sys (FOpen MISSION_FILE_LOCAL_PATH ''r'') then \<lparr> rc = 1, vl = 1, out = [] \<rparr>
       else if r = Sys (Popen count_cmd) then \<lparr> rc = 1, vl = 0, out = [count_line 1 @ [newline]] \<rparr>
       else \<lparr> rc = 1, vl = 0, out = [mission_line ota_task old_boot] \<rparr>,
     localtime = \<lambda>_. tm_example, trace = [], ub = None \<rparr>"

theorem missions_survive_reboot_witness:
  "\<exists>s' w'. run_state (reboot_upgrade_task_cb first_free ota_task info_example no_tasks) mission_world = (s', w') \<and>
     list_contents s' = [ota_task\<lparr> d_flag := 0 \<rparr>]"
proof -
  have "mission_cmd (k + 1) \<noteq> count_cmd" for k
    by (simp add: mission_cmd_def count_cmd_def snprintf_def)
  then have a: "mission_answers mission_world [ota_task] old_boot" "ub mission_world = None"
    by (auto simp: mission_answers_def mission_world_def)
  have "mission_ok ota_task old_boot" "\<not> strncmp_eq old_boot (up_time info_example) (length old_boot)" by code_simp+
  with missions_survive_reboot [OF no_tasks_ready(1) a(2,1), of info_example ota_task] show ?thesis
    by (auto simp: no_tasks_ready)
qed

subsection \<open>Only checked packages are installed\<close>

definition installs_task :: "u16 \<Rightarrow> request \<Rightarrow> bool" where
  "installs_task n r \<longleftrightarrow> r = Sys (Popen ''bash run.sh'') \<or>
     (\<exists>ch. r = Ssh (ChanExec ch (snprintf 256 (''bash /home/cktt/script/upgrade.sh '' @ dec (unat n)))))"

lemma installs_task_eq: "installs_task (fw_id i) = installs i"
  by (auto simp: fun_eq_iff installs_task_def installs_def upgrade_cmd_def id_str_def)

lemma not_installs_task [simp]:
  "\<not> installs_task n (Sys LocalTime)" "\<not> installs_task n (Sys (FAppend f t))" "\<not> installs_task n (Curl c)"
  "\<not> installs_task n (Sys (FOpen p m))" "\<not> installs_task n (Sys (FWrite h x))" "\<not> installs_task n (Sys (FClose h))"
  "installs_task n (Sys (Popen cmd)) \<longleftrightarrow> cmd = ''bash run.sh''"
  by (auto simp: installs_task_def)

lemma download_installs_nothing:
  "emits (\<lambda>r. \<not> installs_task n r) (GetFileName url fn)"
  "emits (\<lambda>r. \<not> installs_task n r) (download_package b p fn lp)"
  "emits (\<lambda>r. \<not> installs_task n r) (do_ota_report print b i)"
  unfolding GetFileName_def download_package_def do_ota_report_def create_ota_report_data_def http_post_request_def
    ftp_download_def download_write_callback_def Let_def
  by (intro emits_intros; simp add: snprintf_def)+


definition now_task :: FwDownInfo where
  "now_task = ota_task\<lparr> d_type := OTA_TASK_NOW \<rparr>"

definition ota_world :: world where
  "ota_world = fw_world\<lparr> localtime := \<lambda>_. tm_example\<lparr> tm_year := -1890 \<rparr> \<rparr>"

definition now_install :: event where
  "now_install = (Ssh (ChanExec 49 ''bash /home/cktt/script/upgrade.sh 7''), fw_env (Ssh (ChanExec 49 ''bash /home/cktt/script/upgrade.sh 7'')))"

lemma now_installs:
  "now_install \<in> set (events (download_task (\<lambda>_. ''{}'') (info_example\<lparr> dev_addr := 2 \<rparr>) now_task []) ota_world)"
  by code_simp


end
