(* ===== verification/Fx650.thy ===== *)
theory Fx650
  imports Serial
begin

text \<open>
  \<open>hal/fx650.c\<close>: the 5G modem. Its network interface is found by USB identifiers, AT commands go over
  the UART, the connection is checked and set up. \<open>FX650_Error\<close> is an enumeration without negative
  values. Loops that wait for the modem have fuel; \<open>None\<close> is out of fuel. \<open>resp\<close> is the whole array.
\<close>

definition FX650_OK :: int where "FX650_OK = 0"
definition FX650_ERR_INIT :: int where "FX650_ERR_INIT = 1"
definition FX650_ERR_AT_TIMEOUT :: int where "FX650_ERR_AT_TIMEOUT = 2"
definition FX650_ERR_AT_ERROR :: int where "FX650_ERR_AT_ERROR = 3"
definition FX650_ERR_NET_SEGMENT :: int where "FX650_ERR_NET_SEGMENT = 4"
definition FX650_ERR_SIM_NOT_READY :: int where "FX650_ERR_SIM_NOT_READY = 5"
definition FX650_ERR_APN_NOT_READY :: int where "FX650_ERR_APN_NOT_READY = 7"
definition FX650_ERR_PDP_ACTIVATE :: int where "FX650_ERR_PDP_ACTIVATE = 9"

lemmas fx650_codes = FX650_OK_def FX650_ERR_INIT_def FX650_ERR_AT_TIMEOUT_def FX650_ERR_AT_ERROR_def
  FX650_ERR_NET_SEGMENT_def FX650_ERR_SIM_NOT_READY_def FX650_ERR_APN_NOT_READY_def FX650_ERR_PDP_ACTIVATE_def

definition AT_MAX_RESPONSE_LEN :: nat where "AT_MAX_RESPONSE_LEN = 256"
definition AT_TIMEOUT_MS :: int where "AT_TIMEOUT_MS = 1000"
definition FX650_PID :: string where "FX650_PID = ''A05''"
definition FX650_VID :: string where "FX650_VID = ''2CB7''"
definition FX650_DEV_NAME :: string where "FX650_DEV_NAME = ''/dev/ttyUSB1''"
definition SYS_NET_PATH :: string where "SYS_NET_PATH = ''/sys/class/net''"
definition PRODUCT_PREFIX :: string where "PRODUCT_PREFIX = ''PRODUCT=''"

record Fx650Ctx =
  x_uart :: "SerialPort option"
  net_name :: "string option"
  x_sim_id :: string

subsection \<open>The network interface\<close>

definition lower :: "char \<Rightarrow> nat" where
  "lower c = (let n = of_char c in if 65 \<le> n \<and> n \<le> 90 then n + 32 else n)"

text \<open>\<open>strcasecmp(a, b) == 0\<close>.\<close>

definition strcase_eq :: "string \<Rightarrow> string \<Rightarrow> bool" where
  "strcase_eq a b = (map lower a = map lower b)"

text \<open>\<open>PRODUCT=vid/pid/...\<close>: the parts before the first and the second slash.\<close>

definition line_matches :: "string \<Rightarrow> string \<Rightarrow> string \<Rightarrow> bool" where
  "line_matches vid pid line =
     (strncmp_eq line PRODUCT_PREFIX (length PRODUCT_PREFIX) \<and>
      (let product = drop (length PRODUCT_PREFIX) line;
           v = takeWhile (\<lambda>c. c \<noteq> CHR ''/'') product; rest = drop (length v) product in
       rest \<noteq> [] \<and> strcase_eq v vid \<and> strcase_eq (takeWhile (\<lambda>c. c \<noteq> CHR ''/'') (tl rest)) pid))"

text \<open>The lines \<open>fgets\<close> delivers into an array of \<open>n + 1\<close>.\<close>

function fgets_lines :: "nat \<Rightarrow> string \<Rightarrow> string list" where
  "fgets_lines n s = (if n = 0 \<or> s = [] then [] else (case fgets n s of (a, b) \<Rightarrow> a # fgets_lines n b))"
  by pat_completeness auto
termination
  by (relation "measure (\<lambda>(n, s). length s)") (auto, metis fgets_progress)

declare fgets_lines.simps [simp del]

definition check_uevent_product :: "string \<Rightarrow> string \<Rightarrow> string \<Rightarrow> int io" where
  "check_uevent_product uevent_path vid pid = do {
     f \<leftarrow> call_stream (Sys (FOpen uevent_path ''r''));
     case f of None \<Rightarrow> ret (-1)
     | Some (fp, a) \<Rightarrow> do {
         tell (Sys (FClose fp));
         ret (if \<exists>l \<in> set (fgets_lines 255 (concat (out a))). line_matches vid pid (c_str l) then 1 else 0) } }"

definition DT_LNK :: int where "DT_LNK = 10"

definition entry_matches :: "string \<Rightarrow> string \<Rightarrow> string \<Rightarrow> bool io" where
  "entry_matches vid pid name = do {
     ty \<leftarrow> call (Dev (ReadDirType SYS_NET_PATH name));
     if vl ty \<noteq> DT_LNK \<or> name = ''.'' \<or> name = ''..'' then ret False
     else do {
       r \<leftarrow> call (Dev (RealPath (snprintf 300 (SYS_NET_PATH @ ''/'' @ name @ ''/device''))));
       if rc r = 0 then ret False
       else (let uevent_path = snprintf 1024 (concat (out r) @ ''/uevent'') in do {
         a \<leftarrow> call (Sys (Access uevent_path));
         if rc a \<noteq> 0 then ret False
         else do { c \<leftarrow> check_uevent_product uevent_path vid pid; ret (c \<noteq> 0) } }) } }"

fun first_match :: "string \<Rightarrow> string \<Rightarrow> string list \<Rightarrow> string option io" where
  "first_match vid pid [] = ret None"
| "first_match vid pid (n # ns) = do {
     ok \<leftarrow> entry_matches vid pid n;
     if ok then ret (Some n) else first_match vid pid ns }"

definition find_interface_by_vid_pid :: "string \<Rightarrow> string \<Rightarrow> string option io" where
  "find_interface_by_vid_pid vid pid = do {
     d \<leftarrow> call (Dev (OpenDir SYS_NET_PATH));
     if rc d = 0 then ret None
     else do { r \<leftarrow> first_match vid pid (out d); tell (Dev (CloseDir SYS_NET_PATH)); ret r } }"

subsection \<open>AT commands\<close>

definition crlf :: string where "crlf = [CHR 0x0D, newline]"

definition AT_OK :: string where "AT_OK = ''OK'' @ crlf"

definition at_error :: "string \<Rightarrow> bool" where
  "at_error s = (contains s (crlf @ ''ERROR'' @ crlf) \<or> contains s ''+CME ERROR:'')"

text \<open>\<open>rf\<close> is the fuel of the reads, the second number that of the loop itself.\<close>

fun at_loop :: "nat \<Rightarrow> nat \<Rightarrow> SerialPort \<Rightarrow> string \<Rightarrow> int \<Rightarrow> (int \<times> string) option io" where
  "at_loop rf 0 p resp timeout_ms = ret None"
| "at_loop rf (Suc n) p resp timeout_ms = do {
     a \<leftarrow> call (Dev (Select (fd p) timeout_ms));
     if rc a \<le> 0 then ret (Some (FX650_ERR_AT_TIMEOUT, resp))
     else do {
       r \<leftarrow> serial_read rf p resp (length resp);
       case r of None \<Rightarrow> ret None
       | Some (k, resp) \<Rightarrow>
           if k < 0 \<or> int (length resp) \<le> k then do { fault_io OutOfBounds; ret None }
           else (let resp = resp[nat k := CHR 0x00]; s = c_str resp in
             if contains s AT_OK then ret (Some (FX650_OK, resp))
             else if at_error s then ret (Some (FX650_ERR_AT_ERROR, resp))
             else at_loop rf n p resp timeout_ms) } }"

definition send_at_command ::
    "nat \<Rightarrow> nat \<Rightarrow> SerialPort \<Rightarrow> string \<Rightarrow> string \<Rightarrow> int \<Rightarrow> (int \<times> string) option io" where
  "send_at_command rf n p cmd resp timeout_ms = do {
     serial_write p cmd;
     at_loop rf n p resp timeout_ms }"

text \<open>Sequencing of operations that may be out of fuel.\<close>

definition and_then :: "'a option io \<Rightarrow> ('a \<Rightarrow> 'b option io) \<Rightarrow> 'b option io" where
  "and_then m f = do { r \<leftarrow> m; case r of None \<Rightarrow> ret None | Some x \<Rightarrow> f x }"

definition cleared :: "nat \<Rightarrow> string" where "cleared n = replicate n CHR 0x00"

definition quote_char :: char where "quote_char = CHR 0x22"

definition check_sim_status :: "nat \<Rightarrow> nat \<Rightarrow> SerialPort \<Rightarrow> int option io" where
  "check_sim_status rf n p =
     and_then (send_at_command rf n p (''AT+CPIN?'' @ [CHR 0x0D]) (cleared AT_MAX_RESPONSE_LEN) AT_TIMEOUT_MS) (\<lambda>(e, resp).
       if e < 0 then ret (Some (-1))
       else ret (Some (if contains (c_str resp) ''READY'' then 0 else -1)))"

definition setipinfo :: string where
  "setipinfo = ''AT+GTDHCPCFG=\"setipinfo\",\"192.168.10.1\",\"192.168.10.2\",\"192.168.10.254\",\"255.255.255.0\",\"192.168.10.255\"'' @ crlf"

definition check_network_segment :: "nat \<Rightarrow> nat \<Rightarrow> SerialPort \<Rightarrow> int option io" where
  "check_network_segment rf n p =
     and_then (send_at_command rf n p (''AT+GTDHCPCFG?'' @ [CHR 0x0D]) (cleared AT_MAX_RESPONSE_LEN) AT_TIMEOUT_MS) (\<lambda>(e, resp).
       if e < 0 then ret (Some (-1))
       else if contains (c_str resp) ''192.168.42.''
       then and_then (send_at_command rf n p setipinfo resp AT_TIMEOUT_MS) (\<lambda>(e, resp). ret (Some (if e < 0 then -1 else 0)))
       else ret (Some 0))"

definition set_apn :: "nat \<Rightarrow> nat \<Rightarrow> SerialPort \<Rightarrow> string \<Rightarrow> int option io" where
  "set_apn rf n p apn =
     and_then (send_at_command rf n p (snprintf 128 (''AT+CGDCONT=1,\"IP\",\"'' @ apn @ [quote_char, CHR 0x0D]))
         (cleared AT_MAX_RESPONSE_LEN) AT_TIMEOUT_MS) (\<lambda>(e, resp).
       if e < 0 then ret (Some (-1)) else ret (Some (if contains (c_str resp) ''OK'' then 0 else -1)))"

definition get_smi_id :: "nat \<Rightarrow> nat \<Rightarrow> SerialPort \<Rightarrow> string \<Rightarrow> (int \<times> string) option io" where
  "get_smi_id rf n p old =
     and_then (send_at_command rf n p (''AT+CCID?'' @ [CHR 0x0D]) (cleared AT_MAX_RESPONSE_LEN) AT_TIMEOUT_MS) (\<lambda>(e, resp).
       if e < 0 \<or> \<not> contains (c_str resp) ''OK'' then ret (Some (-1, old))
       else ret (Some (0, take 20 (c_str (drop 7 resp)))))"

text \<open>Switch the dial-up on or off when the module reports the other state.\<close>

definition dial :: "nat \<Rightarrow> nat \<Rightarrow> SerialPort \<Rightarrow> string \<Rightarrow> int option io" where
  "dial rf n p cmd =
     and_then (send_at_command rf n p cmd (cleared AT_MAX_RESPONSE_LEN) AT_TIMEOUT_MS) (\<lambda>(e, resp).
       if e < 0 then ret (Some (-1)) else ret (Some (if contains (c_str resp) ''OK'' then 0 else -1)))"

definition activate_dia :: "nat \<Rightarrow> nat \<Rightarrow> SerialPort \<Rightarrow> nat \<Rightarrow> int option io" where
  "activate_dia rf n p status =
     and_then (send_at_command rf n p (''AT+GTRNDIS?'' @ [CHR 0x0D]) (cleared AT_MAX_RESPONSE_LEN) AT_TIMEOUT_MS) (\<lambda>(e, resp).
       if e < 0 then ret (Some (-1))
       else if contains (c_str resp) ''+GTRNDIS: 0'' \<and> status = 1 then dial rf n p (''AT+GTRNDIS=1,1'' @ crlf)
       else if contains (c_str resp) ''+GTRNDIS: 1,1'' \<and> status = 0 then dial rf n p (''AT+GTRNDIS=0,1'' @ [CHR 0x0D])
       else ret (Some 0))"

subsection \<open>Connection\<close>

definition check_network_connection :: "int io" where
  "check_network_connection = do {
     c \<leftarrow> call_handle (Curl CurlInit);
     case c of None \<Rightarrow> ret (-1)
     | Some h \<Rightarrow> do {
         r \<leftarrow> call (Dev (CurlHead h ''https://www.baidu.com''));
         tell (Curl (CurlCleanup h));
         ret (if rc r = 0 then 0 else -1) } }"

text \<open>\<open>system\<close> calls until one cannot be started.\<close>

fun systems :: "string list \<Rightarrow> int io" where
  "systems [] = ret 0"
| "systems (c # cs) = do { r \<leftarrow> call (Sys (System (snprintf 128 c))); if rc r = -1 then ret (-1) else systems cs }"

definition run_dhcp_client :: "string \<Rightarrow> int io" where
  "run_dhcp_client net = do {
     r \<leftarrow> systems [''ip link set '' @ net @ '' up'', ''udhcpc -i '' @ net @ '' 2>&1 &''];
     if r = -1 then ret r
     else do {
       tell (Sys Sleep);
       systems [''ip route del default'', ''ip route add default via 192.168.10.1 dev '' @ net @ '' metric 600'',
                ''ip route add default via 192.168.42.1 dev eth0 metric 20100''] } }"

definition fx650_connect_network :: "nat \<Rightarrow> nat \<Rightarrow> SerialPort \<Rightarrow> string \<Rightarrow> int option io" where
  "fx650_connect_network rf n p net =
     and_then (check_network_segment rf n p) (\<lambda>r.
       if r \<noteq> 0 then ret (Some FX650_ERR_NET_SEGMENT)
       else and_then (check_sim_status rf n p) (\<lambda>r.
         if r \<noteq> 0 then ret (Some FX650_ERR_SIM_NOT_READY)
         else and_then (set_apn rf n p ''5gnet'') (\<lambda>r.
           if r \<noteq> 0 then ret (Some FX650_ERR_APN_NOT_READY)
           else and_then (activate_dia rf n p 1) (\<lambda>r.
             if r \<noteq> 0 then ret (Some FX650_ERR_PDP_ACTIVATE)
             else do { run_dhcp_client net; ret (Some FX650_OK) }))))"

definition fx650_disconnect_network :: "nat \<Rightarrow> nat \<Rightarrow> SerialPort \<Rightarrow> int option io" where
  "fx650_disconnect_network rf n p =
     and_then (activate_dia rf n p 0) (\<lambda>r. ret (Some (if r \<noteq> 0 then FX650_ERR_PDP_ACTIVATE else FX650_OK)))"

definition fx650_port_info :: SerialPortInfo where
  "fx650_port_info = \<lparr> speed = 115200, data_bits = 8, stop_bits = 1, parity = CHR ''N'', fctl = 0 \<rparr>"

definition fx650_init :: "nat \<Rightarrow> nat \<Rightarrow> (int \<times> Fx650Ctx) option io" where
  "fx650_init rf n = do {
     net \<leftarrow> find_interface_by_vid_pid FX650_VID FX650_PID;
     case net of None \<Rightarrow> ret (Some (FX650_ERR_INIT, \<lparr> x_uart = None, net_name = None, x_sim_id = [] \<rparr>))
     | Some name \<Rightarrow> do {
         (code, p) \<leftarrow> serial_open uart_port_create FX650_DEV_NAME;
         if code \<noteq> 0 then ret (Some (FX650_ERR_INIT, \<lparr> x_uart = None, net_name = Some name, x_sim_id = [] \<rparr>))
         else do {
           uart_configure p (Some fx650_port_info);
           and_then (send_at_command rf n p (''AT'' @ crlf) (cleared 64) AT_TIMEOUT_MS) (\<lambda>(r, resp).
             if r \<noteq> FX650_OK
             then do { serial_close p; ret (Some (r, \<lparr> x_uart = None, net_name = Some name, x_sim_id = [] \<rparr>)) }
             else do {
               net_ok \<leftarrow> check_network_connection;
               and_then (if net_ok \<noteq> 0 then fx650_connect_network rf n p name else ret (Some r)) (\<lambda>r.
                 and_then (get_smi_id rf n p []) (\<lambda>(_, sim). do {
                   serial_close p;
                   ret (Some (r, \<lparr> x_uart = None, net_name = Some name, x_sim_id = sim \<rparr>)) })) }) } } }"

definition fx650_uninit :: "nat \<Rightarrow> nat \<Rightarrow> Fx650Ctx \<Rightarrow> Fx650Ctx option io" where
  "fx650_uninit rf n ctx =
     (case x_uart ctx of None \<Rightarrow> ret (Some (ctx\<lparr> net_name := None \<rparr>))
      | Some p \<Rightarrow> and_then (fx650_disconnect_network rf n p) (\<lambda>_. do {
          serial_close p;
          ret (Some (ctx\<lparr> x_uart := None, net_name := None \<rparr>)) }))"

lemma wf_at_loop [wf_io_intros]: "wf_io (at_loop rf n p resp ms)"
  by (induction n arbitrary: resp) (auto simp: Let_def intro!: wf_io_intros)

lemma wf_first_match [wf_io_intros]: "wf_io (entry_matches vid pid name)" "wf_io (first_match vid pid ns)"
proof -
  show e: "wf_io (entry_matches vid pid name)" for name
    unfolding entry_matches_def check_uevent_product_def Let_def by (intro wf_io_intros)
  show "wf_io (first_match vid pid ns)"
    by (induction ns) (auto intro!: wf_io_intros e)
qed

lemma wf_and_then [wf_io_intros]: "wf_io m \<Longrightarrow> (\<And>x. wf_io (f x)) \<Longrightarrow> wf_io (and_then m f)"
  unfolding and_then_def by (intro wf_io_intros)

lemma wf_send_at [wf_io_intros]: "wf_io (send_at_command rf n p cmd resp ms)"
  unfolding send_at_command_def by (intro wf_io_intros)

lemma value_of_and_then:
  "value_of (and_then m f) w = (case value_of m w of None \<Rightarrow> None | Some x \<Rightarrow> value_of (f x) (snd (run_state m w)))"
  by (simp add: and_then_def split: option.split)

subsection \<open>Errors that cannot be seen\<close>

text \<open>The result of an AT command is one of the enumeration's values, none of them negative.\<close>

lemma at_loop_result: "value_of (at_loop rf n p resp ms) w = Some (e, r) \<Longrightarrow> 0 \<le> e"
proof (induction n arbitrary: resp w)
  case (Suc n)
  then show ?case
    by (auto simp: Let_def case_prod_beta fx650_codes split: if_splits option.splits)
qed simp

lemma send_at_result: "value_of (send_at_command rf n p cmd resp ms) w = Some (e, r) \<Longrightarrow> 0 \<le> e"
  by (auto simp: send_at_command_def dest: at_loop_result)

text \<open>The only answer to the network segment check that can be given is 0.\<close>

lemma network_segment_result: "value_of (check_network_segment rf n p) w \<in> {None, Some 0}"
proof -
  have neg: "e < 0 \<longleftrightarrow> False" if "value_of (send_at_command rf n p cmd resp ms) w = Some (e, r)" for cmd resp ms w e r
    using send_at_result [OF that] by simp
  show ?thesis
    by (auto simp: check_network_segment_def value_of_and_then neg split: option.split)
qed

lemma connect_result:
  "value_of (fx650_connect_network rf n p net) w \<noteq> Some FX650_ERR_NET_SEGMENT"
proof -
  have "r = 0" if "value_of (check_network_segment rf n p) w = Some r" for r w
    using network_segment_result [of rf n p w] that by simp
  then show ?thesis
    by (auto simp: fx650_connect_network_def value_of_and_then fx650_codes split: option.split)
qed

text \<open>A modem that answers nothing at all.\<close>

definition silent :: "world \<Rightarrow> bool" where
  "silent w \<longleftrightarrow> (\<forall>tr f ms. rc (env w tr (Dev (Select f ms))) \<le> 0)"

lemma silent_send:
  assumes "silent w" "ub w = None"
  shows "\<exists>es. run_state (send_at_command rf (Suc n) p cmd resp ms) w =
     (Some (FX650_ERR_AT_TIMEOUT, resp), w\<lparr> trace := trace w @ es \<rparr>)"
  using assms by (auto simp: send_at_command_def serial_write_def silent_def)

lemma c_str_cleared [simp]: "c_str (cleared n) = []"
  by (simp add: c_str_def cleared_def)

text \<open>
  The tests \<open>send_at_command(...) < 0\<close> never see an error, since the error codes are not negative:
  the network segment check returns 0 in every run in which it returns, \<open>fx650_connect_network\<close> never
  reports a bad segment, and with a modem that does not answer at all both the segment check and the
  activation of the dial-up report success.
\<close>

theorem at_errors_ignored:
  "value_of (check_network_segment rf n p) w \<in> {None, Some 0} \<and>
   value_of (fx650_connect_network rf n p net) w \<noteq> Some FX650_ERR_NET_SEGMENT \<and>
   (silent w \<and> ub w = None \<longrightarrow>
     value_of (check_network_segment rf (Suc n) p) w = Some 0 \<and> value_of (activate_dia rf (Suc n) p status) w = Some 0)"
proof -
  have "value_of (check_network_segment rf (Suc n) p) w = Some 0 \<and> value_of (activate_dia rf (Suc n) p status) w = Some 0"
    if "silent w" "ub w = None"
  proof -
    have s: "value_of (send_at_command rf (Suc n) p cmd (cleared AT_MAX_RESPONSE_LEN) AT_TIMEOUT_MS) w =
        Some (FX650_ERR_AT_TIMEOUT, cleared AT_MAX_RESPONSE_LEN)" for cmd
      using silent_send [OF that, of rf n p cmd "cleared AT_MAX_RESPONSE_LEN" AT_TIMEOUT_MS] by (auto simp: value_of_def)
    show ?thesis
      by (simp add: check_network_segment_def activate_dia_def value_of_and_then s fx650_codes)
  qed
  then show ?thesis
    using network_segment_result connect_result by blast
qed

definition modem :: SerialPort where
  "modem = \<lparr> fd = 3, is_open = True, origin_tios = 0 \<rparr>"

definition silent_world :: world where
  "silent_world = \<lparr> env = \<lambda>_ _. \<lparr> rc = 0, vl = 0, out = [] \<rparr>, localtime = \<lambda>_. tm_example, trace = [], ub = None \<rparr>"

theorem at_errors_ignored_witness:
  "value_of (check_network_segment 0 1 modem) silent_world = Some 0 \<and> value_of (activate_dia 0 1 modem 1) silent_world = Some 0"
  using at_errors_ignored [of 0 0 modem silent_world "[]" 1] by (simp add: silent_def silent_world_def)

subsection \<open>The byte before the buffer\<close>

text \<open>
  Every AT answer that comes in one piece corrupts memory: when the modem sends \<open>k\<close> bytes and then
  nothing, the read returns -1 and \<open>send_at_command\<close> writes its NUL at \<open>resp[-1]\<close>.
\<close>

theorem at_answer_out_of_bounds:
  assumes "ub w = None" "is_open p" "0 < k" "k < length resp - 1" "k \<le> 512" "length resp < 2 ^ 32" "length data = k"
    and "env w (trace w) (Dev (DevWrite (fd p) cmd)) = a1"
    and "env w (trace w @ [(Dev (DevWrite (fd p) cmd), a1)]) (Dev (Select (fd p) ms)) = a2" "0 < rc a2"
    and "tr = trace w @ [(Dev (DevWrite (fd p) cmd), a1), (Dev (Select (fd p) ms), a2)]"
    and "env w tr (Dev (DevRead (fd p) (read_size (length resp)))) = \<lparr> rc = int k, vl = 0, out = [data] \<rparr>"
    and "\<And>es. length tr < length es \<Longrightarrow> env w es (Dev (DevRead (fd p) (read_size (length resp)))) = no_data"
  shows "ub (snd (run_state (send_at_command (k + 3) (Suc n) p cmd resp ms) w)) = Some OutOfBounds"
proof -
  define w1 where "w1 = w\<lparr> trace := tr \<rparr>"
  define w2 where "w2 = w1\<lparr> trace := trace w1 @ [(Dev (DevRead (fd p) (read_size (length resp))), \<lparr> rc = int k, vl = 0, out = [data] \<rparr>)] \<rparr>"
  have e: "env w1 (trace w1) (Dev (DevRead (fd p) (read_size (length resp)))) = \<lparr> rc = int k, vl = 0, out = [data] \<rparr>"
    "ub w1 = None" using assms(1,12) by (simp_all add: w1_def)
  have "reads_answer w2 (fd p) (length resp) no_data"
    unfolding reads_answer_def using assms(13) by (simp add: w2_def w1_def)
  with serial_read_total [OF e(2) assms(2-5) _ assms(6,7) e(1) w2_def] obtain w' where
    "run_state (serial_read (k + 3) p resp (length resp)) w1 = (Some (-1, data @ drop k resp), w')" "ub w' = None" by auto
  then show ?thesis
    using assms(1,2,8-11) by (simp add: send_at_command_def serial_write_def w1_def fault_io_def)
qed

definition ok_world :: world where
  "ok_world = \<lparr> env = \<lambda>tr r. (case r of Dev (DevRead _ _) \<Rightarrow> if length tr = 2 then \<lparr> rc = 2, vl = 0, out = [''OK''] \<rparr> else no_data
       | _ \<Rightarrow> \<lparr> rc = 1, vl = 0, out = [] \<rparr>), localtime = \<lambda>_. tm_example, trace = [], ub = None \<rparr>"

theorem at_answer_out_of_bounds_witness:
  "ub (snd (run_state (send_at_command 5 1 modem ''AT'' (cleared 64) AT_TIMEOUT_MS) ok_world)) = Some OutOfBounds"
  using at_answer_out_of_bounds [of ok_world modem 2 "cleared 64" "''OK''" "''AT''" "\<lparr> rc = 1, vl = 0, out = [] \<rparr>" AT_TIMEOUT_MS
      "\<lparr> rc = 1, vl = 0, out = [] \<rparr>" _ 0, OF _ _ _ _ _ _ _ _ _ _ refl]
  by (simp add: ok_world_def modem_def cleared_def)

text \<open>
  A network interface whose \<open>uevent\<close> file cannot be opened is taken for the modem's: the -1 of
  \<open>check_uevent_product\<close> counts as a match. Otherwise an interface matches when a line of the file
  names the vendor and product, whatever the case of the letters.
\<close>

theorem unreadable_uevent_matches:
  assumes "ub w = None"
  shows "value_of (check_uevent_product path vid pid) w =
     (let a = env w (trace w) (Sys (FOpen path ''r'')) in
      if rc a = 0 then -1
      else if \<exists>l \<in> set (fgets_lines 255 (concat (out a))). line_matches vid pid (c_str l) then 1 else 0) \<and>
     (\<forall>name. value_of (entry_matches vid pid name) w \<longrightarrow>
       (\<exists>p a. (Sys (FOpen p ''r''), a) \<in> set (events (entry_matches vid pid name) w) \<and>
          (rc a = 0 \<or> (\<exists>l \<in> set (fgets_lines 255 (concat (out a))). line_matches vid pid (c_str l)))))"
  using assms unfolding events_def value_of_def
  by (auto simp: Let_def check_uevent_product_def entry_matches_def split: if_splits)

theorem unreadable_uevent_matches_witness:
  "value_of (check_uevent_product ''u'' FX650_VID FX650_PID) silent_world = -1 \<and>
   line_matches FX650_VID FX650_PID ''PRODUCT=2cb7/a05/510''"
proof -
  have "line_matches FX650_VID FX650_PID ''PRODUCT=2cb7/a05/510''" by code_simp
  with unreadable_uevent_matches [of silent_world "''u''" FX650_VID FX650_PID] show ?thesis
    by (simp add: silent_world_def)
qed

end
