(* ===== verification/Startup.thy ===== *)
theory Startup
  imports NavData Ota Fx650 Gpio
begin

text \<open>
  How the program starts and stops: \<open>main.c\<close> (reading the device information from the unit, removing
  an upgrade script, the LEDs, starting and stopping the services) and the start, the timers and the stop of
  \<open>services/cloud_comm.c\<close>. \<open>rf\<close> and \<open>n\<close> are the fuels of the modem's reads and commands. Logging is not
  modelled; the threads of the cloud service are listed, and joined at once at the stop.
\<close>

definition CLOUD_SERVER_IP :: string where "CLOUD_SERVER_IP = ''152.136.10.158''"
definition CLOUD_SERVER_PORT :: int where "CLOUD_SERVER_PORT = 3901"

subsection \<open>The device information\<close>

text \<open>The loop that connects: \<open>k\<close> attempts are left, three seconds apart.\<close>

fun connect_tries :: "nat \<Rightarrow> SSHClient \<Rightarrow> SSHClient io" where
  "connect_tries 0 c = ret c"
| "connect_tries (Suc k) c = do {
     (r, c) \<leftarrow> SSHClient_Connect c;
     if r = 0 then ret c else do { tell (Sys Sleep); connect_tries k c } }"

definition dev_info_format :: "conv list" where
  "dev_info_format = [CDec, CLit CHR '','', CUntil CHR '','', CLit CHR '','', CDec] @
     concat (replicate 8 [CLit CHR '','', CUDec]) @ [CLit CHR '','', CUntil CHR '','', CLit CHR '','']"

definition cleared_info :: DevBaseInfo where
  "cleared_info = \<lparr> dev_addr = 0, cloud_ip = [], cloud_port = 0, cpu_sw = 0, cpu_hw = 0, ad_sw = 0, ad_hw = 0,
     ctrl_sw = 0, ctrl_hw = 0, net_sw = 0, net_hw = 0, up_time = [] \<rparr>"

text \<open>\<open>cloud_ip\<close> has 16 characters, \<open>up_time\<close> 30.\<close>

definition scan_dev_info :: "string \<Rightarrow> DevBaseInfo io" where
  "scan_dev_info resp = (let vs = sscanf dev_info_format resp; b = cleared_info in do {
     ip \<leftarrow> scan_field vs 1 16 (cloud_ip b);
     up \<leftarrow> scan_field vs 11 30 (up_time b);
     ret (b\<lparr> dev_addr := get_int vs 0 (dev_addr b), cloud_ip := ip, cloud_port := sint (get_int vs 2 (0 :: u32)),
       cpu_sw := get_int vs 3 (cpu_sw b), cpu_hw := get_int vs 4 (cpu_hw b), ad_sw := get_int vs 5 (ad_sw b),
       ad_hw := get_int vs 6 (ad_hw b), ctrl_sw := get_int vs 7 (ctrl_sw b), ctrl_hw := get_int vs 8 (ctrl_hw b),
       net_sw := get_int vs 9 (net_sw b), net_hw := get_int vs 10 (net_hw b), up_time := up \<rparr>) })"

text \<open>When \<open>updater.sh\<close> is not there yet it is sent, and the information is not read: \<open>b\<close> stays.\<close>

definition send_updater :: "SSHClient \<Rightarrow> string \<Rightarrow> DevBaseInfo \<Rightarrow> (int \<times> DevBaseInfo) io" where
  "send_updater c resp b = do {
     u \<leftarrow> SSHClient_UploadFile c ''/opt/updater.sh'' ''/home/cktt/script/updater.sh'';
     if u \<noteq> 0 then do { SSHClient_Destroy c; ret (-1, b) }
     else do {
       (r, _) \<leftarrow> SSHClient_Execute c ''chmod +x /home/cktt/script/updater.sh'' resp 128;
       SSHClient_Destroy c;
       ret (if r \<noteq> 0 then -1 else 0, b) } }"

definition init_updater_environment :: "DevBaseInfo \<Rightarrow> (int \<times> DevBaseInfo) io" where
  "init_updater_environment b = do {
     c \<leftarrow> SSHClient_Init SERVER_IP SERVER_USERNAME SERVER_PASSWORD;
     c \<leftarrow> connect_tries 10 c;
     (r, resp) \<leftarrow> SSHClient_Execute c ''find /home/cktt/script/ -name \"updater.sh\"'' [] 128;
     if r \<noteq> 0 then do { SSHClient_Destroy c; ret (-1, b) }
     else if contains resp ''updater.sh''
     then do {
       (r, resp) \<leftarrow> SSHClient_Execute c ''bash /home/cktt/script/updater.sh dev_info'' [] 128;
       if r \<noteq> 0 then do { SSHClient_Destroy c; ret (-1, b) }
       else do {
         b \<leftarrow> scan_dev_info resp;
         SSHClient_Destroy c;
         ret (0, b) } }
     else send_updater c resp b }"

subsection \<open>Timers\<close>

datatype timer_task = NavTimer | RebootTimer | OtaTimer | HeartbeatTimer

record timer =
  t_task :: timer_task
  tv_sec :: nat
  tv_usec :: nat

definition cloud_add_timer_task ::
    "(timer heap \<Rightarrow> addr option) \<Rightarrow> timer_task \<Rightarrow> nat \<Rightarrow> timer list_state \<Rightarrow> timer list_state outcome" where
  "cloud_add_timer_task malloc task ms s =
     (case List_Insert malloc s \<lparr> t_task = task, tv_sec = ms div 1000, tv_usec = ms mod 1000 * 1000 \<rparr> of
        Inl e \<Rightarrow> Inl e | Inr (_, s') \<Rightarrow> Inr s')"

text \<open>What \<open>cloud_timer_task_entry\<close> does before its event loop.\<close>

definition cloud_timers :: "(timer heap \<Rightarrow> addr option) \<Rightarrow> timer list_state \<Rightarrow> timer list_state outcome" where
  "cloud_timers malloc s =
     (case cloud_add_timer_task malloc NavTimer 1000 s of Inl e \<Rightarrow> Inl e
      | Inr s1 \<Rightarrow> (case cloud_add_timer_task malloc RebootTimer 30000 s1 of Inl e \<Rightarrow> Inl e
                  | Inr s2 \<Rightarrow> cloud_add_timer_task malloc OtaTimer 60000 s2))"

text \<open>After the event loop: the events freed, in order, and the list; with fuel.\<close>

fun free_events :: "nat \<Rightarrow> 'a list_state \<Rightarrow> 'a list \<Rightarrow> ('a list \<times> 'a list_state) outcome option" where
  "free_events 0 s evs = None"
| "free_events (Suc n) s evs =
     (case List_GetHead (Some (snd s)) of
        None \<Rightarrow> Some (Inr (evs, s))
      | Some a \<Rightarrow>
          (case fst s a of
             None \<Rightarrow> Some (Inl UseAfterFree)
           | Some nd \<Rightarrow>
               (case List_DelHead s of
                  Inl e \<Rightarrow> Some (Inl e)
                | Inr (_, s') \<Rightarrow> free_events n s' (evs @ [arg nd]))))"

definition cloud_timers_end :: "timer list_state \<Rightarrow> (timer list \<times> timer list_state) outcome option" where
  "cloud_timers_end s =
     (if 0 < unat (lcount (snd s)) then free_events (Suc (unat (lcount (snd s)))) s [] else Some (Inr ([], s)))"

text \<open>The same in \<open>fkz9_timer_task_entry\<close>, with one timer.\<close>

definition fkz9_add_timer_task ::
    "(timer heap \<Rightarrow> addr option) \<Rightarrow> timer_task \<Rightarrow> nat \<Rightarrow> timer list_state \<Rightarrow> timer list_state outcome" where
  "fkz9_add_timer_task malloc task ms s =
     (case List_Insert malloc s \<lparr> t_task = task, tv_sec = ms div 1000, tv_usec = ms mod 1000 * 1000 \<rparr> of
        Inl e \<Rightarrow> Inl e | Inr (_, s') \<Rightarrow> Inr s')"

definition fkz9_timers :: "(timer heap \<Rightarrow> addr option) \<Rightarrow> timer list_state \<Rightarrow> timer list_state outcome" where
  "fkz9_timers malloc s = fkz9_add_timer_task malloc HeartbeatTimer 3000 s"

definition fkz9_timers_end :: "timer list_state \<Rightarrow> (timer list \<times> timer list_state) outcome option" where
  "fkz9_timers_end s =
     (if 0 < unat (lcount (snd s)) then free_events (Suc (unat (lcount (snd s)))) s [] else Some (Inr ([], s)))"

subsection \<open>The cloud service\<close>

datatype cloud_thread = TcpConnectThread | TimerThread | EventThread | DownloadThread

record Cloud =
  svc :: App
  lane :: LaneToCtx
  fx :: Fx650Ctx
  ev_list :: "timer list_state"
  down_list :: "FwDownInfo list_state"
  c_running :: bool
  threads :: "cloud_thread list"
  run_led :: GpioController
  fault_led :: GpioController

type_synonym 'a cloud = "(Cloud, 'a) state"

definition svc_do :: "'a app \<Rightarrow> 'a cloud" where
  "svc_do m = State (\<lambda>c. case run_state m (svc c) of (x, s) \<Rightarrow> (x, c\<lparr> svc := s \<rparr>))"

definition get_c :: "(Cloud \<Rightarrow> 'a) \<Rightarrow> 'a cloud" where
  "get_c f = State (\<lambda>c. (f c, c))"

definition upd_c :: "(Cloud \<Rightarrow> Cloud) \<Rightarrow> unit cloud" where
  "upd_c f = State (\<lambda>c. ((), f c))"

text \<open>The server, when the device information is there and when it is not.\<close>

definition cloud_server :: "DevBaseInfo option \<Rightarrow> string \<times> int" where
  "cloud_server b =
     (case b of None \<Rightarrow> (CLOUD_SERVER_IP, CLOUD_SERVER_PORT) | Some i \<Rightarrow> (cloud_ip i, cloud_port i))"

definition start_client :: "App \<Rightarrow> App" where
  "start_client s = (case cloud_server (Some (base_info s)) of (ip, p) \<Rightarrow>
     s\<lparr> event_queue := snd (init_queue (event_queue s) 256),
        client := tcp_client_register_cb (tcp_client_create ip p MAX_RECONNECT_ATTEMPTS),
        cloud_set := True \<rparr>)"

text \<open>\<open>False\<close>: out of fuel. After a modem error everything but the modem's context stays as it was.\<close>

definition clound_comm_init :: "nat \<Rightarrow> nat \<Rightarrow> bool cloud" where
  "clound_comm_init rf n = do {
     r \<leftarrow> svc_do (io (fx650_init rf n));
     case r of None \<Rightarrow> State_Monad.return False
     | Some (code, x) \<Rightarrow> do {
         upd_c (\<lambda>c. c\<lparr> fx := x, svc := (svc c)\<lparr> sim_id := x_sim_id x \<rparr> \<rparr>);
         if code \<noteq> FX650_OK then State_Monad.return True
         else do {
           (_, l) \<leftarrow> svc_do (io laneTo_init);
           upd_c (\<lambda>c. c\<lparr> lane := l,
             ev_list := (fst (ev_list c), snd (List_Init_Thread (snd (ev_list c)))),
             down_list := (fst (down_list c), snd (List_Init_Thread (snd (down_list c)))),
             svc := start_client (svc c), c_running := True,
             threads := threads c @ [TcpConnectThread, TimerThread, EventThread, DownloadThread] \<rparr>);
           State_Monad.return True } } }"

text \<open>
  The stop, after the three threads of the service have ended. A disconnected client has its flag
  cleared; the connection thread of the client is not joined here.
\<close>

definition stop_client :: "unit app" where
  "stop_client = do {
     modify (\<lambda>s. s\<lparr> client := (client s)\<lparr> is_connected := False \<rparr> \<rparr>);
     c \<leftarrow> gets client;
     (case tcp_client_destroy (Some c) of Inl e \<Rightarrow> fault_app e | Inr _ \<Rightarrow> pure ()) }"

definition clound_comm_uninit :: "nat \<Rightarrow> nat \<Rightarrow> bool cloud" where
  "clound_comm_uninit rf n = do {
     run \<leftarrow> get_c c_running;
     if \<not> run then State_Monad.return True
     else do {
       upd_c (\<lambda>c. c\<lparr> c_running := False, threads := filter (\<lambda>t. t = TcpConnectThread) (threads c) \<rparr>);
       svc_do stop_client;
       l \<leftarrow> get_c lane;
       l \<leftarrow> svc_do (io (laneTo_uninit l));
       upd_c (\<lambda>c. c\<lparr> lane := l \<rparr>);
       x \<leftarrow> get_c fx;
       r \<leftarrow> svc_do (io (fx650_uninit rf n x));
       case r of None \<Rightarrow> State_Monad.return False
       | Some x \<Rightarrow> do {
           upd_c (\<lambda>c. c\<lparr> fx := x \<rparr>);
           svc_do (do {
             q \<leftarrow> gets event_queue;
             (case clean_queue q of Inl e \<Rightarrow> fault_app e | Inr (_, q') \<Rightarrow> modify (\<lambda>s. s\<lparr> event_queue := q' \<rparr>));
             modify (\<lambda>s. s\<lparr> cloud_set := False \<rparr>) });
           State_Monad.return True } } }"

text \<open>
  \<open>main\<close> up to its wait: \<open>None\<close> out of fuel, else the exit status, or 0 when both services were started.
  \<open>beyond\<close>: what lies behind a string literal in memory.
\<close>

definition leds_start :: "(string \<Rightarrow> string) \<Rightarrow> unit cloud" where
  "leds_start beyond = do {
     r \<leftarrow> get_c run_led;
     r \<leftarrow> svc_do (io (RUN_LED_INIT beyond r));
     f \<leftarrow> get_c fault_led;
     f \<leftarrow> svc_do (io (FAULT_LED_INIT beyond f));
     upd_c (\<lambda>c. c\<lparr> run_led := r, fault_led := f \<rparr>) }"

definition before_services :: "(string \<Rightarrow> string) \<Rightarrow> int cloud" where
  "before_services beyond = do {
     r \<leftarrow> svc_do (do {
       b \<leftarrow> gets base_info;
       (r, b) \<leftarrow> io (init_updater_environment b);
       modify (\<lambda>s. s\<lparr> base_info := b \<rparr>);
       pure r });
     if r \<noteq> 0 then State_Monad.return (-1)
     else do {
       svc_do (io (do {
         e \<leftarrow> file_exists SELF_UPGRADE_FILE_PATH;
         if e then system_run (snprintf 64 (''rm -f '' @ SELF_UPGRADE_FILE_PATH)) else ret 0 }));
       leds_start beyond;
       svc_do (io (tell (Curl CurlGlobalInit)));
       State_Monad.return 0 } }"

definition main_start :: "(string \<Rightarrow> string) \<Rightarrow> nat \<Rightarrow> nat \<Rightarrow> int option cloud" where
  "main_start beyond rf n = do {
     r \<leftarrow> before_services beyond;
     if r \<noteq> 0 then State_Monad.return (Some r)
     else do {
       ok \<leftarrow> clound_comm_init rf n;
       if \<not> ok then State_Monad.return None
       else do { svc_do fkz9_comm_init; State_Monad.return (Some 0) } } }"

text \<open>\<open>main\<close> after its wait: both services stopped, the run LED off, the fault LED on, both released.\<close>

definition leds_stop :: "unit cloud" where
  "leds_stop = do {
     r \<leftarrow> get_c run_led;
     f \<leftarrow> get_c fault_led;
     r \<leftarrow> svc_do (io (RUN_LED_OFF r));
     f \<leftarrow> svc_do (io (FAULT_LED_ON f));
     r \<leftarrow> svc_do (io (led_destroy r));
     f \<leftarrow> svc_do (io (led_destroy f));
     upd_c (\<lambda>c. c\<lparr> run_led := r, fault_led := f \<rparr>) }"

definition main_stop :: "nat \<Rightarrow> nat \<Rightarrow> bool cloud" where
  "main_stop rf n = do {
     ok \<leftarrow> clound_comm_uninit rf n;
     if \<not> ok then State_Monad.return False
     else do { svc_do fkz9_comm_uninit; svc_do (io (tell (Curl CurlGlobalCleanup))); leds_stop; State_Monad.return True } }"

lemma run_svc_do [simp]:
  "run_state (svc_do m) c = (fst (run_state m (svc c)), c\<lparr> svc := snd (run_state m (svc c)) \<rparr>)"
  by (simp add: svc_do_def case_prod_beta)

lemma run_get_c [simp]: "run_state (get_c f) c = (f c, c)" and run_upd_c [simp]: "run_state (upd_c g) c = ((), g c)"
  by (simp_all add: get_c_def upd_c_def)

lemma wf_startup_scan [wf_io_intros]: "wf_io (scan_dev_info resp)"
  unfolding scan_dev_info_def Let_def by (intro wf_io_intros)

lemma wf_connect_tries [wf_io_intros]: "wf_io (connect_tries k c)"
  by (induction k arbitrary: c) (auto intro!: wf_io_intros)

lemma wf_startup [wf_io_intros]: "wf_io (send_updater c resp b)" "wf_io (init_updater_environment b)"
  unfolding send_updater_def init_updater_environment_def by (intro wf_io_intros)+

text \<open>
  The download thread, \<open>download_upgrade_entry\<close>: the list gives what the flag \<open>running\<close> is at the start of
  each turn. Under the lock it would wait while \<open>&pTask->list.count == 0\<close>, but that compares an address,
  never null, so it goes on at once.
\<close>

fun download_upgrade_entry ::
    "(json \<Rightarrow> string) \<Rightarrow> DevBaseInfo \<Rightarrow> bool list \<Rightarrow> FwDownInfo list_state \<Rightarrow> FwDownInfo list_state option io" where
  "download_upgrade_entry print b [] s = ret (Some s)"
| "download_upgrade_entry print b (running # rs) s =
     (if \<not> running then ret (Some s)
      else do {
        r \<leftarrow> do_downlaod_firmware print b s;
        case r of None \<Rightarrow> ret None | Some s \<Rightarrow> download_upgrade_entry print b rs s })"

text \<open>With nothing to do it spins: its turns make no request and do not wait.\<close>

lemma download_thread_spins:
  "lcount (snd s) = 0 \<Longrightarrow> run_state (download_upgrade_entry print b rs s) w = (Some s, w)"
  by (induction rs) (simp_all add: do_downlaod_firmware_def)

subsection \<open>The timers\<close>

lemma free_events_all:
  assumes "list_ready malloc s" "length (list_contents s) < n"
  shows "\<exists>s'. free_events n s evs = Some (Inr (evs @ list_contents s, s')) \<and> list_ready malloc s' \<and> list_contents s' = []"
  using assms
proof (induction "list_contents s" arbitrary: n s evs)
  case Nil
  then obtain m where n: "n = Suc m" by (cases n) auto
  have "List_GetHead (Some (snd s)) = None"
    using linked.deq_empty [OF Nil.prems(1)] Nil.hyps by (auto simp: list_get_def split: option.splits sum.splits)
  with n Nil show ?case by simp
next
  case (Cons p ps)
  from Cons.prems(2) obtain m where n: "n = Suc m" by (cases n) auto
  from linked.deq_first [OF Cons.prems(1) Cons.hyps(2) [symmetric]] obtain s' where
    g: "list_get s = Inr (Some (p, s'))" "list_ready malloc s'" "list_contents s' = ps" by auto
  then obtain a nd z where h: "List_GetHead (Some (snd s)) = Some a" "fst s a = Some nd" "arg nd = p"
    "List_DelHead s = Inr (z, s')"
    by (auto simp: list_get_def split: option.splits sum.splits)
  have "length (list_contents s') < m" using Cons.prems(2) Cons.hyps(2) n g(3) by (metis Suc_less_eq length_Cons)
  from Cons.hyps(1) [OF g(3) [symmetric] g(2) this, of "evs @ [p]"] show ?case
    using h n Cons.hyps(2) [symmetric] g(3) by simp
qed

definition cloud_timer_list :: "timer list" where
  "cloud_timer_list = [\<lparr> t_task = NavTimer, tv_sec = 1, tv_usec = 0 \<rparr>, \<lparr> t_task = RebootTimer, tv_sec = 30, tv_usec = 0 \<rparr>,
     \<lparr> t_task = OtaTimer, tv_sec = 60, tv_usec = 0 \<rparr>]"

lemma add_timer:
  assumes "list_ready malloc s" "length (list_contents s) < 65535"
  shows "\<exists>s'. cloud_add_timer_task malloc t ms s = Inr s' \<and> list_ready malloc s' \<and>
     list_contents s' = list_contents s @ [\<lparr> t_task = t, tv_sec = ms div 1000, tv_usec = ms mod 1000 * 1000 \<rparr>]"
  using linked.enq_accept [OF assms(1), of "\<lparr> t_task = t, tv_sec = ms div 1000, tv_usec = ms mod 1000 * 1000 \<rparr>"] assms(2)
  by (auto simp: cloud_add_timer_task_def list_put_def)

lemma timers_end_all:
  assumes "list_ready malloc s" "length (list_contents s) < 65535"
  shows "\<exists>s'. cloud_timers_end s = Some (Inr (list_contents s, s')) \<and> list_ready malloc s' \<and> list_contents s' = []"
proof -
  have n: "unat (lcount (snd s)) = length (list_contents s)" using ready_count [OF assms(1)] assms(2) by simp
  show ?thesis
  proof (cases "list_contents s = []")
    case True
    with n assms(1) show ?thesis by (simp add: cloud_timers_end_def)
  next
    case False
    with n
      free_events_all [OF assms(1), of "Suc (unat (lcount (snd s)))" "[]"] show ?thesis
      by (simp add: cloud_timers_end_def del: free_events.simps)
  qed
qed

lemma cloud_timers_armed:
  assumes "list_ready malloc s" "list_contents s = []"
  shows "\<exists>s'. cloud_timers malloc s = Inr s' \<and> list_ready malloc s' \<and> list_contents s' = cloud_timer_list"
proof -
  from add_timer [OF assms(1), of NavTimer 1000] assms(2) obtain s1 where 1: "cloud_add_timer_task malloc NavTimer 1000 s = Inr s1"
    "list_ready malloc s1" "list_contents s1 = take 1 cloud_timer_list" by (auto simp: cloud_timer_list_def)
  from add_timer [OF 1(2), of RebootTimer 30000] 1(3) obtain s2 where 2: "cloud_add_timer_task malloc RebootTimer 30000 s1 = Inr s2"
    "list_ready malloc s2" "list_contents s2 = take 2 cloud_timer_list" by (auto simp: cloud_timer_list_def)
  from add_timer [OF 2(2), of OtaTimer 60000] 2(3) obtain s3 where "cloud_add_timer_task malloc OtaTimer 60000 s2 = Inr s3"
    "list_ready malloc s3" "list_contents s3 = cloud_timer_list" by (auto simp: cloud_timer_list_def)
  with 1(1) 2(1) show ?thesis by (simp add: cloud_timers_def)
qed

text \<open>
  The timer thread of the cloud service arms three persistent timers, navigation data every second, the
  mission file every thirty, the heartbeat every sixty, that of the unit's service one, every three; when the event
  loop ends the loop over the list terminates, frees each of them once, and leaves the list empty.
\<close>

theorem timers_released:
  assumes "list_ready malloc s" "list_contents s = []"
  shows "(\<exists>s1 s2. cloud_timers malloc s = Inr s1 \<and> list_contents s1 = cloud_timer_list \<and>
       cloud_timers_end s1 = Some (Inr (cloud_timer_list, s2)) \<and> list_ready malloc s2 \<and> list_contents s2 = []) \<and>
     (\<exists>s1 s2. fkz9_timers malloc s = Inr s1 \<and> list_contents s1 = [\<lparr> t_task = HeartbeatTimer, tv_sec = 3, tv_usec = 0 \<rparr>] \<and>
       fkz9_timers_end s1 = Some (Inr (list_contents s1, s2)) \<and> list_ready malloc s2 \<and> list_contents s2 = [])"
proof
  from cloud_timers_armed [OF assms] obtain s1 where 1: "cloud_timers malloc s = Inr s1" "list_ready malloc s1"
    "list_contents s1 = cloud_timer_list" by blast
  with timers_end_all [OF 1(2)]
  show "\<exists>s1 s2. cloud_timers malloc s = Inr s1 \<and> list_contents s1 = cloud_timer_list \<and>
       cloud_timers_end s1 = Some (Inr (cloud_timer_list, s2)) \<and> list_ready malloc s2 \<and> list_contents s2 = []"
    by (auto simp: cloud_timer_list_def)
next
  from add_timer [OF assms(1), of HeartbeatTimer 3000] assms(2) obtain s1 where 1: "fkz9_timers malloc s = Inr s1" "list_ready malloc s1"
    "list_contents s1 = [\<lparr> t_task = HeartbeatTimer, tv_sec = 3, tv_usec = 0 \<rparr>]"
    by (auto simp: fkz9_timers_def fkz9_add_timer_task_def cloud_add_timer_task_def)
  with timers_end_all [OF 1(2)]
  show "\<exists>s1 s2. fkz9_timers malloc s = Inr s1 \<and> list_contents s1 = [\<lparr> t_task = HeartbeatTimer, tv_sec = 3, tv_usec = 0 \<rparr>] \<and>
       fkz9_timers_end s1 = Some (Inr (list_contents s1, s2)) \<and> list_ready malloc s2 \<and> list_contents s2 = []"
    by (auto simp: fkz9_timers_end_def cloud_timers_end_def)
qed

theorem timers_released_witness:
  "\<exists>s1 s2. cloud_timers first_free (Map.empty, snd (List_Init_Thread \<lparr> p_Head = None, p_Tail = None, lcount = 0, mutexOpt = 0 \<rparr>)) = Inr s1 \<and>
     cloud_timers_end s1 = Some (Inr (cloud_timer_list, s2)) \<and> list_contents s2 = []"
proof -
  let ?s = "(Map.empty, snd (List_Init_Thread \<lparr> p_Head = None, p_Tail = None, lcount = 0, mutexOpt = 0 \<rparr>)) :: timer list_state"
  have "list_ready first_free ?s" "list_contents ?s = []"
    by (simp_all add: list_ready_def first_free_ok List_Init_Thread_def list_inv_def list_rep_def nodes_def list_contents_def)
  from timers_released [OF this] show ?thesis by blast
qed

subsection \<open>The device information fits its arrays\<close>

definition info_ok :: "DevBaseInfo \<Rightarrow> bool" where
  "info_ok b \<longleftrightarrow> length (cloud_ip b) < 16 \<and> length (up_time b) < 30"

lemma ensures_scan_field: "length old < cap \<Longrightarrow> ensures (\<lambda>s. length s < cap) (scan_field vs i cap old)"
  unfolding scan_field_def
  by (rule ensures_bind [OF ensures_check]) (auto simp: get_str_def intro!: ensures_intros wf_io_intros split: sval.splits)

lemma ensures_dev_info: "ensures info_ok (scan_dev_info resp)"
  unfolding scan_dev_info_def Let_def
  by (rule ensures_bind [OF ensures_scan_field], simp add: cleared_info_def,
      rule ensures_bind [OF ensures_scan_field], simp add: cleared_info_def)
    (auto simp: info_ok_def intro!: ensures_intros wf_io_intros)

lemma ensures_init_info: "info_ok b \<Longrightarrow> ensures (\<lambda>r. info_ok (snd r)) (init_updater_environment b)"
  unfolding init_updater_environment_def send_updater_def
  by (auto intro!: ensures_intros ensures_bind [OF ensures_dev_info] wf_io_intros)

lemma ensures_heartbeat_info: "info_ok b \<Longrightarrow> ensures (\<lambda>r. info_ok (snd (snd r))) (get_ota_heartbeat_info junk h b)"
proof -
  assume b: "info_ok b"
  have k: "ensures info_ok (keep_up_time up b)" for up
    using b unfolding keep_up_time_def
    by (auto intro!: ensures_intros ensures_bind [OF ensures_check] wf_io_intros simp: info_ok_def)
  show ?thesis
    unfolding get_ota_heartbeat_info_def using b
    by (auto intro!: ensures_intros ensures_bind [OF k] wf_io_intros)
qed




subsection \<open>What the start leaves\<close>

text \<open>
  When the modem cannot be initialised the cloud service is left unstarted and \<open>main\<close>, which gets no
  result from \<open>clound_comm_init\<close>, starts the service to the unit all the same: the first frame the unit
  wants forwarded, whatever it is, is a null dereference.
\<close>

theorem no_modem_crashes_forwarding:
  assumes "value_of (fx650_init rf n) (wld (svc c)) = Some (code, x)" "code \<noteq> FX650_OK" "\<not> cloud_set (svc c)"
    and "c' = snd (run_state (do { clound_comm_init rf n; svc_do fkz9_comm_init }) c)" "app_ub (svc c') = None"
  shows "threads c' = threads c \<and> c_running c' = c_running c \<and> client (svc c') = client (svc c) \<and>
     app_ub (snd (run_state (fkz9_msg_fw_to_cloud_entry f) (svc c'))) = Some NullDeref"
proof -
  have keep: "cloud_set (snd (run_state fkz9_comm_init s)) = cloud_set s \<and> client (snd (run_state fkz9_comm_init s)) = client s" for s
    by (simp add: fkz9_comm_init_def split: option.split)
  define c1 where "c1 = snd (run_state (clound_comm_init rf n) c)"
  have c1: "cloud_set (svc c1) = cloud_set (svc c)" "client (svc c1) = client (svc c)" "threads c1 = threads c"
    "c_running c1 = c_running c"
    using assms(1,2) by (simp_all add: c1_def clound_comm_init_def)
  have c': "c' = c1\<lparr> svc := snd (run_state fkz9_comm_init (svc c1)) \<rparr>"
    using assms(4) by (simp add: c1_def case_prod_beta)
  show ?thesis
    using c1 keep [of "svc c1"] assms(3,5) unfolding c'
    by (simp add: fkz9_msg_fw_to_cloud_entry_def gp_cloud_send_def app_ub_def)
qed

definition cloud_example :: Cloud where
  "cloud_example = \<lparr> svc = app_example\<lparr> cloud_set := False \<rparr>, lane = nav_ctx,
     fx = \<lparr> x_uart = None, net_name = None, x_sim_id = [] \<rparr>,
     ev_list = (Map.empty, \<lparr> p_Head = None, p_Tail = None, lcount = 0, mutexOpt = 0 \<rparr>),
     down_list = (Map.empty, \<lparr> p_Head = None, p_Tail = None, lcount = 0, mutexOpt = 0 \<rparr>), c_running = False, threads = [],
     run_led = cleared_gpio, fault_led = cleared_gpio \<rparr>"

lemma no_modem_quiet: "run_state (fx650_init rf n) quiet_world =
    (Some (FX650_ERR_INIT, \<lparr> x_uart = None, net_name = None, x_sim_id = [] \<rparr>),
     quiet_world\<lparr> trace := [(Dev (OpenDir SYS_NET_PATH), \<lparr> rc = 0, vl = 0, out = [] \<rparr>)] \<rparr>)"
  by (simp add: fx650_init_def find_interface_by_vid_pid_def)

theorem no_modem_crashes_forwarding_witness:
  "app_ub (snd (run_state (fkz9_msg_fw_to_cloud_entry (frame 0x20 [1]))
     (svc (snd (run_state (do { clound_comm_init 0 0; svc_do fkz9_comm_init }) cloud_example))))) = Some NullDeref"
proof -
  have "app_ub (svc (snd (run_state (do { clound_comm_init 0 0; svc_do fkz9_comm_init }) cloud_example))) = None"
    by (simp add: cloud_example_def clound_comm_init_def value_of_def no_modem_quiet FX650_OK_def FX650_ERR_INIT_def
        fkz9_comm_init_def mqtt_client_create_def mqtt_connect_def mqtt_register_cb_def Let_def app_ub_def)
  with no_modem_crashes_forwarding [OF _ _ _ refl, of 0 0 cloud_example FX650_ERR_INIT] show ?thesis
    by (simp add: cloud_example_def value_of_def no_modem_quiet FX650_OK_def FX650_ERR_INIT_def)
qed

lemma fresh_list: "list_contents (h, snd (List_Init_Thread r)) = []" "list_inv (h, snd (List_Init_Thread r))"
  by (simp_all add: List_Init_Thread_def list_inv_def list_rep_def nodes_def list_contents_def)

text \<open>The queues and lists of a context \<open>main\<close> has cleared.\<close>

definition cleared_context :: "Cloud \<Rightarrow> bool" where
  "cleared_context c \<longleftrightarrow> length (sizes (event_queue (svc c))) = 64"

text \<open>
  C29: When the modem is initialised, the start of the cloud service establishes what its threads rely on:
  an empty event queue with segments of 256 bytes, a client for the address in the device information with
  an empty transmit queue of 1400 and no reconnection counted, two empty lists, the global pointer
  set and the three threads and the connection thread started; a navigation receiver that failed to open is ignored.
\<close>

theorem start_establishes_service:
  assumes "value_of (fx650_init rf n) (wld (svc c)) = Some (FX650_OK, x)" "cleared_context c" "alloc_ok malloc"
    and "c' = snd (run_state (clound_comm_init rf n) c)"
  shows "cloud_set (svc c') \<and> c_running c' \<and> sim_id (svc c') = x_sim_id x \<and>
     queue_inv 256 (event_queue (svc c')) \<and> contents (event_queue (svc c')) = [] \<and>
     queue_inv 1400 (tx_queue (client (svc c'))) \<and> contents (tx_queue (client (svc c'))) = [] \<and>
     server_ip (client (svc c')) = cloud_ip (base_info (svc c)) \<and> port (client (svc c')) = cloud_port (base_info (svc c)) \<and>
     recnt_att (client (svc c')) = 0 \<and> TcpClient.on_message (client (svc c')) \<and> \<not> is_connected (client (svc c')) \<and>
     list_contents (down_list c') = [] \<and> list_contents (ev_list c') = [] \<and>
     (finite (dom (fst (down_list c))) \<longrightarrow> list_ready malloc (down_list c')) \<and>
     threads c' = threads c @ [TcpConnectThread, TimerThread, EventThread, DownloadThread]"
proof -
  let ?s = "svc c"
  have cl: "length (sizes (event_queue (svc c))) = MAX_SEGMENTS" "length (sizes cleared_queue) = MAX_SEGMENTS"
    using assms(2) by (simp_all add: cleared_context_def cleared_queue_def MAX_SEGMENTS_def)
  have q: "queue_inv 256 (snd (init_queue (event_queue ?s) 256))" "contents (snd (init_queue (event_queue ?s) 256)) = []"
    "queue_inv 1400 (snd (init_queue cleared_queue 1400))" "contents (snd (init_queue cleared_queue 1400)) = []"
    using init_queue_inv [OF cl(1), of 256] init_queue_inv [OF cl(2), of 1400] by simp_all
  obtain v where c': "svc c' = start_client ((svc c)\<lparr> sim_id := x_sim_id x, wld := v \<rparr>)" "c_running c'"
    "down_list c' = (fst (down_list c), snd (List_Init_Thread (snd (down_list c))))"
    "ev_list c' = (fst (ev_list c), snd (List_Init_Thread (snd (ev_list c))))"
    "threads c' = threads c @ [TcpConnectThread, TimerThread, EventThread, DownloadThread]"
    using assms(1) unfolding assms(4) by (auto simp: clound_comm_init_def case_prod_beta)
  show ?thesis
    unfolding c'(1,3-5) list_ready_def using q c'(2) assms(3)
    by (simp add: fresh_list start_client_def cloud_server_def tcp_client_create_def tcp_client_register_cb_def)
qed

text \<open>A modem that answers the first command.\<close>

definition was_read :: "event list \<Rightarrow> bool" where
  "was_read tr = list_ex (\<lambda>e. case fst e of Dev (DevRead _ _) \<Rightarrow> True | _ \<Rightarrow> False) tr"

definition modem_env :: "event list \<Rightarrow> request \<Rightarrow> response" where
  "modem_env tr r = (case r of
       Dev (DevRead _ _) \<Rightarrow> if was_read tr then no_data\<lparr> rc := 0 \<rparr> else \<lparr> rc = 4, vl = 0, out = [AT_OK] \<rparr>
     | Dev (Select _ _) \<Rightarrow> if was_read tr then \<lparr> rc = 0, vl = 0, out = [] \<rparr> else \<lparr> rc = 1, vl = 0, out = [] \<rparr>
     | Dev (OpenDir _) \<Rightarrow> \<lparr> rc = 1, vl = 0, out = [''usb0''] \<rparr> | Dev (ReadDirType _ _) \<Rightarrow> \<lparr> rc = 0, vl = 10, out = [] \<rparr>
     | Dev (RealPath _) \<Rightarrow> \<lparr> rc = 1, vl = 0, out = [''/d''] \<rparr> | Dev (DevOpen _) \<Rightarrow> \<lparr> rc = 1, vl = 0, out = [] \<rparr>
     | Curl CurlInit \<Rightarrow> \<lparr> rc = 1, vl = 0, out = [] \<rparr> | _ \<Rightarrow> \<lparr> rc = 0, vl = 0, out = [] \<rparr>)"

lemma was_read_append [simp]: "was_read (xs @ ys) \<longleftrightarrow> was_read xs \<or> was_read ys"
  by (simp add: was_read_def)

lemma modem_first_answer:
  assumes "ub w = None" "is_open p" "env w = modem_env" "\<not> was_read (trace w)"
  shows "\<exists>resp w'. run_state (send_at_command 7 1 p cmd (cleared 64) ms) w = (Some (FX650_OK, resp), w') \<and>
     ub w' = None \<and> env w' = modem_env \<and> was_read (trace w')"
proof -
  define w1 where "w1 = w\<lparr> trace := trace w @ [(Dev (DevWrite (fd p) cmd), \<lparr> rc = 0, vl = 0, out = [] \<rparr>),
     (Dev (Select (fd p) ms), \<lparr> rc = 1, vl = 0, out = [] \<rparr>)] \<rparr>"
  let ?e = "(Dev (DevRead (fd p) (read_size 64)), \<lparr> rc = int 4, vl = 0, out = [AT_OK] \<rparr>)"
  define w2 where "w2 = w1\<lparr> trace := trace w1 @ [?e] \<rparr>"
  have nr: "\<not> was_read (trace w1)" using assms(4) by (simp add: w1_def was_read_def)
  have w1: "ub w1 = None" "env w1 (trace w1) (Dev (DevRead (fd p) (read_size 64))) = \<lparr> rc = int 4, vl = 0, out = [AT_OK] \<rparr>"
    using assms(1,3) nr by (simp_all add: w1_def modem_env_def)
  have "reads_answer w2 (fd p) 64 (no_data\<lparr> rc := 0 \<rparr>)"
    using assms(3) by (simp add: reads_answer_def w2_def w1_def modem_env_def was_read_def)
  with serial_read_total [OF w1(1) assms(2) _ _ _ _ _ _ w1(2) w2_def, of "cleared 64"] obtain w' where
    r: "run_state (serial_read 7 p (cleared 64) 64) w1 = (Some (4, AT_OK @ drop 4 (cleared 64)), w')" "ub w' = None"
    by (auto simp: cleared_def AT_OK_def crlf_def)
  obtain t buf where l: "snd (run_state (serial_read 7 p (cleared 64) 64) w1) = snd (run_state (serial_read_loop 6 (fd p) 64 t buf) w2)"
  proof -
    have "run_state (serial_read_loop (Suc 6) (fd p) 64 0 (cleared 64)) w1 = run_state (serial_read_loop 6 (fd p) 64 (0 + word_of_int 4)
        (take (unat (0 :: u64)) (cleared 64) @ take (nat 4) (concat [AT_OK]) @ drop (unat (0 :: u64) + length (take (nat 4) (concat [AT_OK]))) (cleared 64))) w2"
      unfolding w2_def using read_step [OF w1(1) _ w1(2), of 0 "cleared 64" 6]
      by (simp add: cleared_def AT_OK_def crlf_def word_less_nat_alt)
    then show ?thesis using that assms(2) by (simp add: serial_read_def case_prod_beta)
  qed
  have "extends w2 w'"
    using wf_serial_loop [of 6 "fd p" 64 t buf] r(1) unfolding wf_io_def l [symmetric] by (metis l snd_conv)
  then have w': "env w' = modem_env" "was_read (trace w')"
    using assms(3) by (auto simp: extends_def w2_def w1_def was_read_def)
  have nw: "\<not> was_read [(Dev (DevWrite f x), a)]" for f x a by (simp add: was_read_def)
  have c: "c_str ((AT_OK @ drop 4 (cleared 64))[4 := CHR 0x00]) = AT_OK"
  proof -
    have "replicate 60 CHR 0x00 = CHR 0x00 # replicate 59 CHR 0x00" by (simp add: numeral_eq_Suc)
    then show ?thesis by (simp add: AT_OK_def crlf_def cleared_def c_str_def newline_def list_update_append)
  qed
  have "run_state (send_at_command 7 1 p cmd (cleared 64) ms) w = (Some (FX650_OK, (AT_OK @ drop 4 (cleared 64))[4 := CHR 0x00]), w')"
    using assms r c nw by (simp add: send_at_command_def serial_write_def modem_env_def w1_def cleared_def AT_OK_def crlf_def)
  with w' r(2) show ?thesis by blast
qed

lemma modem_starts:
  "\<exists>x w'. run_state (fx650_init 7 1) (quiet_world\<lparr> env := modem_env \<rparr>) = (Some (FX650_OK, x), w') \<and> x_uart x = None \<and>
     ub w' = None \<and> env w' = modem_env"
proof -
  define w where "w = quiet_world\<lparr> env := modem_env \<rparr>"
  have w: "ub w = None" "trace w = []" "env w = modem_env" by (simp_all add: w_def)
  obtain w1 where 1: "run_state (find_interface_by_vid_pid FX650_VID FX650_PID) w = (Some ''usb0'', w1)" "ub w1 = None"
    "env w1 = modem_env" "\<not> was_read (trace w1)"
    using w by (simp add: find_interface_by_vid_pid_def entry_matches_def check_uevent_product_def modem_env_def DT_LNK_def was_read_def Let_def)
  obtain p w2 where 2: "run_state (serial_open uart_port_create FX650_DEV_NAME) w1 = ((0, p), w2)" "is_open p" "ub w2 = None"
    "env w2 = modem_env" "\<not> was_read (trace w2)"
    using 1(2-) by (simp add: serial_open_def modem_env_def was_read_def)
  obtain r w3 where 3: "run_state (uart_configure p (Some fx650_port_info)) w2 = (r, w3)" "ub w3 = None" "env w3 = modem_env"
    "\<not> was_read (trace w3)"
    using 2(2-) by (cases "uart_tios fx650_port_info") (auto simp: uart_configure_def modem_env_def was_read_def)
  obtain resp w4 where 4: "run_state (send_at_command 7 1 p (''AT'' @ crlf) (cleared 64) AT_TIMEOUT_MS) w3 = (Some (FX650_OK, resp), w4)"
    "ub w4 = None" "env w4 = modem_env" "was_read (trace w4)"
    using modem_first_answer [OF 3(2) 2(2) 3(3,4)] by blast
  obtain w5 where 5: "run_state check_network_connection w4 = (0, w5)" "ub w5 = None" "env w5 = modem_env" "was_read (trace w5)"
    using 4(2-) by (simp add: check_network_connection_def modem_env_def)
  obtain e w6 where 6: "run_state (get_smi_id 7 1 p []) w5 = (Some e, w6)" "ub w6 = None" "env w6 = modem_env"
    using 5(2-) 2(2) by (simp add: get_smi_id_def and_then_def send_at_command_def serial_write_def modem_env_def)
  show ?thesis
    using 1(1) 2(1,2) 3(1) 4(1) 5(1) 6 unfolding w_def [symmetric]
    by (cases e) (simp add: fx650_init_def and_then_def value_of_def case_prod_beta serial_close_def)
qed

theorem start_establishes_service_witness:
  "\<exists>c. c = cloud_example\<lparr> svc := (svc cloud_example)\<lparr> wld := quiet_world\<lparr> env := modem_env \<rparr> \<rparr> \<rparr> \<and>
     cloud_set (svc (snd (run_state (clound_comm_init 7 1) c))) \<and>
     server_ip (client (svc (snd (run_state (clound_comm_init 7 1) c)))) = ''10.0.0.1''"
proof -
  let ?c = "cloud_example\<lparr> svc := (svc cloud_example)\<lparr> wld := quiet_world\<lparr> env := modem_env \<rparr> \<rparr> \<rparr>"
  obtain x where x: "value_of (fx650_init 7 1) (wld (svc ?c)) = Some (FX650_OK, x)" using modem_starts by (auto simp: value_of_def)
  have "cleared_context ?c" by (simp add: cleared_context_def cloud_example_def app_example_def queue_example_def init_queue_def MAX_SEGMENTS_def)
  from start_establishes_service [OF x this first_free_ok refl] show ?thesis
    by (simp add: cloud_example_def info_example_def)
qed


subsection \<open>A unit that cannot be reached\<close>

lemma connect_tries_fail:
  assumes "ub w = None" "session c = Some s" "\<And>tr. rc (env w tr (Ssh (SshConnect s (host c) (username c)))) \<noteq> 0"
  shows "\<exists>es. run_state (connect_tries k c) w = (c, w\<lparr> trace := trace w @ es \<rparr>) \<and>
     map fst es = concat (replicate k [Ssh (SshConnect s (host c) (username c)), Sys Sleep])"
  using assms(1,3)
proof (induction k arbitrary: w)
  case 0
  show ?case by (intro exI [of _ "[]"]) simp
next
  case (Suc k)
  let ?r = "Ssh (SshConnect s (host c) (username c))"
  let ?e1 = "(?r, env w (trace w) ?r)"
  let ?e2 = "(Sys Sleep, env w (trace w @ [?e1]) (Sys Sleep))"
  let ?w = "w\<lparr> trace := trace w @ [?e1, ?e2] \<rparr>"
  have step: "run_state (connect_tries (Suc k) c) w = run_state (connect_tries k c) ?w"
    using Suc.prems assms(2) by (simp add: SSHClient_Connect_def)
  from Suc.IH [of ?w] Suc.prems obtain es where
    "run_state (connect_tries k c) ?w = (c, ?w\<lparr> trace := trace ?w @ es \<rparr>)"
    "map fst es = concat (replicate k [?r, Sys Sleep])" by auto
  with step show ?case by (intro exI [of _ "?e1 # ?e2 # es"]) simp
qed

lemma execute_asks_channel:
  assumes "session c = Some s"
  shows "\<exists>K. SSHClient_Execute c cmd o' cap = State_Monad.bind (call_handle (Ssh (ChanNew s))) K \<and> (\<forall>y. wf_io (K y))"
  unfolding SSHClient_Execute_def assms option.case
  by (rule exI, rule conjI, rule refl, intro allI wf_io_intros)

text \<open>
  When every attempt to connect to the unit fails, \<open>init_updater_environment\<close> makes exactly ten, each
  followed by a pause, and does not give up there: it asks for a channel on the session that is not
  connected. Only because the library refuses the channel does it return -1 and \<open>main\<close> exit.
\<close>

theorem unreachable_unit:
  assumes "ub w = None" "rc (env w (trace w) (Ssh SshNew)) \<noteq> 0" "s = length (trace w)"
    and "\<And>tr. rc (env w tr (Ssh (SshConnect s SERVER_IP SERVER_USERNAME))) \<noteq> 0"
  shows "(\<exists>rest. map fst (events (init_updater_environment b) w) =
       Ssh SshNew # concat (replicate 10 [Ssh (SshConnect s SERVER_IP SERVER_USERNAME), Sys Sleep]) @ Ssh (ChanNew s) # rest) \<and>
     ((\<forall>tr. rc (env w tr (Ssh (ChanNew s))) = 0) \<longrightarrow> value_of (init_updater_environment b) w = (-1, b))"
proof -
  define c where "c = \<lparr> host = SERVER_IP, username = SERVER_USERNAME, password = SERVER_PASSWORD, session = Some s, sftp = None \<rparr>"
  define w1 where "w1 = w\<lparr> trace := trace w @ [(Ssh SshNew, env w (trace w) (Ssh SshNew))] \<rparr>"
  have 1: "run_state (SSHClient_Init SERVER_IP SERVER_USERNAME SERVER_PASSWORD) w = (c, w1)"
    using assms(1-3) by (simp add: SSHClient_Init_def c_def w1_def)
  obtain es where 2: "run_state (connect_tries 10 c) w1 = (c, w1\<lparr> trace := trace w1 @ es \<rparr>)"
    "map fst es = concat (replicate 10 [Ssh (SshConnect s SERVER_IP SERVER_USERNAME), Sys Sleep])"
    using connect_tries_fail [of w1 c s 10] assms(1,4) by (auto simp: c_def w1_def)
  define w2 where "w2 = w1\<lparr> trace := trace w1 @ es \<rparr>"
  have w2: "ub w2 = None" "env w2 = env w" using assms(1) by (simp_all add: w2_def w1_def)
  define M where "M = (\<lambda>p :: int \<times> string. case p of (r, resp) \<Rightarrow>
     if r \<noteq> 0 then do { SSHClient_Destroy c; ret (-1, b) }
     else if contains resp ''updater.sh''
     then do {
       (r, resp) \<leftarrow> SSHClient_Execute c ''bash /home/cktt/script/updater.sh dev_info'' [] 128;
       if r \<noteq> 0 then do { SSHClient_Destroy c; ret (-1, b) }
       else do { b \<leftarrow> scan_dev_info resp; SSHClient_Destroy c; ret (0, b) } }
     else send_updater c resp b)"
  let ?x = "SSHClient_Execute c ''find /home/cktt/script/ -name \"updater.sh\"'' [] 128"
  have run: "run_state (init_updater_environment b) w = run_state (State_Monad.bind ?x M) w2"
    using 1 2(1) by (simp add: init_updater_environment_def w2_def M_def)
  have wfM: "wf_io (M p)" for p unfolding M_def by (intro wf_io_intros)
  have wfx: "wf_io ?x" by (intro wf_io_intros)
  have "\<exists>rest. map fst (events ?x w2) = Ssh (ChanNew s) # rest"
  proof -
    have "session c = Some s" by (simp add: c_def)
    from execute_asks_channel [OF this] obtain K where
      K: "?x = State_Monad.bind (call_handle (Ssh (ChanNew s))) K" "\<And>y. wf_io (K y)" by blast
    have "events (call_handle (Ssh (ChanNew s))) w2 = [(Ssh (ChanNew s), env w2 (trace w2) (Ssh (ChanNew s)))]"
      using w2(1) by (simp add: events_def)
    then show ?thesis
      unfolding K(1) events_bind [where f = K, OF wf_call_handle K(2)] by simp
  qed
  then obtain rest where "map fst (events ?x w2) = Ssh (ChanNew s) # rest" ..
  then have "map fst (events (State_Monad.bind ?x M) w2) =
      Ssh (ChanNew s) # rest @ map fst (events (M (value_of ?x w2)) (snd (run_state ?x w2)))"
    unfolding events_bind [where f = M, OF wfx wfM] by simp
  moreover have "trace (snd (run_state (State_Monad.bind ?x M) w2)) = trace w2 @ events (State_Monad.bind ?x M) w2"
    by (intro wf_trace wf_bind wfx wfM)
  ultimately have "\<exists>rest. map fst (events (init_updater_environment b) w) =
       Ssh SshNew # concat (replicate 10 [Ssh (SshConnect s SERVER_IP SERVER_USERNAME), Sys Sleep]) @ Ssh (ChanNew s) # rest"
    unfolding events_def [of "init_updater_environment b"] run using 2(2) by (simp add: w2_def w1_def)
  moreover have "value_of (init_updater_environment b) w = (-1, b)" if "\<forall>tr. rc (env w tr (Ssh (ChanNew s))) = 0"
  proof -
    have "fst (run_state ?x w2) = (-1, [])" using w2 that by (simp add: SSHClient_Execute_def c_def)
    then show ?thesis unfolding value_of_def run by (simp add: M_def case_prod_beta SSHClient_Destroy_def)
  qed
  ultimately show ?thesis by blast
qed

definition unreachable_world :: world where
  "unreachable_world = quiet_world\<lparr> env := \<lambda>_ r. \<lparr> rc = (case r of Ssh SshNew \<Rightarrow> 1 | Ssh (SshConnect _ _ _) \<Rightarrow> -1 | _ \<Rightarrow> 0),
     vl = 0, out = [] \<rparr> \<rparr>"

theorem unreachable_unit_witness:
  "value_of (init_updater_environment cleared_info) unreachable_world = (-1, cleared_info)"
  using unreachable_unit [of unreachable_world 0 cleared_info] by (simp add: unreachable_world_def)

end
