(* ===== verification/Steps.thy ===== *)
theory Steps
  imports Main
begin

text \<open>
  Systems of threads as partial step functions: an action is an atomic step of one thread, \<open>None\<close> when it cannot
  happen. A run is any sequence of actions each of which can happen, so a property of all runs is a property of all
  interleavings. The locale \<open>stepwise\<close> is the contract between a system and a property of its states that every step
  keeps; the systems of the two services interpret it, once for each such property.
\<close>

fun run_acts :: "('a \<Rightarrow> 's \<Rightarrow> 's option) \<Rightarrow> 'a list \<Rightarrow> 's \<Rightarrow> 's option" where
  "run_acts step [] s = Some s"
| "run_acts step (a # as) s = (case step a s of None \<Rightarrow> None | Some s' \<Rightarrow> run_acts step as s')"

lemma run_acts_append:
  "run_acts step (as @ bs) s = Option.bind (run_acts step as s) (run_acts step bs)"
  by (induction as arbitrary: s) (auto split: option.split)

lemma run_acts_trans:
  "run_acts step as s = Some t \<Longrightarrow> run_acts step bs t = Some u \<Longrightarrow> run_acts step (as @ bs) s = Some u"
  by (simp add: run_acts_append)

locale stepwise =
  fixes step :: "'a \<Rightarrow> 's \<Rightarrow> 's option"
    and holds :: "'s \<Rightarrow> bool"
  assumes step_keeps: "holds s \<Longrightarrow> step a s = Some s' \<Longrightarrow> holds s'"
begin

lemma run_keeps: "run_acts step as s = Some s' \<Longrightarrow> holds s \<Longrightarrow> holds s'"
  by (induction as arbitrary: s) (auto split: option.splits dest: step_keeps)

text \<open>What holds at some point of a run still holds at its end.\<close>

lemma once_held: "run_acts step as s = Some s' \<Longrightarrow> run_acts step bs s' = Some s'' \<Longrightarrow> holds s' \<Longrightarrow> holds s''"
  using run_keeps by blast

text \<open>A state in which it does not hold is not reached from one in which it holds.\<close>

lemma not_reached: "holds s \<Longrightarrow> \<not> holds s' \<Longrightarrow> run_acts step as s \<noteq> Some s'"
  using run_keeps by blast

end

text \<open>A property with a rank that some step lowers until the goal: the run that gets there.\<close>

locale progress = stepwise +
  fixes rank :: "'s \<Rightarrow> nat"
    and next_act :: "'s \<Rightarrow> 'a"
  assumes step_lowers: "holds s \<Longrightarrow> 0 < rank s \<Longrightarrow> \<exists>s'. step (next_act s) s = Some s' \<and> rank s' < rank s"
begin

lemma reaches: "holds s \<Longrightarrow> \<exists>as s'. run_acts step as s = Some s' \<and> holds s' \<and> rank s' = 0"
proof (induction "rank s" arbitrary: s rule: less_induct)
  case less
  show ?case
  proof (cases "rank s = 0")
    case True
    then have "run_acts step [] s = Some s" by simp
    with True less.prems show ?thesis by blast
  next
    case False
    then obtain s1 where 1: "step (next_act s) s = Some s1" "rank s1 < rank s" using step_lowers [OF less.prems] by auto
    then obtain as s' where "run_acts step as s1 = Some s'" "holds s'" "rank s' = 0"
      using less.hyps [of s1] step_keeps [OF less.prems] by blast
    with 1 have "run_acts step (next_act s # as) s = Some s'" by simp
    with \<open>holds s'\<close> \<open>rank s' = 0\<close> show ?thesis by blast
  qed
qed

end

end
