(* ===== verification/Lifecycle.thy ===== *)
theory Lifecycle
  imports Startup Steps
begin

text \<open>
  The start and the stop of \<open>services/fkz9_comm.c\<close> statement by statement, interleaved with its two threads
  and with the callbacks of the MQTT library. Theory \<open>Fkz9Comm\<close> has each handler as one step and the start
  and the stop without interleaving; here \<open>main\<close>, the timer thread and the event thread each have a position,
  and any of them, or the library, or the cloud service, can go next.
\<close>

subsection \<open>The threads\<close>

text \<open>The positions: in \<open>fkz9_comm_init\<close> and \<open>fkz9_comm_uninit\<close>, and in the two thread functions.\<close>

datatype main_pos = Creating | Client | Timer_created | Event_created | Running_set | Up
  | Flagged | Broken | Timer_joined | Event_joined | Down

datatype timer_pos = T_none | T_started | T_waiting | T_loop | T_ended

datatype event_pos = E_none | E_check | E_turn | E_ended

text \<open>
  \<open>loop_break\<close>: the timer thread's event loop has been told to stop. \<open>event_base_loopbreak\<close> ends the loop that
  is running; without a base or before the loop it has no effect, since a loop clears the request when it begins.
\<close>

record Fkz9Life =
  app :: App
  m_pos :: main_pos
  t_pos :: timer_pos
  e_pos :: event_pos
  loop_break :: bool
  e_buf :: bytes

text \<open>The client is created, its callback registered, the connection started, the queue made.\<close>

definition create_client :: "Fkz9Life \<Rightarrow> Fkz9Life" where
  "create_client l =
     (case run_state (io (mqtt_client_create fkz9_config)) (app l) of
        (None, a) \<Rightarrow> l\<lparr> app := a, m_pos := Up \<rparr>
      | (Some c, a) \<Rightarrow>
          (case run_state (io (mqtt_connect (Some (mqtt_register_cb c)))) a of
             (_, a) \<Rightarrow> l\<lparr> app := a\<lparr> mqtt_client := mqtt_register_cb c, fkz9_queue := snd (init_queue (fkz9_queue a) 1400) \<rparr>,
                         m_pos := Client \<rparr>))"

text \<open>\<open>fkz9_comm_init\<close> returns: the configuration, its local variable, is gone.\<close>

definition init_returns :: "App \<Rightarrow> App" where
  "init_returns a = a\<lparr> is_init := False, fkz9_set := True, mqtt_client := (mqtt_client a)\<lparr> config := None \<rparr> \<rparr>"

text \<open>After both joins.\<close>

definition free_service :: "unit app" where
  "free_service = do {
     c \<leftarrow> gets mqtt_client;
     io (mqtt_client_destroy (Some c));
     q \<leftarrow> gets fkz9_queue;
     (case clean_queue q of Inl e \<Rightarrow> fault_app e | Inr (_, q') \<Rightarrow> modify (\<lambda>s. s\<lparr> fkz9_queue := q' \<rparr>));
     modify (\<lambda>s. s\<lparr> fkz9_set := False \<rparr>) }"

text \<open>The next statement of \<open>main\<close>, \<open>None\<close> while a join waits or when there is none.\<close>

definition main_step :: "Fkz9Life \<Rightarrow> Fkz9Life option" where
  "main_step l = (case m_pos l of
     Creating \<Rightarrow> Some (create_client l)
   | Client \<Rightarrow> Some (l\<lparr> t_pos := T_started, m_pos := Timer_created \<rparr>)
   | Timer_created \<Rightarrow> Some (l\<lparr> e_pos := E_check, m_pos := Event_created \<rparr>)
   | Event_created \<Rightarrow> Some (l\<lparr> app := (app l)\<lparr> is_running := True \<rparr>, m_pos := Running_set \<rparr>)
   | Running_set \<Rightarrow> Some (l\<lparr> app := init_returns (app l), m_pos := Up \<rparr>)
   | Up \<Rightarrow> Some (if is_running (app l)
                then l\<lparr> app := (app l)\<lparr> is_running := False, is_init := False \<rparr>, m_pos := Flagged \<rparr> else l\<lparr> m_pos := Down \<rparr>)
   | Flagged \<Rightarrow> Some (l\<lparr> loop_break := (t_pos l = T_loop), m_pos := Broken \<rparr>)
   | Broken \<Rightarrow> if t_pos l = T_ended then Some (l\<lparr> m_pos := Timer_joined \<rparr>) else None
   | Timer_joined \<Rightarrow> if e_pos l = E_ended then Some (l\<lparr> m_pos := Event_joined \<rparr>) else None
   | Event_joined \<Rightarrow> Some (l\<lparr> app := snd (run_state free_service (app l)), m_pos := Down \<rparr>)
   | Down \<Rightarrow> None)"

text \<open>
  \<open>fkz9_timer_task_entry\<close>: the base and the timer, the wait for the link, the subscriptions, then the event
  loop with a heartbeat whenever the timer fires.
\<close>

definition timer_step :: "Fkz9Life \<Rightarrow> Fkz9Life option" where
  "timer_step l = (case t_pos l of
     T_started \<Rightarrow> Some (l\<lparr> t_pos := T_waiting \<rparr>)
   | T_waiting \<Rightarrow> Some (if is_conn (mqtt_client (app l))
                then l\<lparr> app := snd (run_state fkz9_subscribe (app l)), t_pos := T_loop \<rparr> else l)
   | T_loop \<Rightarrow> Some (if loop_break l then l\<lparr> t_pos := T_ended \<rparr>
                else l\<lparr> app := snd (run_state heartbeat_req_task_cb (app l)) \<rparr>)
   | _ \<Rightarrow> None)"

text \<open>\<open>fkz9_event_task_entry\<close>: the test of its loop, and a turn.\<close>

definition event_step :: "Fkz9Life \<Rightarrow> Fkz9Life option" where
  "event_step l = (case e_pos l of
     E_check \<Rightarrow> Some (l\<lparr> e_pos := if is_running (app l) then E_turn else E_ended \<rparr>)
   | E_turn \<Rightarrow> (case run_state (fkz9_event_turn (e_buf l)) (app l) of
                (buf, a) \<Rightarrow> Some (l\<lparr> app := a, e_buf := buf, e_pos := E_check \<rparr>))
   | _ \<Rightarrow> None)"

text \<open>
  The library: its callbacks, while the client exists; a message goes on to \<open>on_message_cb\<close>, which may never return.
  \<open>others\<close> and \<open>fuel\<close> are those of \<open>on_message_cb\<close>.
\<close>

definition has_client :: "Fkz9Life \<Rightarrow> bool" where
  "has_client l \<longleftrightarrow> m_pos l \<noteq> Creating \<and> m_pos l \<noteq> Down \<and> (m_pos l = Up \<longrightarrow> is_running (app l))"

definition library_step :: "(TcpClient \<Rightarrow> TcpClient) \<Rightarrow> nat \<Rightarrow> mqtt_event \<Rightarrow> Fkz9Life \<Rightarrow> Fkz9Life option" where
  "library_step others fuel e l =
     (if \<not> has_client l then None
      else let a = (app l)\<lparr> mqtt_client := mqtt_event_cb (mqtt_client (app l)) e \<rparr>
           in case e of
                Arrived t p \<Rightarrow> (if on_message (mqtt_client a) then map_option (\<lambda>a. l\<lparr> app := a \<rparr>) (on_message_cb others fuel p a)
                               else Some (l\<lparr> app := a \<rparr>))
              | _ \<Rightarrow> Some (l\<lparr> app := a \<rparr>))"

datatype fkz9_act = Main | Timer | Event | Library mqtt_event | CloudService

text \<open>Nothing runs after a fault. \<open>cs\<close> is what the cloud service does when it is its turn.\<close>

fun life_do :: "(App \<Rightarrow> App) \<Rightarrow> (TcpClient \<Rightarrow> TcpClient) \<Rightarrow> nat \<Rightarrow> fkz9_act \<Rightarrow> Fkz9Life \<Rightarrow> Fkz9Life option" where
  "life_do cs others fuel act l = (if app_ub (app l) \<noteq> None then None else case act of
     Main \<Rightarrow> main_step l | Timer \<Rightarrow> timer_step l | Event \<Rightarrow> event_step l
   | Library e \<Rightarrow> library_step others fuel e l | CloudService \<Rightarrow> Some (l\<lparr> app := cs (app l) \<rparr>))"

declare life_do.simps [simp del]

abbreviation life_run :: "(App \<Rightarrow> App) \<Rightarrow> (TcpClient \<Rightarrow> TcpClient) \<Rightarrow> nat \<Rightarrow> fkz9_act list \<Rightarrow> Fkz9Life \<Rightarrow> Fkz9Life option" where
  "life_run cs others fuel \<equiv> run_acts (life_do cs others fuel)"

subsection \<open>What the handlers leave alone\<close>

text \<open>The flags of the service that only its start and its stop set.\<close>

definition same_flags :: "App \<Rightarrow> App \<Rightarrow> bool" where
  "same_flags a a' \<longleftrightarrow> is_running a' = is_running a \<and> fkz9_set a' = fkz9_set a"

lemma same_flags_client_send: "same_flags a (snd (run_state (client_send data len) a))"
  by (auto simp: same_flags_def client_send_def split: sum.split)

lemma same_flags_gp_send: "same_flags a (snd (run_state (gp_cloud_send data len) a))"
  using same_flags_client_send [of a data len] by (simp add: gp_cloud_send_def same_flags_def case_prod_beta)

lemma same_flags_heartbeat: "same_flags a (snd (run_state heartbeat_req_task_cb a))"
  by (simp add: same_flags_def heartbeat_req_task_cb_def publish_def Let_def case_prod_beta)

lemma same_flags_subscribe: "same_flags a (snd (run_state fkz9_subscribe a))"
  by (simp add: same_flags_def fkz9_subscribe_def)

lemma same_flags_turn: "same_flags a (snd (run_state (fkz9_event_turn buf) a))"
  using same_flags_gp_send
  by (auto simp: same_flags_def fkz9_event_turn_def fkz9_heartbeat_resp_entry_def fkz9_msg_fw_to_cloud_entry_def func_dev_info_resp_def
      Let_def case_prod_beta split: sum.split bool.split)

lemma same_flags_message: "on_message_cb others fuel p a = Some a' \<Longrightarrow> same_flags a a'"
  by (auto simp: same_flags_def on_message_cb_def split: sum.splits msg_route.splits if_splits option.splits)

lemma same_flags_library:
  assumes "library_step others fuel e l = Some l'"
  shows "same_flags (app l) (app l')" "m_pos l' = m_pos l" "t_pos l' = t_pos l" "e_pos l' = e_pos l" "loop_break l' = loop_break l"
  using assms same_flags_message
  by (auto simp: library_step_def same_flags_def Let_def split: if_splits mqtt_event.splits)

subsection \<open>The invariant\<close>

definition before_threads :: "Fkz9Life \<Rightarrow> bool" where
  "before_threads l \<longleftrightarrow> m_pos l = Creating \<and> t_pos l = T_none \<and> e_pos l = E_none \<and> \<not> loop_break l \<and>
     \<not> is_running (app l) \<and> \<not> fkz9_set (app l) \<and> app_ub (app l) = None"

text \<open>
  The positions that go together, with the request to the loop, the running flag and the context pointer. A start
  whose client could not be created leaves no threads.
\<close>

definition timer_alive :: "timer_pos \<Rightarrow> bool" where
  "timer_alive t \<longleftrightarrow> t \<in> {T_started, T_waiting, T_loop}"

definition pos_ok :: "main_pos \<Rightarrow> timer_pos \<Rightarrow> event_pos \<Rightarrow> bool \<Rightarrow> bool \<Rightarrow> bool \<Rightarrow> bool" where
  "pos_ok m t e b r f \<longleftrightarrow> (case m of
     Creating \<Rightarrow> t = T_none \<and> e = E_none \<and> \<not> b \<and> \<not> r \<and> \<not> f
   | Client \<Rightarrow> t = T_none \<and> e = E_none \<and> \<not> b \<and> \<not> r \<and> \<not> f
   | Timer_created \<Rightarrow> timer_alive t \<and> e = E_none \<and> \<not> b \<and> \<not> r \<and> \<not> f
   | Event_created \<Rightarrow> timer_alive t \<and> e \<noteq> E_none \<and> \<not> b \<and> \<not> r \<and> \<not> f
   | Running_set \<Rightarrow> timer_alive t \<and> e \<noteq> E_none \<and> \<not> b \<and> r \<and> \<not> f
   | Up \<Rightarrow> \<not> b \<and> (if r then timer_alive t \<and> e \<noteq> E_none \<and> f else t = T_none \<and> e = E_none \<and> \<not> f)
   | Flagged \<Rightarrow> timer_alive t \<and> e \<noteq> E_none \<and> \<not> b \<and> \<not> r \<and> f
   | Broken \<Rightarrow> (if b then t = T_loop \<or> t = T_ended else timer_alive t) \<and> e \<noteq> E_none \<and> \<not> r \<and> f
   | Timer_joined \<Rightarrow> t = T_ended \<and> e \<noteq> E_none \<and> \<not> r \<and> f
   | Event_joined \<Rightarrow> t = T_ended \<and> e = E_ended \<and> \<not> r \<and> f
   | Down \<Rightarrow> (t = T_none \<and> e = E_none \<or> t = T_ended \<and> e = E_ended) \<and> \<not> r \<and> \<not> f)"

definition life_inv :: "Fkz9Life \<Rightarrow> bool" where
  "life_inv l \<longleftrightarrow> pos_ok (m_pos l) (t_pos l) (e_pos l) (loop_break l) (is_running (app l)) (fkz9_set (app l))"

lemma life_inv_start: "before_threads l \<Longrightarrow> life_inv l"
  by (simp add: before_threads_def life_inv_def pos_ok_def)

lemma created_flags:
  "same_flags (app l) (app (create_client l))" "t_pos (create_client l) = t_pos l" "e_pos (create_client l) = e_pos l"
  "loop_break (create_client l) = loop_break l" "m_pos (create_client l) \<in> {Client, Up}"
  by (simp_all add: create_client_def same_flags_def split: option.split)

lemma freed_flags:
  "is_running (snd (run_state free_service a)) = is_running a" "\<not> fkz9_set (snd (run_state free_service a))"
  by (simp_all add: free_service_def split: sum.split)

lemma life_inv_main: "life_inv l \<Longrightarrow> pred_option life_inv (main_step l)"
  using created_flags [of l] freed_flags [of "app l"]
  by (cases "m_pos l")
    (auto simp: life_inv_def main_step_def pos_ok_def same_flags_def init_returns_def timer_alive_def)

lemma life_inv_timer: "life_inv l \<Longrightarrow> pred_option life_inv (timer_step l)"
  using same_flags_heartbeat [of "app l"] same_flags_subscribe [of "app l"]
  by (cases "t_pos l"; cases "m_pos l") (simp_all add: life_inv_def timer_step_def pos_ok_def same_flags_def timer_alive_def split: if_splits)

lemma life_inv_event: "life_inv l \<Longrightarrow> pred_option life_inv (event_step l)"
  using same_flags_turn [of "app l" "e_buf l"]
  by (cases "e_pos l"; cases "m_pos l")
    (simp_all add: life_inv_def event_step_def pos_ok_def same_flags_def case_prod_beta split: if_splits)

lemma life_inv_do:
  assumes "life_inv l" "life_do cs others fuel act l = Some l'" "\<And>a. same_flags a (cs a)"
  shows "life_inv l'"
  using assms life_inv_main [OF assms(1)] life_inv_timer [OF assms(1)] life_inv_event [OF assms(1)]
    same_flags_library [of others fuel _ l l']
  by (cases act) (auto simp: life_do.simps life_inv_def same_flags_def split: if_splits)

interpretation fkz9: stepwise "life_do cs others fuel" "\<lambda>l. life_inv l \<and> (\<forall>a. same_flags a (cs a))" for cs others fuel
  by unfold_locales (blast dest: life_inv_do)

lemma life_inv_run:
  "life_run cs others fuel as l = Some l' \<Longrightarrow> life_inv l \<Longrightarrow> (\<And>a. same_flags a (cs a)) \<Longrightarrow> life_inv l'"
  using fkz9.run_keeps by blast

text \<open>
  C12: Whatever the order in which the start, the stop, the two threads, the library and the cloud service run: the
  context pointer is set only between the return of the start and the end of the stop; when the stop returns
  there is no thread left, the pointer is cleared and the service is not running; and the stop frees the queue
  only after both threads have ended.
\<close>

theorem stop_leaves_no_thread:
  assumes "before_threads l" "life_run cs others fuel as l = Some l'" "\<forall>a. same_flags a (cs a)"
  shows "(fkz9_set (app l') \<longrightarrow> m_pos l' \<in> {Up, Flagged, Broken, Timer_joined, Event_joined}) \<and>
     (m_pos l' = Down \<longrightarrow> \<not> timer_alive (t_pos l') \<and> e_pos l' \<in> {E_none, E_ended} \<and> \<not> fkz9_set (app l') \<and> \<not> is_running (app l')) \<and>
     (m_pos l' = Event_joined \<longrightarrow> t_pos l' = T_ended \<and> e_pos l' = E_ended)"
  using life_inv_run [OF assms(2) life_inv_start [OF assms(1)]] assms(3)
  by (cases "m_pos l'") (auto simp: life_inv_def pos_ok_def timer_alive_def)

subsection \<open>Races of the start\<close>

lemma enqueue_grows:
  assumes "queue_inv sz q" "enqueue q data len = Inr (r, q')" "len \<le> length data"
  shows "queue_inv sz q' \<and> (\<exists>ms. contents q' = contents q @ ms)"
  using assms count_less [of q] enqueue_full [OF assms(1), of data len] enqueue_overflow [OF assms(1) _ assms(3)]
    enqueue_accept [OF assms(1) _ assms(3)]
  by (cases "count q = 63"; cases "sz < len") (auto simp: MAX_SEGMENTS_def)

lemma message_grows:
  assumes "on_message_cb others fuel p a = Some a'" "queue_inv 1400 (fkz9_queue a)"
  shows "queue_inv 1400 (fkz9_queue a') \<and> (\<exists>ms. contents (fkz9_queue a') = contents (fkz9_queue a) @ ms)"
  using assms enqueue_grows [OF assms(2), of p "length p"]
  by (auto simp: on_message_cb_def split: sum.splits msg_route.splits if_splits option.splits)

text \<open>Once the event thread has ended nothing takes a message out of the queue, and no thread comes back.\<close>

definition deaf :: "bytes list \<Rightarrow> Fkz9Life \<Rightarrow> bool" where
  "deaf ms l \<longleftrightarrow> e_pos l = E_ended \<and> m_pos l \<in> {Up, Flagged, Broken, Timer_joined, Event_joined, Down} \<and>
     (m_pos l \<noteq> Down \<longrightarrow> queue_inv 1400 (fkz9_queue (app l)) \<and> (\<exists>ns. contents (fkz9_queue (app l)) = ms @ ns))"

lemma deaf_do:
  assumes "deaf ms l" "life_do cs others fuel act l = Some l'" "\<And>a. fkz9_queue (cs a) = fkz9_queue a"
  shows "deaf ms l'"
proof (cases act)
  case Main
  then show ?thesis using assms(1,2)
    by (cases "m_pos l") (auto simp: deaf_def life_do.simps main_step_def split: if_splits)
next
  case Timer
  then show ?thesis using assms(1,2)
    by (cases "t_pos l") (auto simp: deaf_def life_do.simps timer_step_def fkz9_subscribe_def heartbeat_req_task_cb_def publish_def
        Let_def case_prod_beta split: if_splits)
next
  case (Library e)
  then show ?thesis using assms(1,2) message_grows [of others fuel _ "(app l)\<lparr> mqtt_client := mqtt_event_cb (mqtt_client (app l)) e \<rparr>"]
    by (auto simp: deaf_def life_do.simps library_step_def Let_def split: if_splits mqtt_event.splits) fastforce+
qed (use assms in \<open>auto simp: deaf_def life_do.simps event_step_def split: if_splits\<close>)

interpretation deaf: stepwise "life_do cs others fuel" "\<lambda>l. deaf ms l \<and> (\<forall>a. fkz9_queue (cs a) = fkz9_queue a)" for cs others fuel ms
  by unfold_locales (blast dest: deaf_do)

lemma deaf_run:
  "life_run cs others fuel as l = Some l' \<Longrightarrow> deaf ms l \<Longrightarrow> (\<And>a. fkz9_queue (cs a) = fkz9_queue a) \<Longrightarrow> deaf ms l'"
  using deaf.run_keeps by blast

text \<open>The start alone, and with the threads' first steps in between.\<close>

lemma create_client_up:
  assumes "app_ub (app l) = None"
  shows "app_ub (app (create_client l)) = None"
    and "m_pos (create_client l) = Client \<Longrightarrow> app (create_client l)\<lparr> is_running := True, is_init := False, fkz9_set := True,
       mqtt_client := (mqtt_client (app (create_client l)))\<lparr> config := None \<rparr> \<rparr> = snd (run_state fkz9_comm_init (app l))"
    and "m_pos (create_client l) = Up \<Longrightarrow> app (create_client l) = snd (run_state fkz9_comm_init (app l))"
    and "m_pos (create_client l) = Client \<Longrightarrow> config (mqtt_client (app (create_client l))) = Some fkz9_config \<and>
       on_message (mqtt_client (app (create_client l))) \<and> fkz9_queue (app (create_client l)) = snd (init_queue (fkz9_queue (app l)) 1400)"
  using assms
  by (auto simp: create_client_def fkz9_comm_init_def app_ub_def mqtt_client_create_def mqtt_connect_def mqtt_register_cb_def
      mqtt_client_destroy_def value_of_def Let_def split: option.split if_splits)

lemmas life_steps = life_do.simps main_step_def timer_step_def event_step_def library_step_def

lemma start_event_lost:
  assumes "before_threads l" "m_pos (create_client l) = Client" "length (sizes (fkz9_queue (app l))) = MAX_SEGMENTS"
  shows "\<exists>l1. life_run cs others fuel [Main, Main, Main, Event, Main, Main] l = Some l1 \<and>
     app l1 = snd (run_state fkz9_comm_init (app l)) \<and> m_pos l1 = Up \<and> is_running (app l1) \<and> fkz9_set (app l1) \<and> deaf [] l1"
proof -
  let ?l = "create_client l"
  have ub: "app_ub (app l) = None" and pos: "m_pos l = Creating" "e_pos l = E_none" and nr: "\<not> is_running (app l)"
    using assms(1) by (simp_all add: before_threads_def)
  note c = create_client_up [OF ub]
  have nr': "\<not> is_running (app ?l)" using created_flags(1) [of l] nr by (simp add: same_flags_def)
  have q: "queue_inv 1400 (fkz9_queue (app ?l))" using c(4) assms(2) init_queue_inv(1) [OF assms(3), of 1400] by simp
  show ?thesis
    using c(1) c(2) [OF assms(2), symmetric] nr' q assms(2) ub pos
    by (simp add: life_steps init_returns_def deaf_def app_ub_def)
qed

lemma early_message:
  assumes "before_threads l" "m_pos (create_client l) = Client" "route_message m = Inr Queued"
  shows "\<exists>l1. life_run cs others fuel [Main, Main, Timer, Library ConnectOk, Timer, Library (Arrived t m)] l = Some l1 \<and>
     app_ub (app l1) = Some NullDeref"
proof -
  let ?l = "create_client l"
  have ub: "app_ub (app l) = None" and pos: "m_pos l = Creating" and ns: "\<not> fkz9_set (app l)"
    using assms(1) by (simp_all add: before_threads_def)
  note c = create_client_up [OF ub]
  have ns': "\<not> fkz9_set (app ?l)" using created_flags(1) [of l] ns by (simp add: same_flags_def)
  show ?thesis
    using c(1) c(4) [OF assms(2)] ns' assms(2,3) ub pos
    by (simp add: life_steps has_client_def mqtt_event_cb_eq fkz9_subscribe_def mqtt_subscribe_def on_message_cb_def app_ub_def
        value_of_def)
qed

text \<open>
  C14: Two races of the start. The event thread is created before the running flag is set: it can look at the flag
  in between and end, and then, with the service started and the pointer set like after any start, no message
  is taken out of the queue again until the stop. And the timer thread can subscribe before the context pointer is
  set: the first frame that arrives then is a null dereference.
\<close>

theorem start_races:
  assumes "before_threads l" "m_pos (create_client l) = Client" "length (sizes (fkz9_queue (app l))) = MAX_SEGMENTS"
    and "\<forall>a. fkz9_queue (cs a) = fkz9_queue a" "route_message m = Inr Queued"
  shows "(\<exists>as l1. life_run cs others fuel as l = Some l1 \<and> app l1 = snd (run_state fkz9_comm_init (app l)) \<and> m_pos l1 = Up \<and>
       is_running (app l1) \<and> fkz9_set (app l1) \<and>
       (\<forall>bs l2. life_run cs others fuel bs l1 = Some l2 \<longrightarrow> m_pos l2 \<noteq> Down \<longrightarrow>
          (\<exists>ns. contents (fkz9_queue (app l2)) = contents (fkz9_queue (app l1)) @ ns))) \<and>
     (\<exists>as l1. life_run cs others fuel as l = Some l1 \<and> app_ub (app l1) = Some NullDeref)"
proof -
  obtain l1 where 1: "life_run cs others fuel [Main, Main, Main, Event, Main, Main] l = Some l1"
    "app l1 = snd (run_state fkz9_comm_init (app l))" "m_pos l1 = Up" "is_running (app l1)" "fkz9_set (app l1)" "deaf [] l1"
    using start_event_lost [OF assms(1-3)] by blast
  then have "deaf (contents (fkz9_queue (app l1))) l1" by (simp add: deaf_def)
  with deaf_run have "\<exists>ns. contents (fkz9_queue (app l2)) = contents (fkz9_queue (app l1)) @ ns"
    if "life_run cs others fuel bs l1 = Some l2" "m_pos l2 \<noteq> Down" for bs l2
    using that assms(4) by (metis deaf_def)
  with 1 early_message [OF assms(1,2,5)] show ?thesis by blast
qed

subsection \<open>Start and stop without interleaving\<close>


subsection \<open>The stop\<close>

lemma stuck_do:
  assumes "m_pos l = Broken" "\<not> loop_break l" "t_pos l \<noteq> T_ended" "life_do cs others fuel act l = Some l'"
  shows "m_pos l' = Broken \<and> \<not> loop_break l' \<and> t_pos l' \<noteq> T_ended"
  using assms same_flags_library(2,3,5) [of others fuel _ l l']
  by (cases act) (auto simp: life_do.simps main_step_def timer_step_def event_step_def
      split: if_splits timer_pos.splits event_pos.splits prod.splits)

interpretation stuck: stepwise "life_do cs others fuel" "\<lambda>l. m_pos l = Broken \<and> \<not> loop_break l \<and> t_pos l \<noteq> T_ended" for cs others fuel
  by unfold_locales (blast dest: stuck_do)

lemma stuck_run:
  "life_run cs others fuel as l = Some l' \<Longrightarrow> m_pos l = Broken \<Longrightarrow> \<not> loop_break l \<Longrightarrow> t_pos l \<noteq> T_ended \<Longrightarrow> m_pos l' = Broken"
  using stuck.run_keeps by blast

text \<open>
  C13: The stop returns or hangs, and which is decided when it asks the timer thread's event loop to end. If the loop runs, the
  stop can return once the event thread is at its test. If the timer thread is still waiting for the link, as when
  the unit is switched off, the request is lost: in no continuation whatever, even if the link comes up
  later, does the stop get past the join of the timer thread.
\<close>

theorem stop_hangs_without_link:
  assumes "before_threads l0" "life_run cs others fuel bs l0 = Some l" "\<forall>a. same_flags a (cs a)" "m_pos l = Flagged"
    and "app_ub (app l) = None"
  shows "if t_pos l = T_loop
     then e_pos l \<noteq> E_turn \<longrightarrow> (\<exists>as l'. life_run cs others fuel as l = Some l' \<and> m_pos l' = Down)
     else \<forall>as l'. life_run cs others fuel (Main # as) l = Some l' \<longrightarrow> m_pos l' = Broken"
proof (cases "t_pos l = T_loop")
  case True
  from life_inv_run [OF assms(2) life_inv_start [OF assms(1)]] assms(3,4)
  have *: "\<not> is_running (app l)" "e_pos l \<noteq> E_none" by (auto simp: life_inv_def pos_ok_def)
  have "\<exists>l'. life_run cs others fuel ([Main, Timer, Main] @ (if e_pos l = E_ended then [] else [Event]) @ [Main, Main]) l = Some l' \<and>
      m_pos l' = Down" if "e_pos l \<noteq> E_turn"
    using that True * assms(4,5) by (cases "e_pos l") (simp_all add: life_steps app_ub_def)
  then show ?thesis unfolding if_P [OF True] by blast
next
  case False
  from life_inv_run [OF assms(2) life_inv_start [OF assms(1)]] assms(3,4)
  have "timer_alive (t_pos l)" by (auto simp: life_inv_def pos_ok_def)
  with False have t: "t_pos l \<noteq> T_ended" by (auto simp: timer_alive_def)
  have "m_pos l' = Broken" if "life_run cs others fuel (Main # as) l = Some l'" for as l'
  proof -
    have "life_run cs others fuel as (l\<lparr> loop_break := False, m_pos := Broken \<rparr>) = Some l'"
      using that False assms(4,5) by (simp add: life_do.simps main_step_def)
    from stuck_run [OF this] t show ?thesis by simp
  qed
  with False show ?thesis by simp
qed

subsection \<open>Example runs\<close>

definition life_example :: Fkz9Life where
  "life_example = \<lparr> app = app_example\<lparr> is_running := False, fkz9_set := False \<rparr>, m_pos = Creating, t_pos = T_none, e_pos = E_none,
     loop_break = False, e_buf = replicate 1500 0 \<rparr>"

lemma life_example_before: "before_threads life_example"
  by (simp add: before_threads_def life_example_def app_ub_def)

lemma life_example_client: "m_pos (create_client life_example) = Client"
  by (simp add: life_example_def create_client_def value_of_def mqtt_client_create_def Let_def)

text \<open>A start during which the link comes up, and one that is stopped before.\<close>

lemma start_linked:
  assumes "before_threads l" "m_pos (create_client l) = Client"
  shows "\<exists>l'. life_run cs others fuel [Main, Main, Timer, Library ConnectOk, Timer, Main, Main, Main] l = Some l' \<and>
     m_pos l' = Up \<and> is_running (app l') \<and> t_pos l' = T_loop \<and> e_pos l' = E_check \<and> app_ub (app l') = None"
proof -
  have ub: "app_ub (app l) = None" and pos: "m_pos l = Creating" using assms(1) by (simp_all add: before_threads_def)
  note c = create_client_up [OF ub]
  show ?thesis
    using c(1) c(4) [OF assms(2)] assms(2) ub pos
    by (simp add: life_steps has_client_def mqtt_event_cb_eq fkz9_subscribe_def mqtt_subscribe_def init_returns_def app_ub_def value_of_def)
qed

lemma start_flagged:
  assumes "before_threads l" "m_pos (create_client l) = Client"
  shows "\<exists>l'. life_run cs others fuel [Main, Main, Main, Main, Main, Main] l = Some l' \<and> m_pos l' = Flagged \<and> t_pos l' = T_started \<and>
     app_ub (app l') = None"
  using create_client_up(1) [of l] assms
  by (simp add: before_threads_def life_steps init_returns_def app_ub_def)

lemma life_example_stopped: "\<exists>as l. life_run id id 0 as life_example = Some l \<and> m_pos l = Down"
proof -
  obtain l where l: "life_run id id 0 [Main, Main, Timer, Library ConnectOk, Timer, Main, Main, Main] life_example = Some l"
    "m_pos l = Up" "is_running (app l)" "t_pos l = T_loop" "e_pos l = E_check" "app_ub (app l) = None"
    using start_linked [OF life_example_before life_example_client] by blast
  obtain l' where "life_run id id 0 [Main, Main, Timer, Main, Event, Main, Main] l = Some l'" "m_pos l' = Down"
    using l(2-) by (auto simp: life_steps app_ub_def)
  with run_acts_trans [OF l(1)] show ?thesis by blast
qed

lemma same_flags_id: "\<forall>a. same_flags a (id a)"
  by (simp add: same_flags_def)

theorem stop_leaves_no_thread_witness:
  "\<exists>as l. life_run id id 0 as life_example = Some l \<and> m_pos l = Down \<and> \<not> timer_alive (t_pos l) \<and> \<not> fkz9_set (app l)"
proof -
  obtain as l where l: "life_run id id 0 as life_example = Some l" "m_pos l = Down" using life_example_stopped by blast
  from stop_leaves_no_thread [OF life_example_before l(1) same_flags_id] l(2)
  have "\<not> timer_alive (t_pos l)" "\<not> fkz9_set (app l)" by simp_all
  with l show ?thesis by blast
qed

theorem start_races_witness:
  "\<exists>as l. life_run id id 0 as life_example = Some l \<and> app_ub (app l) = Some NullDeref"
proof -
  have "route_message (frame 0x20 [1]) = Inr Queued"
    by (simp add: route_message_def sizeof_MsgFramHdr_def MQTT_MSG_SIGN_HEARTBEAT_REQ_def)
  from start_races [OF life_example_before life_example_client _ _ this, of id id 0] show ?thesis
    by (simp add: life_example_def app_example_def init_queue_def cleared_queue_def MAX_SEGMENTS_def)
qed


theorem stop_hangs_without_link_witness:
  "\<exists>l. life_run id id 0 [Main, Main, Main, Main, Main, Main] life_example = Some l \<and>
     (\<forall>as l'. life_run id id 0 (Main # as) l = Some l' \<longrightarrow> m_pos l' = Broken)"
proof -
  obtain l where l: "life_run id id 0 [Main, Main, Main, Main, Main, Main] life_example = Some l" "m_pos l = Flagged"
    "t_pos l = T_started" "app_ub (app l) = None"
    using start_flagged [OF life_example_before life_example_client] by blast
  from stop_hangs_without_link [OF life_example_before l(1) same_flags_id l(2,4)] l(1,3) show ?thesis by auto
qed

end
