(* ===== verification/CloudLife.thy ===== *)
theory CloudLife
  imports Startup Steps
begin

text \<open>
  The start and the stop of \<open>services/cloud_comm.c\<close> statement by statement, interleaved with the three threads of the
  service, with the threads and callbacks of the TCP client (theory \<open>TcpClient\<close>), and with the service of the unit, which
  sends its frames through the client. Theory \<open>Startup\<close> has the start and the stop as one step each.
\<close>

subsection \<open>The threads\<close>

text \<open>
  The positions: in \<open>clound_comm_init\<close> and \<open>clound_comm_uninit\<close>, named after the statement done last, and in the
  three thread functions.
\<close>

datatype cloud_pos = Begun | Prepared | Connecting | Running | Timer_made | Event_made | Download_made | Serving
  | Stopping | Loop_broken | Timer_gone | Event_gone | Download_gone | Disconnecting | Conn_gone | Closed | Released | Stopped

datatype loop_pos = L_none | L_started | L_armed | L_loop | L_ended

datatype task_pos = K_none | K_check | K_work | K_ended

text \<open>
  What the libraries and uninitialised memory contribute: the allocator, the printer and the parser of JSON, the conversions
  out of range, and the fuels of the modem and of the receiver.
\<close>

record Lib =
  lib_malloc :: "FwDownInfo heap \<Rightarrow> addr option"
  lib_timers :: "timer heap \<Rightarrow> addr option"
  lib_print :: "json \<Rightarrow> string"
  lib_parse :: "string \<Rightarrow> json option"
  lib_unit :: UnitInfo
  lib_task :: FwDownInfo
  lib_oor64 :: "flo \<Rightarrow> u64"
  lib_oor32 :: "flo \<Rightarrow> u32"
  lib_buf :: string
  lib_fuel :: nat
  lib_rf :: nat
  lib_n :: nat

text \<open>
  \<open>net\<close> is the client with its threads; the structure itself is the one the context points to. \<open>conn_runs\<close>,
  \<open>send_runs\<close>: the thread that was last stored in \<open>conn_thread\<close>, \<open>send_thread\<close> has not ended. \<open>client_freed\<close>: the
  structure has been released.
\<close>

record CloudLife =
  cloud :: Cloud
  net :: tcp_sys
  p_main :: cloud_pos
  p_timer :: loop_pos
  p_event :: task_pos
  p_down :: task_pos
  broken :: bool
  conn_runs :: bool
  send_runs :: bool
  client_freed :: bool
  task_locals :: "nat \<times> bytes"
  nav :: SGData

definition cloud_ub :: "CloudLife \<Rightarrow> fault option" where
  "cloud_ub l = (case app_ub (svc (cloud l)) of None \<Rightarrow> tcp_fault (net l) | Some e \<Rightarrow> Some e)"

definition on_cloud :: "'a cloud \<Rightarrow> CloudLife \<Rightarrow> CloudLife" where
  "on_cloud m l = l\<lparr> cloud := snd (run_state m (cloud l)) \<rparr>"

definition faulted :: "fault \<Rightarrow> CloudLife \<Rightarrow> CloudLife" where
  "faulted e = on_cloud (svc_do (fault_app e))"

subsection \<open>The client's threads\<close>

definition net_of :: "CloudLife \<Rightarrow> tcp_sys" where
  "net_of l = (net l)\<lparr> cl := client (svc (cloud l)) \<rparr>"

definition put_net :: "tcp_sys \<Rightarrow> CloudLife \<Rightarrow> CloudLife" where
  "put_net s l = l\<lparr> net := s, cloud := (cloud l)\<lparr> svc := (svc (cloud l))\<lparr> client := cl s \<rparr> \<rparr> \<rparr>"

text \<open>
  Whether the thread created last still runs, when the threads \<open>xs\<close> become \<open>ys\<close> by a step of thread \<open>i\<close>: a new one is put
  at the end, one that ends is taken out, so while it runs it is the last.
\<close>

definition last_runs :: "bool \<Rightarrow> nat \<Rightarrow> 'a list \<Rightarrow> 'b list \<Rightarrow> bool" where
  "last_runs b i xs ys =
     (if length xs < length ys then True else if length ys < length xs \<and> Suc i = length xs then False else b)"

fun thread_index :: "tcp_act \<Rightarrow> nat" where
  "thread_index (ConnSetup i r) = i"
| "thread_index (ConnFree i) = i"
| "thread_index (SenderStep i) = i"
| "thread_index _ = 0"

definition net_do :: "tcp_act \<Rightarrow> CloudLife \<Rightarrow> CloudLife" where
  "net_do a l = (let s = net_of l; s' = tcp_do a s; i = thread_index a in
     (put_net s' l)\<lparr> conn_runs := last_runs (conn_runs l) i (conns s) (conns s'),
       send_runs := last_runs (send_runs l) i (senders s) (senders s') \<rparr>)"

text \<open>What the client's threads and libevent do; the rest is done by \<open>main\<close> and the handlers.\<close>

fun by_network :: "tcp_act \<Rightarrow> bool" where
  "by_network Connect = False"
| "by_network Disconnect = False"
| "by_network (Send m) = False"
| "by_network _ = True"

text \<open>A step of theirs reads or writes the structure, except the end of an event loop. Received bytes go to \<open>proc_message_cb\<close>.\<close>

definition net_step :: "tcp_act \<Rightarrow> CloudLife \<Rightarrow> CloudLife option" where
  "net_step a l =
     (if \<not> by_network a \<or> \<not> tcp_enabled a (net_of l) then None
      else if client_freed l \<and> (\<forall>i. a \<noteq> ConnLoopEnds i) then Some (faulted UseAfterFree l)
      else (case a of
              Recv bs \<Rightarrow> (case tcp_client_read_cb (client (svc (cloud l))) bs of
                           None \<Rightarrow> Some (net_do a l)
                         | Some m \<Rightarrow> Some (on_cloud (svc_do (proc_message_cb m)) (net_do a l)))
            | _ \<Rightarrow> Some (net_do a l)))"

subsection \<open>The start and the stop\<close>

text \<open>
  The part of the start before the connection: the modem, the receiver, the queue, the lists, the client. \<open>None\<close>: out of
  fuel; \<open>Some False\<close>: the modem failed and the start returns.
\<close>

definition prepare :: "nat \<Rightarrow> nat \<Rightarrow> bool option cloud" where
  "prepare rf n = do {
     r \<leftarrow> svc_do (io (fx650_init rf n));
     case r of None \<Rightarrow> State_Monad.return None
     | Some (code, x) \<Rightarrow> do {
         upd_c (\<lambda>c. c\<lparr> fx := x, svc := (svc c)\<lparr> sim_id := x_sim_id x \<rparr> \<rparr>);
         if code \<noteq> FX650_OK then State_Monad.return (Some False)
         else do {
           (_, a) \<leftarrow> svc_do (io laneTo_init);
           upd_c (\<lambda>c. c\<lparr> lane := a,
             ev_list := (fst (ev_list c), snd (List_Init_Thread (snd (ev_list c)))),
             down_list := (fst (down_list c), snd (List_Init_Thread (snd (down_list c)))),
             svc := (start_client (svc c))\<lparr> cloud_set := cloud_set (svc c) \<rparr> \<rparr>);
           State_Monad.return (Some True) } } }"

text \<open>What is left after the client has been released.\<close>

definition release :: "nat \<Rightarrow> nat \<Rightarrow> bool cloud" where
  "release rf n = do {
     a \<leftarrow> get_c lane;
     a \<leftarrow> svc_do (io (laneTo_uninit a));
     upd_c (\<lambda>c. c\<lparr> lane := a \<rparr>);
     x \<leftarrow> get_c fx;
     r \<leftarrow> svc_do (io (fx650_uninit rf n x));
     case r of None \<Rightarrow> State_Monad.return False
     | Some x \<Rightarrow> do {
         upd_c (\<lambda>c. c\<lparr> fx := x \<rparr>);
         svc_do (do {
           q \<leftarrow> gets event_queue;
           (case clean_queue q of Inl e \<Rightarrow> fault_app e | Inr (_, q') \<Rightarrow> modify (\<lambda>s. s\<lparr> event_queue := q' \<rparr>));
           modify (\<lambda>s. s\<lparr> cloud_set := False \<rparr>) });
         State_Monad.return True } }"

definition destroy_client :: "unit app" where
  "destroy_client = do {
     c \<leftarrow> gets client;
     (case tcp_client_destroy (Some c) of Inl e \<Rightarrow> fault_app e | Inr _ \<Rightarrow> pure ()) }"

definition goto :: "cloud_pos \<Rightarrow> CloudLife \<Rightarrow> CloudLife" where
  "goto p l = l\<lparr> p_main := p \<rparr>"

definition set_running :: "bool \<Rightarrow> CloudLife \<Rightarrow> CloudLife" where
  "set_running b = on_cloud (upd_c (\<lambda>c. c\<lparr> c_running := b \<rparr>))"

definition started_thread :: "cloud_thread \<Rightarrow> CloudLife \<Rightarrow> CloudLife" where
  "started_thread t = on_cloud (upd_c (\<lambda>c. c\<lparr> threads := threads c @ [t] \<rparr>))"

text \<open>
  The next statement of \<open>main\<close>, \<open>None\<close> while a join waits or when there is none. A disconnect does nothing unless the
  client is connected; it joins the last connection thread, then the last sender.
\<close>

definition cloud_main_step :: "Lib \<Rightarrow> CloudLife \<Rightarrow> CloudLife option" where
  "cloud_main_step lib l = (case p_main l of
     Begun \<Rightarrow> (case run_state (prepare (lib_rf lib) (lib_n lib)) (cloud l) of
                 (None, c) \<Rightarrow> None
               | (Some ok, c) \<Rightarrow> Some (l\<lparr> cloud := c, p_main := if ok then Prepared else Serving \<rparr>))
   | Prepared \<Rightarrow> Some (goto Connecting (started_thread TcpConnectThread (net_do Connect l)))
   | Connecting \<Rightarrow> Some (goto Running (set_running True l))
   | Running \<Rightarrow> Some (goto Timer_made (started_thread TimerThread (l\<lparr> p_timer := L_started \<rparr>)))
   | Timer_made \<Rightarrow> Some (goto Event_made (started_thread EventThread (l\<lparr> p_event := K_check \<rparr>)))
   | Event_made \<Rightarrow> Some (goto Download_made (started_thread DownloadThread (l\<lparr> p_down := K_check \<rparr>)))
   | Download_made \<Rightarrow> Some (goto Serving (on_cloud (svc_do (modify (\<lambda>s. s\<lparr> cloud_set := True \<rparr>))) l))
   | Serving \<Rightarrow> Some (if c_running (cloud l) then goto Stopping (set_running False l) else goto Stopped l)
   | Stopping \<Rightarrow> Some (goto Loop_broken (l\<lparr> broken := (p_timer l = L_loop) \<rparr>))
   | Loop_broken \<Rightarrow> if p_timer l = L_ended then Some (goto Timer_gone l) else None
   | Timer_gone \<Rightarrow> if p_event l = K_ended then Some (goto Event_gone l) else None
   | Event_gone \<Rightarrow> if p_down l = K_ended
       then Some (goto Download_gone (on_cloud (upd_c (\<lambda>c. c\<lparr> threads := filter (\<lambda>t. t = TcpConnectThread) (threads c) \<rparr>)) l)) else None
   | Download_gone \<Rightarrow> Some (if is_connected (client (svc (cloud l))) then goto Disconnecting (net_do Disconnect l) else goto Closed l)
   | Disconnecting \<Rightarrow> if \<not> conn_runs l then Some (goto Conn_gone l) else None
   | Conn_gone \<Rightarrow> if \<not> send_runs l then Some (goto Closed l) else None
   | Closed \<Rightarrow> Some (goto Released ((on_cloud (svc_do destroy_client) l)\<lparr> client_freed := True \<rparr>))
   | Released \<Rightarrow> (case run_state (release (lib_rf lib) (lib_n lib)) (cloud l) of
                 (False, c) \<Rightarrow> None | (True, c) \<Rightarrow> Some (l\<lparr> cloud := c, p_main := Stopped \<rparr>))
   | Stopped \<Rightarrow> None)"

subsection \<open>The threads of the service\<close>

text \<open>
  The callback of a timer. The first is due a second after the loop began; none is taken to fire before the start
  has returned, when the global pointer is set.
\<close>

definition tick :: "Lib \<Rightarrow> timer_task \<Rightarrow> CloudLife \<Rightarrow> CloudLife option" where
  "tick lib task l = (let c = cloud l in case task of
     NavTimer \<Rightarrow> (case run_state (nav_data_msg_task_cb (lib_oor64 lib) (lib_oor32 lib) (lib_fuel lib) (lane c) (lib_buf lib) (nav l)
                         (run_led c)) (svc c) of
                    (None, a) \<Rightarrow> None
                  | (Some (sg, led), a) \<Rightarrow> Some (l\<lparr> cloud := c\<lparr> svc := a, run_led := led \<rparr>, nav := sg \<rparr>))
   | RebootTimer \<Rightarrow> (case run_state (io (reboot_upgrade_task_cb (lib_malloc lib) (lib_task lib) (base_info (svc c)) (down_list c))) (svc c) of
                    (s, a) \<Rightarrow> Some (l\<lparr> cloud := c\<lparr> svc := a, down_list := s \<rparr> \<rparr>))
   | OtaTimer \<Rightarrow> (case run_state (io (ota_heartbeat_task_cb (lib_malloc lib) (lib_print lib) (lib_parse lib) (lib_unit lib)
                         (base_info (svc c)) (down_list c))) (svc c) of
                    ((b, s), a) \<Rightarrow> Some (l\<lparr> cloud := c\<lparr> svc := a\<lparr> base_info := b \<rparr>, down_list := s \<rparr> \<rparr>))
   | HeartbeatTimer \<Rightarrow> None)"

text \<open>\<open>cloud_timer_task_entry\<close>: the base with its timers, the event loop, and after it the release of the timers.\<close>

definition timer_thread_step :: "Lib \<Rightarrow> timer_task \<Rightarrow> CloudLife \<Rightarrow> CloudLife option" where
  "timer_thread_step lib task l = (case p_timer l of
     L_started \<Rightarrow> (case cloud_timers (lib_timers lib) (ev_list (cloud l)) of
                     Inl e \<Rightarrow> Some (faulted e l)
                   | Inr s \<Rightarrow> Some (on_cloud (upd_c (\<lambda>c. c\<lparr> ev_list := s \<rparr>)) (l\<lparr> p_timer := L_armed \<rparr>)))
   | L_armed \<Rightarrow> Some (l\<lparr> p_timer := L_loop \<rparr>)
   | L_loop \<Rightarrow> (if broken l
               then (case cloud_timers_end (ev_list (cloud l)) of
                       None \<Rightarrow> None
                     | Some (Inl e) \<Rightarrow> Some (faulted e l)
                     | Some (Inr (_, s)) \<Rightarrow> Some (on_cloud (upd_c (\<lambda>c. c\<lparr> ev_list := s \<rparr>)) (l\<lparr> p_timer := L_ended \<rparr>)))
               else if cloud_set (svc (cloud l)) then tick lib task l else None)
   | _ \<Rightarrow> None)"

text \<open>\<open>cloud_event_task_entry\<close> and \<open>download_upgrade_entry\<close>: the test of the loop, and a turn.\<close>

definition event_thread_step :: "CloudLife \<Rightarrow> CloudLife option" where
  "event_thread_step l = (case p_event l of
     K_check \<Rightarrow> Some (l\<lparr> p_event := if c_running (cloud l) then K_work else K_ended \<rparr>)
   | K_work \<Rightarrow> (case run_state (cloud_event_turn message_processing (task_locals l)) (svc (cloud l)) of
                 (loc, a) \<Rightarrow> Some (l\<lparr> cloud := (cloud l)\<lparr> svc := a \<rparr>, task_locals := loc, p_event := K_check \<rparr>))
   | _ \<Rightarrow> None)"

definition download_thread_step :: "Lib \<Rightarrow> CloudLife \<Rightarrow> CloudLife option" where
  "download_thread_step lib l = (case p_down l of
     K_check \<Rightarrow> Some (l\<lparr> p_down := if c_running (cloud l) then K_work else K_ended \<rparr>)
   | K_work \<Rightarrow> (case run_state (io (do_downlaod_firmware (lib_print lib) (base_info (svc (cloud l))) (down_list (cloud l)))) (svc (cloud l)) of
                 (None, a) \<Rightarrow> None
               | (Some s, a) \<Rightarrow> Some (l\<lparr> cloud := (cloud l)\<lparr> svc := a, down_list := s \<rparr>, p_down := K_check \<rparr>))
   | _ \<Rightarrow> None)"

text \<open>The service of the unit forwards a frame: the global pointer, then the client it points to.\<close>

definition forward_step :: "bytes \<Rightarrow> CloudLife \<Rightarrow> CloudLife option" where
  "forward_step m l =
     (if cloud_set (svc (cloud l)) \<and> client_freed l then Some (faulted UseAfterFree l)
      else Some (on_cloud (svc_do (gp_cloud_send m (length m))) l))"

datatype cloud_act = CMain | CTimer timer_task | CEvent | CDownload | CNet tcp_act | CForward bytes

text \<open>Nothing runs after a fault.\<close>

definition cloud_do :: "Lib \<Rightarrow> cloud_act \<Rightarrow> CloudLife \<Rightarrow> CloudLife option" where
  "cloud_do lib act l = (if cloud_ub l \<noteq> None then None else case act of
     CMain \<Rightarrow> cloud_main_step lib l
   | CTimer task \<Rightarrow> timer_thread_step lib task l
   | CEvent \<Rightarrow> event_thread_step l
   | CDownload \<Rightarrow> download_thread_step lib l
   | CNet a \<Rightarrow> net_step a l
   | CForward m \<Rightarrow> forward_step m l)"

abbreviation cloud_run :: "Lib \<Rightarrow> cloud_act list \<Rightarrow> CloudLife \<Rightarrow> CloudLife option" where
  "cloud_run lib \<equiv> run_acts (cloud_do lib)"

subsection \<open>What the handlers leave alone\<close>

text \<open>An operation leaves the part \<open>f\<close> of the shared state as it is.\<close>

definition keeps :: "(App \<Rightarrow> 'b) \<Rightarrow> 'a app \<Rightarrow> bool" where
  "keeps f m \<longleftrightarrow> (\<forall>s. f (snd (run_state m s)) = f s)"

named_theorems keeps_intros "operations that leave a part of the state alone"

lemma keepsD: "keeps f m \<Longrightarrow> f (snd (run_state m s)) = f s"
  by (simp add: keeps_def)

lemma keeps_pure [keeps_intros]: "keeps f (pure x)"
  by (simp add: keeps_def)

lemma keeps_gets [keeps_intros]: "keeps f (gets g)"
  by (simp add: keeps_def gets_def)

lemma keeps_bind [keeps_intros]: "keeps f m \<Longrightarrow> (\<And>x. keeps f (g x)) \<Longrightarrow> keeps f (State_Monad.bind m g)"
  by (simp add: keeps_def snd_bind case_prod_beta)

lemma keeps_modify [keeps_intros]: "(\<And>s. f (g s) = f s) \<Longrightarrow> keeps f (modify g)"
  by (simp add: keeps_def modify_def)

lemma keeps_io [keeps_intros]: "(\<And>s w. f (s\<lparr> wld := w \<rparr>) = f s) \<Longrightarrow> keeps f (io m)"
  by (simp add: keeps_def io_def case_prod_beta)

lemma keeps_fault [keeps_intros]: "(\<And>s w. f (s\<lparr> wld := w \<rparr>) = f s) \<Longrightarrow> keeps f (fault_app e)"
  unfolding fault_app_def by (rule keeps_io)

lemma keeps_if [keeps_intros]: "(b \<Longrightarrow> keeps f m) \<Longrightarrow> (\<not> b \<Longrightarrow> keeps f n) \<Longrightarrow> keeps f (if b then m else n)"
  by simp

lemma keeps_case_prod [keeps_intros]: "(\<And>x y. keeps f (g x y)) \<Longrightarrow> keeps f (case p of (x, y) \<Rightarrow> g x y)"
  by (cases p) simp

lemma keeps_case_option [keeps_intros]:
  "keeps f m \<Longrightarrow> (\<And>x. keeps f (g x)) \<Longrightarrow> keeps f (case p of None \<Rightarrow> m | Some x \<Rightarrow> g x)"
  by (cases p) simp_all

lemma keeps_case_sum [keeps_intros]:
  "(\<And>e. keeps f (g e)) \<Longrightarrow> (\<And>x. keeps f (h x)) \<Longrightarrow> keeps f (case p of Inl e \<Rightarrow> g e | Inr x \<Rightarrow> h x)"
  by (cases p) simp_all

lemma keeps_case_bool [keeps_intros]: "keeps f m \<Longrightarrow> keeps f n \<Longrightarrow> keeps f (case b of True \<Rightarrow> m | False \<Rightarrow> n)"
  by (cases b) simp_all

text \<open>The global pointer, and of the client all but its queue.\<close>

definition link :: "App \<Rightarrow> bool \<times> TcpClient" where
  "link s = (cloud_set s, (client s)\<lparr> tx_queue := cleared_queue \<rparr>)"

lemma link_simps [simp]:
  "link (s\<lparr> wld := w \<rparr>) = link s" "link (s\<lparr> event_queue := q \<rparr>) = link s" "link (s\<lparr> base_info := b \<rparr>) = link s"
  "link (s\<lparr> fkz9_queue := q \<rparr>) = link s" "link (s\<lparr> is_init := i \<rparr>) = link s"
  by (simp_all add: link_def)

lemma linkD: "link s = link s' \<Longrightarrow> cloud_set s = cloud_set s' \<and> is_connected (client s) = is_connected (client s') \<and>
    base (client s) = base (client s') \<and> bev (client s) = bev (client s')"
  by (auto simp: link_def dest: arg_cong [where f = is_connected] arg_cong [where f = base] arg_cong [where f = bev])

lemma keeps_client_send [keeps_intros]: "keeps link (client_send data len)"
  by (auto simp: keeps_def client_send_def link_def tcp_client_send_def split: sum.split)

lemma keeps_gp_send [keeps_intros]: "keeps link (gp_cloud_send data len)"
  unfolding gp_cloud_send_def by (intro keeps_intros) simp_all

lemma keeps_publish [keeps_intros]: "keeps link (publish topic payload len)"
  unfolding publish_def by (intro keeps_intros) simp_all

lemma keeps_proc_message [keeps_intros]: "keeps link (proc_message_cb m)"
  unfolding proc_message_cb_def by (intro keeps_intros) simp_all

lemma keeps_commands:
  "keeps link (publish_frame part buf)" "keeps link (func_wave_file_req buf)" "keeps link func_wave_file_resp"
  unfolding publish_frame_def func_wave_file_req_def func_wave_file_resp_def Let_def by (intro keeps_intros; simp)+

lemma keeps_table:
  assumes "e \<in> set message_processing"
  shows "keeps link (handle_entry e buf)"
proof -
  have "keeps link (fst (snd e) buf)" "snd (snd e) = None \<or> snd (snd e) = Some func_wave_file_resp"
    using assms keeps_commands
    by (auto simp: message_processing_def fkz9_message_table_def cloud_to_can_entry_def cloud_to_conf_entry_def
        cloud_to_algorithms_entry_def)
  then show ?thesis unfolding handle_entry_def
  proof (elim disjE)
    assume k: "keeps link (fst (snd e) buf)" and "snd (snd e) = None"
    then show "keeps link (fst (snd e) buf \<bind> (\<lambda>r. case snd (snd e) of None \<Rightarrow> pure ()
        | Some cb \<Rightarrow> if r = 0 then cb \<bind> (\<lambda>_. pure ()) else pure ()))" by (auto intro: keeps_intros)
  next
    assume k: "keeps link (fst (snd e) buf)" and "snd (snd e) = Some func_wave_file_resp"
    then show "keeps link (fst (snd e) buf \<bind> (\<lambda>r. case snd (snd e) of None \<Rightarrow> pure ()
        | Some cb \<Rightarrow> if r = 0 then cb \<bind> (\<lambda>_. pure ()) else pure ()))" by (auto intro!: keeps_bind keeps_if keeps_pure keeps_commands)
  qed
qed

lemma keeps_event_turn: "keeps link (cloud_event_turn message_processing loc)"
  unfolding cloud_event_turn_def Let_def
  by (intro keeps_intros keeps_table) (auto simp: not_le)

lemma keeps_nav: "keeps link (nav_data_msg_task_cb oor64 oor32 fuel laneTo buf sg led)"
  unfolding nav_data_msg_task_cb_def Let_def by (intro keeps_intros) simp_all

lemma tick_keeps:
  assumes "tick lib task l = Some l'"
  shows "\<exists>c n. l' = l\<lparr> cloud := c, nav := n \<rparr> \<and> link (svc c) = link (svc (cloud l)) \<and> c_running c = c_running (cloud l) \<and>
     ev_list c = ev_list (cloud l)"
proof (cases task)
  case NavTimer
  then obtain sg led a where a: "run_state (nav_data_msg_task_cb (lib_oor64 lib) (lib_oor32 lib) (lib_fuel lib) (lane (cloud l))
      (lib_buf lib) (nav l) (run_led (cloud l))) (svc (cloud l)) = (Some (sg, led), a)"
    "l' = l\<lparr> cloud := (cloud l)\<lparr> svc := a, run_led := led \<rparr>, nav := sg \<rparr>"
    using assms by (auto simp: tick_def Let_def split: prod.splits option.splits)
  then have "link a = link (svc (cloud l))"
    using keepsD [OF keeps_nav [of "lib_oor64 lib" "lib_oor32 lib" "lib_fuel lib" "lane (cloud l)" "lib_buf lib" "nav l" "run_led (cloud l)"],
        of "svc (cloud l)"] by simp
  with a(2) show ?thesis by (intro exI [of _ "(cloud l)\<lparr> svc := a, run_led := led \<rparr>"] exI [of _ sg]) simp
next
  case RebootTimer
  with assms show ?thesis
    by (auto simp: tick_def Let_def io_def case_prod_beta intro!: exI [of _ "cloud l'"] exI [of _ "nav l"])
next
  case OtaTimer
  with assms show ?thesis
    by (auto simp: tick_def Let_def io_def case_prod_beta intro!: exI [of _ "cloud l'"] exI [of _ "nav l"])
qed (use assms in \<open>simp add: tick_def Let_def\<close>)

lemma on_cloud_simps [simp]:
  "cloud (on_cloud m l) = snd (run_state m (cloud l))" "net (on_cloud m l) = net l" "p_main (on_cloud m l) = p_main l"
  "p_timer (on_cloud m l) = p_timer l" "p_event (on_cloud m l) = p_event l" "p_down (on_cloud m l) = p_down l"
  "broken (on_cloud m l) = broken l" "client_freed (on_cloud m l) = client_freed l"
  "conn_runs (on_cloud m l) = conn_runs l" "send_runs (on_cloud m l) = send_runs l"
  by (simp_all add: on_cloud_def)

lemma svc_do_run [simp]:
  "svc (snd (run_state (svc_do m) c)) = snd (run_state m (svc c))" "c_running (snd (run_state (svc_do m) c)) = c_running c"
  "ev_list (snd (run_state (svc_do m) c)) = ev_list c"
  by (simp_all add: svc_do_def case_prod_beta)

lemma upd_c_run [simp]: "snd (run_state (upd_c f) c) = f c"
  by (simp add: upd_c_def)

text \<open>The positions of the three threads, the request to the loop, the flag, the global pointer, whether the client exists.\<close>

definition flags :: "CloudLife \<Rightarrow> bool \<times> bool \<times> bool \<times> bool" where
  "flags l = (broken l, c_running (cloud l), cloud_set (svc (cloud l)), client_freed l)"

definition loop_alive :: "loop_pos \<Rightarrow> bool" where
  "loop_alive t \<longleftrightarrow> t \<in> {L_started, L_armed, L_loop}"

definition task_alive :: "task_pos \<Rightarrow> bool" where
  "task_alive k \<longleftrightarrow> k \<in> {K_check, K_work}"

definition no_threads :: "CloudLife \<Rightarrow> bool" where
  "no_threads l \<longleftrightarrow> p_timer l = L_none \<and> p_event l = K_none \<and> p_down l = K_none"

definition all_ended :: "CloudLife \<Rightarrow> bool" where
  "all_ended l \<longleftrightarrow> p_timer l = L_ended \<and> p_event l = K_ended \<and> p_down l = K_ended"

definition cloud_inv :: "CloudLife \<Rightarrow> bool" where
  "cloud_inv l \<longleftrightarrow> (case p_main l of
     Begun \<Rightarrow> no_threads l \<and> flags l = (False, False, False, False)
   | Prepared \<Rightarrow> no_threads l \<and> flags l = (False, False, False, False)
   | Connecting \<Rightarrow> no_threads l \<and> flags l = (False, False, False, False)
   | Running \<Rightarrow> no_threads l \<and> flags l = (False, True, False, False)
   | Timer_made \<Rightarrow> loop_alive (p_timer l) \<and> p_event l = K_none \<and> p_down l = K_none \<and> flags l = (False, True, False, False)
   | Event_made \<Rightarrow> loop_alive (p_timer l) \<and> task_alive (p_event l) \<and> p_down l = K_none \<and> flags l = (False, True, False, False)
   | Download_made \<Rightarrow> loop_alive (p_timer l) \<and> task_alive (p_event l) \<and> task_alive (p_down l) \<and> flags l = (False, True, False, False)
   | Serving \<Rightarrow> loop_alive (p_timer l) \<and> task_alive (p_event l) \<and> task_alive (p_down l) \<and> flags l = (False, True, True, False) \<or>
                no_threads l \<and> flags l = (False, False, False, False)
   | Stopping \<Rightarrow> loop_alive (p_timer l) \<and> p_event l \<noteq> K_none \<and> p_down l \<noteq> K_none \<and> flags l = (False, False, True, False)
   | Loop_broken \<Rightarrow> (broken l \<longrightarrow> p_timer l \<in> {L_loop, L_ended}) \<and> (\<not> broken l \<longrightarrow> loop_alive (p_timer l)) \<and> p_event l \<noteq> K_none \<and> p_down l \<noteq> K_none \<and>
                flags l = (broken l, False, True, False)
   | Timer_gone \<Rightarrow> p_timer l = L_ended \<and> p_event l \<noteq> K_none \<and> p_down l \<noteq> K_none \<and> flags l = (broken l, False, True, False)
   | Event_gone \<Rightarrow> p_timer l = L_ended \<and> p_event l = K_ended \<and> p_down l \<noteq> K_none \<and> flags l = (broken l, False, True, False)
   | Download_gone \<Rightarrow> all_ended l \<and> flags l = (broken l, False, True, False)
   | Disconnecting \<Rightarrow> all_ended l \<and> flags l = (broken l, False, True, False)
   | Conn_gone \<Rightarrow> all_ended l \<and> flags l = (broken l, False, True, False)
   | Closed \<Rightarrow> all_ended l \<and> flags l = (broken l, False, True, False)
   | Released \<Rightarrow> all_ended l \<and> flags l = (broken l, False, True, True)
   | Stopped \<Rightarrow> all_ended l \<and> flags l = (broken l, False, False, True) \<or> no_threads l \<and> flags l = (False, False, False, False))"

lemmas cloud_inv_defs = cloud_inv_def flags_def loop_alive_def task_alive_def no_threads_def all_ended_def

text \<open>A step that changes no position and no flag.\<close>

definition same_pos :: "CloudLife \<Rightarrow> CloudLife \<Rightarrow> bool" where
  "same_pos l l' \<longleftrightarrow> p_main l' = p_main l \<and> p_timer l' = p_timer l \<and> p_event l' = p_event l \<and> p_down l' = p_down l \<and> flags l' = flags l"

lemma same_pos_inv: "same_pos l l' \<Longrightarrow> cloud_inv l \<Longrightarrow> cloud_inv l'"
  by (cases "p_main l") (auto simp: same_pos_def cloud_inv_defs)

lemma same_pos_svc: "keeps link m \<Longrightarrow> same_pos l (on_cloud (svc_do m) l)"
  using linkD [OF keepsD] by (force simp: same_pos_def flags_def)

lemma same_pos_fault: "same_pos l (faulted e l)"
  unfolding faulted_def by (intro same_pos_svc keeps_intros) simp

lemma same_pos_net: "same_pos l (net_do a l)"
  by (simp add: same_pos_def flags_def net_do_def put_net_def Let_def)

lemma same_pos_trans: "same_pos l l' \<Longrightarrow> same_pos l' l'' \<Longrightarrow> same_pos l l''"
  by (simp add: same_pos_def)

lemma net_step_pos: "net_step a l = Some l' \<Longrightarrow> same_pos l l'"
  using same_pos_fault same_pos_net same_pos_trans [OF same_pos_net same_pos_svc [OF keeps_proc_message]]
  by (auto simp: net_step_def split: if_splits tcp_act.splits option.splits)

lemma forward_step_pos: "forward_step m l = Some l' \<Longrightarrow> same_pos l l'"
  using same_pos_fault same_pos_svc [OF keeps_gp_send] by (auto simp: forward_step_def split: if_splits)

lemma tick_pos: "tick lib task l = Some l' \<Longrightarrow> same_pos l l'"
  by (drule tick_keeps) (auto simp: same_pos_def flags_def dest: linkD)

lemma prepare_flags:
  assumes "run_state (prepare rf n) c = (Some ok, c')"
  shows "c_running c' = c_running c \<and> cloud_set (svc c') = cloud_set (svc c)"
  using assms
  by (auto simp: prepare_def svc_do_def io_def upd_c_def case_prod_beta start_client_def cloud_server_def split: option.splits if_splits)

lemma release_flags:
  assumes "run_state (release rf n) c = (True, c')"
  shows "c_running c' = c_running c \<and> \<not> cloud_set (svc c')"
  using assms
  by (auto simp: release_def svc_do_def io_def upd_c_def get_c_def case_prod_beta gets_def modify_def split: option.splits)

lemma cloud_inv_main:
  assumes "cloud_inv l" "cloud_main_step lib l = Some l'"
  shows "cloud_inv l'"
proof -
  have d: "keeps link destroy_client" unfolding destroy_client_def by (intro keeps_intros) simp_all
  note simps = cloud_main_step_def cloud_inv_defs goto_def set_running_def started_thread_def
  show ?thesis
  proof (cases "p_main l")
    case Begun
    with assms show ?thesis by (auto simp: simps dest: prepare_flags split: prod.splits option.splits if_splits)
  next
    case Prepared
    with assms same_pos_net [of l Connect] show ?thesis by (auto simp: simps same_pos_def)
  next
    case Download_gone
    with assms same_pos_net [of l Disconnect] show ?thesis by (auto simp: simps same_pos_def)
  next
    case Closed
    with assms same_pos_svc [OF d, of l] show ?thesis by (auto simp: simps same_pos_def)
  next
    case Released
    with assms show ?thesis by (auto simp: simps dest: release_flags split: prod.splits bool.splits)
  qed (use assms in \<open>auto simp: simps split: if_splits\<close>)
qed

lemma cloud_inv_timer:
  assumes "cloud_inv l" "timer_thread_step lib task l = Some l'"
  shows "cloud_inv l'"
proof -
  have fault: "cloud_inv (faulted e l)" for e by (rule same_pos_inv [OF same_pos_fault assms(1)])
  show ?thesis
  proof (cases "p_timer l")
    case L_started
    show ?thesis
    proof (cases "cloud_timers (lib_timers lib) (ev_list (cloud l))")
      case (Inl e)
      with L_started assms(2) have "l' = faulted e l" by (simp add: timer_thread_step_def)
      with fault show ?thesis by simp
    next
      case (Inr s)
      with L_started have "l' = on_cloud (upd_c (\<lambda>c. c\<lparr> ev_list := s \<rparr>)) (l\<lparr> p_timer := L_armed \<rparr>)"
        using assms(2) by (simp add: timer_thread_step_def)
      with L_started assms(1) show ?thesis by (cases "p_main l") (simp_all add: cloud_inv_defs)
    qed
  next
    case L_armed
    with assms show ?thesis by (cases "p_main l") (auto simp: timer_thread_step_def cloud_inv_defs)
  next
    case L_loop
    consider e where "l' = faulted e l" | s where "broken l" "l' = on_cloud (upd_c (\<lambda>c. c\<lparr> ev_list := s \<rparr>)) (l\<lparr> p_timer := L_ended \<rparr>)"
      | "tick lib task l = Some l'"
      using L_loop assms(2) by (auto simp: timer_thread_step_def split: if_splits option.splits sum.splits)
    then show ?thesis
    proof cases
      case 2
      with L_loop assms(1) show ?thesis by (cases "p_main l") (simp_all add: cloud_inv_defs)
    qed (use fault same_pos_inv [OF tick_pos assms(1)] in auto)
  qed (use assms in \<open>simp_all add: timer_thread_step_def\<close>)
qed

lemma cloud_inv_event:
  assumes "cloud_inv l" "event_thread_step l = Some l'"
  shows "cloud_inv l'"
proof (cases "p_event l")
  case K_work
  then have "l' = l\<lparr> cloud := (cloud l)\<lparr> svc := svc (cloud l') \<rparr>, task_locals := task_locals l', p_event := K_check \<rparr>"
    "cloud_set (svc (cloud l')) = cloud_set (svc (cloud l))"
    using assms(2) linkD [OF keepsD [OF keeps_event_turn [of "task_locals l"], of "svc (cloud l)"]]
    by (auto simp: event_thread_step_def split: prod.splits)
  then obtain a loc where "l' = l\<lparr> cloud := (cloud l)\<lparr> svc := a \<rparr>, task_locals := loc, p_event := K_check \<rparr>"
    "cloud_set a = cloud_set (svc (cloud l))" by blast
  with assms(1) K_work show ?thesis by (cases "p_main l") (simp_all add: cloud_inv_defs)
qed (use assms in \<open>cases "p_main l"; auto simp: event_thread_step_def cloud_inv_defs split: if_splits\<close>)+

lemma cloud_inv_download:
  assumes "cloud_inv l" "download_thread_step lib l = Some l'"
  shows "cloud_inv l'"
proof (cases "p_down l")
  case K_work
  then obtain a s where "l' = l\<lparr> cloud := (cloud l)\<lparr> svc := a, down_list := s \<rparr>, p_down := K_check \<rparr>"
    "cloud_set a = cloud_set (svc (cloud l))"
    using assms(2) by (auto simp: download_thread_step_def io_def case_prod_beta split: prod.splits option.splits)
  with assms(1) K_work show ?thesis by (cases "p_main l") (simp_all add: cloud_inv_defs)
qed (use assms in \<open>cases "p_main l"; auto simp: download_thread_step_def cloud_inv_defs split: if_splits\<close>)+

lemma cloud_inv_do:
  assumes "cloud_inv l" "cloud_do lib act l = Some l'"
  shows "cloud_inv l'"
proof -
  have d: "(case act of CMain \<Rightarrow> cloud_main_step lib l | CTimer task \<Rightarrow> timer_thread_step lib task l | CEvent \<Rightarrow> event_thread_step l
      | CDownload \<Rightarrow> download_thread_step lib l | CNet a \<Rightarrow> net_step a l | CForward m \<Rightarrow> forward_step m l) = Some l'"
    using assms(2) by (simp add: cloud_do_def split: if_splits)
  show ?thesis
  proof (cases act)
    case CMain with d assms(1) cloud_inv_main show ?thesis by simp
  next
    case CTimer with d assms(1) cloud_inv_timer show ?thesis by simp
  next
    case CEvent with d assms(1) cloud_inv_event show ?thesis by simp
  next
    case CDownload with d assms(1) cloud_inv_download show ?thesis by simp
  next
    case CNet with d assms(1) same_pos_inv [OF net_step_pos] show ?thesis by simp
  next
    case CForward with d assms(1) same_pos_inv [OF forward_step_pos] show ?thesis by simp
  qed
qed

interpretation cloud: stepwise "cloud_do lib" cloud_inv for lib
  by unfold_locales (rule cloud_inv_do)

definition cloud_before :: "CloudLife \<Rightarrow> bool" where
  "cloud_before l \<longleftrightarrow> p_main l = Begun \<and> no_threads l \<and> flags l = (False, False, False, False) \<and> cloud_ub l = None \<and>
     conns (net l) = [] \<and> senders (net l) = [] \<and> timers (net l) = [] \<and> \<not> conn_runs l \<and> \<not> send_runs l"

lemma cloud_inv_before: "cloud_before l \<Longrightarrow> cloud_inv l"
  by (simp add: cloud_before_def cloud_inv_def)

lemma cloud_inv_run: "cloud_before l0 \<Longrightarrow> cloud_run lib as l0 = Some l \<Longrightarrow> cloud_inv l"
  by (rule cloud.run_keeps [OF _ cloud_inv_before])

text \<open>
  C15: Whatever the order in which the start, the stop, the three threads, the network and the service of the unit run: the
  global pointer is set only between the last statement of the start and the last of the stop; the client
  is released only after the three threads of the service have ended, and never while the service runs; and when the stop
  has returned none of them is left and the pointer is cleared.
\<close>

theorem cloud_stop_joins:
  assumes "cloud_before l0" "cloud_run lib as l0 = Some l"
  shows "(cloud_set (svc (cloud l)) \<longrightarrow> p_main l \<in> {Serving, Stopping, Loop_broken, Timer_gone, Event_gone, Download_gone,
       Disconnecting, Conn_gone, Closed, Released}) \<and>
     (client_freed l \<longrightarrow> p_main l \<in> {Released, Stopped} \<and> all_ended l \<and> \<not> c_running (cloud l)) \<and>
     (p_main l = Stopped \<longrightarrow> (all_ended l \<or> no_threads l) \<and> \<not> cloud_set (svc (cloud l)) \<and> \<not> c_running (cloud l))"
  using cloud_inv_run [OF assms] by (cases "p_main l") (auto simp: cloud_inv_def flags_def)

lemma faulted_ub: "cloud_ub l = None \<Longrightarrow> cloud_ub (faulted e l) = Some e"
  by (auto simp: cloud_ub_def faulted_def app_ub_def fault_app_def io_def fault_io_def split: option.splits)

lemma no_app_ub: "cloud_ub l = None \<Longrightarrow> app_ub (svc (cloud l)) = None \<and> tcp_fault (net l) = None"
  by (simp add: cloud_ub_def split: option.splits)

lemma forward_ok:
  assumes "cloud_ub l = None" "cloud_set (svc (cloud l))" "\<not> client_freed l"
    and "queue_inv 1400 (tx_queue (client (svc (cloud l))))" "length m \<le> 1400" "forward_step m l = Some l'"
  shows "cloud_ub l' = None"
proof -
  let ?c = "client (svc (cloud l))"
  have "\<exists>r c. tcp_client_send ?c m (length m) = Inr (r, c)"
    using assms(4,5) enqueue_full [OF assms(4), of m "length m"] enqueue_accept [OF assms(4) _ order_refl assms(5)]
      ring.within_cap [OF assms(4)]
    by (cases "length (contents (tx_queue ?c)) = 63") (auto simp: tcp_client_send_def)
  then show ?thesis
    using assms no_app_ub [OF assms(1)]
    by (auto simp: forward_step_def cloud_ub_def gp_cloud_send_def client_send_def app_ub_def)
qed

lemma forward_fault:
  assumes "cloud_ub l = None" "forward_step m l = Some l'" "\<not> cloud_set (svc (cloud l)) \<or> client_freed l"
  shows "cloud_ub l' = Some (if cloud_set (svc (cloud l)) then UseAfterFree else NullDeref)"
  using assms faulted_ub [OF assms(1)] no_app_ub [OF assms(1)]
  by (auto simp: forward_step_def cloud_ub_def gp_cloud_send_def app_ub_def fault_app_def io_def fault_io_def split: if_splits)

text \<open>
  C18: The service of the unit, which \<open>main\<close> stops last, can send only while the cloud service is up. A frame it forwards
  before the start of the cloud service has returned or after its stop is a null dereference; one forwarded after the stop
  has released the client, while the receiver and the modem are being closed, uses released memory; in between, from the return
  of the start to the release, it is queued or dropped without fault, even while the stop waits for the threads.
\<close>

theorem forwarding_window:
  assumes "cloud_before l0" "cloud_run lib as l0 = Some l" "cloud_do lib (CForward m) l = Some l'"
    and "length m \<le> 1400" "queue_inv 1400 (tx_queue (client (svc (cloud l))))"
  shows "cloud_ub l' =
     (if p_main l = Released then Some UseAfterFree
      else if p_main l \<in> {Stopping, Loop_broken, Timer_gone, Event_gone, Download_gone, Disconnecting, Conn_gone, Closed} \<or>
         p_main l = Serving \<and> c_running (cloud l) then None
      else Some NullDeref)"
proof -
  have ub: "cloud_ub l = None" and f: "forward_step m l = Some l'"
    using assms(3) by (auto simp: cloud_do_def split: if_splits)
  note ok = forward_ok [OF ub _ _ assms(5,4) f] and bad = forward_fault [OF ub f]
  from cloud_inv_run [OF assms(1,2)] show ?thesis
    by (cases "p_main l") (auto simp: cloud_inv_def flags_def ok bad)
qed

subsection \<open>The client at the start and at the stop\<close>

lemma prepare_client:
  assumes "run_state (prepare rf n) c = (Some True, c')"
  shows "TcpClient.on_message (client (svc c')) \<and> \<not> is_connected (client (svc c')) \<and> base (client (svc c')) = None"
  using assms
  by (auto simp: prepare_def svc_do_def io_def upd_c_def case_prod_beta start_client_def cloud_server_def tcp_client_create_def
      tcp_client_register_cb_def split: option.splits if_splits)

text \<open>
  The start opens the connection before it sets the global pointer, and the connection may be up and deliver first: whatever
  the cloud then sends is a null dereference in \<open>proc_message_cb\<close>.
\<close>

theorem cloud_start_race:
  assumes "cloud_before l" "run_state (prepare (lib_rf lib) (lib_n lib)) (cloud l) = (Some True, c)" "app_ub (svc c) = None" "m \<noteq> []"
  shows "\<exists>l'. cloud_run lib [CMain, CMain, CNet (ConnSetup 0 Started), CNet EvConnected, CNet (Recv m)] l = Some l' \<and>
     cloud_ub l' = Some NullDeref"
proof -
  have m: "take 1024 m \<noteq> []" using assms(4) by simp
  show ?thesis
    using assms prepare_client [OF assms(2)] prepare_flags [OF assms(2)] m
    by (auto simp: cloud_before_def flags_def cloud_do_def cloud_main_step_def goto_def started_thread_def net_do_def net_of_def put_net_def
        last_runs_def net_step_def conn_setup_def tcp_cb_defs tcp_client_read_cb_def proc_message_cb_def cloud_ub_def app_ub_def
        fault_app_def io_def fault_io_def svc_do_def upd_c_def split: option.splits)
qed

text \<open>
  Once the stop has told a single connection loop to end: the loop's thread is the only one left beside at most one sender, no
  event is delivered any more, and each join waits for its thread.
\<close>

definition closing :: "CloudLife \<Rightarrow> bool" where
  "closing l \<longleftrightarrow> (
     let sender = (length (senders (net l)) \<le> 1 \<and> (senders (net l) \<noteq> [] \<longrightarrow> send_runs l)) in
     \<not> is_connected (client (svc (cloud l))) \<and>
     (case p_main l of
        Disconnecting \<Rightarrow> (conns (net l) = [] \<or> conns (net l) = [CFree] \<and> conn_runs l) \<and> sender
      | Conn_gone \<Rightarrow> conns (net l) = [] \<and> sender
      | Closed \<Rightarrow> conns (net l) = [] \<and> senders (net l) = []
      | Released \<Rightarrow> conns (net l) = [] \<and> senders (net l) = []
      | Stopped \<Rightarrow> conns (net l) = [] \<and> senders (net l) = []
      | _ \<Rightarrow> False))"

lemma closing_not_in_loop: "closing l \<Longrightarrow> \<not> list_ex in_loop (conns (net l)) \<and> CLoop n \<notin> set (conns (net l))"
  by (cases "p_main l") (auto simp: closing_def Let_def)

lemma closing_svc:
  assumes "closing l" "keeps link m"
  shows "closing (on_cloud (svc_do m) l)"
  using assms(1) linkD [OF keepsD [OF assms(2), of "svc (cloud l)"]] by (cases "p_main l") (simp_all add: closing_def Let_def)

lemma closing_net:
  assumes "closing l" "net_step a l = Some l'"
  shows "closing l'"
proof (cases "client_freed l \<and> (\<forall>i. a \<noteq> ConnLoopEnds i)")
  case True
  with assms have "l' = faulted UseAfterFree l" by (auto simp: net_step_def split: if_splits)
  then show ?thesis unfolding faulted_def by (simp add: closing_svc [OF assms(1) keeps_fault])
next
  case False
  with assms(2) have en: "by_network a" "tcp_enabled a (net_of l)" by (auto simp: net_step_def split: if_splits)
  note nl = closing_not_in_loop [OF assms(1)]
  consider i r where "a = ConnSetup i r" | i where "a = ConnFree i" | i where "a = SenderStep i"
    using en nl nth_mem [of _ "conns (net l)"] by (cases a) (auto simp: net_of_def list_ex_iff)
  then show ?thesis
  proof cases
    case 1
    with en(2) assms(1) show ?thesis by (cases "p_main l") (auto simp: closing_def net_of_def Let_def nth_Cons')
  next
    case 2
    with False assms en have "l' = net_do a l" by (auto simp: net_step_def split: if_splits)
    moreover have p: "conns (net l) = [CFree]" "i = 0" "p_main l = Disconnecting" "conn_runs l"
      using 2 en(2) assms(1) by (cases "p_main l"; auto simp: closing_def net_of_def Let_def)+
    ultimately show ?thesis using 2 assms(1)
      by (cases "use_ptr (net_of l) (bev (client (svc (cloud l))))")
        (simp_all add: closing_def net_of_def net_do_def put_net_def conn_free_def crash_def last_runs_def remove_at_def Let_def)
  next
    case 3
    with False assms en have "l' = net_do a l" by (auto simp: net_step_def split: if_splits)
    moreover obtain p where p: "senders (net l) = [p]" "i = 0" "p_main l \<in> {Disconnecting, Conn_gone}"
      using 3 en(2) assms(1) by (cases "p_main l"; cases "senders (net l)") (auto simp: closing_def net_of_def Let_def)
    ultimately show ?thesis using 3 assms(1)
      by (cases p; cases "p_main l"; cases "use_ptr (net_of l) (bev (client (svc (cloud l))))")
        (simp_all add: closing_def net_of_def net_do_def put_net_def sender_step_def crash_def last_runs_def remove_at_def Let_def)
  qed
qed

lemma release_client:
  assumes "run_state (release rf n) c = (True, c')"
  shows "client (svc c') = client (svc c)"
  using assms
  by (auto simp: release_def svc_do_def io_def upd_c_def get_c_def case_prod_beta gets_def modify_def fault_app_def
      split: option.splits sum.splits)

lemma closing_main:
  assumes "closing l" "cloud_main_step lib l = Some l'"
  shows "closing l'"
proof -
  have d: "keeps link destroy_client" unfolding destroy_client_def by (intro keeps_intros) simp_all
  show ?thesis
  proof (cases "p_main l")
    case Closed
    with assms closing_svc [OF assms(1) d] show ?thesis by (auto simp: cloud_main_step_def goto_def closing_def Let_def)
  next
    case Released
    with assms show ?thesis
      by (auto simp: cloud_main_step_def closing_def Let_def dest: release_client split: prod.splits bool.splits)
  qed (use assms in \<open>auto simp: cloud_main_step_def goto_def closing_def Let_def split: if_splits\<close>)
qed

lemma closing_do:
  assumes "cloud_inv l" "closing l" "cloud_do lib act l = Some l'"
  shows "closing l'"
proof -
  have e: "all_ended l \<or> no_threads l" using assms(1,2) by (cases "p_main l") (auto simp: cloud_inv_def closing_def Let_def no_threads_def flags_def)
  show ?thesis
  proof (cases act)
    case CMain
    with assms(2,3) closing_main [of l lib l'] show ?thesis by (simp add: cloud_do_def split: if_splits)
  next
    case (CNet a)
    with assms(2,3) closing_net [of l a l'] show ?thesis by (simp add: cloud_do_def split: if_splits)
  next
    case (CForward m)
    with assms(2,3) closing_svc [OF assms(2) keeps_gp_send, of m "length m"] closing_svc [OF assms(2) keeps_fault, of UseAfterFree]
    show ?thesis by (auto simp: cloud_do_def forward_step_def faulted_def split: if_splits)
  qed (use assms(3) e in \<open>auto simp: cloud_do_def timer_thread_step_def event_thread_step_def download_thread_step_def all_ended_def no_threads_def split: if_splits loop_pos.splits task_pos.splits\<close>)
qed

interpretation closing: stepwise "cloud_do lib" "\<lambda>l. cloud_inv l \<and> closing l" for lib
  by unfold_locales (blast intro: cloud_inv_do closing_do)

lemma cloud_ub_simps [simp]:
  "cloud_ub (goto p l) = cloud_ub l" "cloud_ub (l\<lparr> p_timer := t \<rparr>) = cloud_ub l" "cloud_ub (l\<lparr> p_event := e \<rparr>) = cloud_ub l"
  "cloud_ub (l\<lparr> p_down := d \<rparr>) = cloud_ub l" "cloud_ub (l\<lparr> broken := b \<rparr>) = cloud_ub l" "cloud_ub (l\<lparr> client_freed := f \<rparr>) = cloud_ub l"
  by (simp_all add: goto_def cloud_ub_def split: option.split)

lemma goto_simps [simp]:
  "cloud (goto p l) = cloud l" "net (goto p l) = net l" "p_main (goto p l) = p" "p_timer (goto p l) = p_timer l"
  "p_event (goto p l) = p_event l" "p_down (goto p l) = p_down l" "broken (goto p l) = broken l"
  "client_freed (goto p l) = client_freed l"
  by (simp_all add: goto_def)

lemma destroy_ok:
  assumes "queue_inv 1400 (tx_queue (client s))"
  shows "snd (run_state destroy_client s) = s"
  using assms by (auto simp: destroy_client_def tcp_client_destroy_def clean_queue_def queue_inv_def)

text \<open>
  C16: Whether the stop waits for the connection depends on the state of the link at that moment. With one connection thread in its
  loop and at most one sender: if the client is connected, then in every continuation both have ended when the client is
  released, and nothing of the network touches it any more; if it is not, as when the server cannot be reached and the
  loop waits for the next attempt, the stop goes straight on to the release, and the attempt uses released memory.
\<close>

theorem stop_and_connection:
  assumes "cloud_before l0" "cloud_run lib bs l0 = Some l" "p_main l = Download_gone" "cloud_ub l = None"
    and "queue_inv 1400 (tx_queue (client (svc (cloud l))))"
    and "conns (net l) = [CLoop n]" "base (client (svc (cloud l))) = Some n" "n \<notin> set (freed (net l))" "conn_runs l"
    and "length (senders (net l)) \<le> 1" "senders (net l) \<noteq> [] \<longrightarrow> send_runs l"
  shows "if is_connected (client (svc (cloud l)))
     then \<forall>as l'. cloud_run lib (CMain # as) l = Some l' \<and> client_freed l' \<longrightarrow>
       conns (net l') = [] \<and> senders (net l') = [] \<and> (\<forall>a. cloud_do lib (CNet a) l' = None)
     else \<exists>l1 l2. cloud_run lib [CMain, CMain] l = Some l1 \<and> p_main l1 = Released \<and> cloud_ub l1 = None \<and>
       cloud_do lib (CNet EvError) l1 = Some l2 \<and> cloud_ub l2 = Some UseAfterFree"
proof (cases "is_connected (client (svc (cloud l)))")
  case True
  let ?l = "goto Disconnecting (net_do Disconnect l)"
  have cl: "closing ?l"
    using True assms(6-11)
    by (simp add: closing_def goto_def net_do_def net_of_def put_net_def break_loop_def last_runs_def Let_def)
  have step: "cloud_do lib CMain l = Some ?l" using True assms(3,4) by (simp add: cloud_do_def cloud_main_step_def)
  have inv: "cloud_inv ?l" by (rule cloud_inv_do [OF cloud_inv_run [OF assms(1,2)] step])
  have "conns (net l') = [] \<and> senders (net l') = [] \<and> (\<forall>a. cloud_do lib (CNet a) l' = None)"
    if "cloud_run lib (CMain # as) l = Some l'" "client_freed l'" for as l'
  proof -
    from that(1) step have "cloud_run lib as ?l = Some l'" by simp
    with closing.run_keeps inv cl have k: "cloud_inv l'" "closing l'" by blast+
    then have e: "conns (net l') = []" "senders (net l') = []"
      using that(2) by (cases "p_main l'"; simp add: cloud_inv_def flags_def closing_def Let_def)+
    have "net_step a l' = None" for a
      using e by (cases a) (simp_all add: net_step_def net_of_def)
    with e show ?thesis by (simp add: cloud_do_def)
  qed
  then show ?thesis unfolding if_P [OF True] by blast
next
  case False
  let ?l1 = "goto Released ((on_cloud (svc_do destroy_client) (goto Closed l))\<lparr> client_freed := True \<rparr>)"
  have cl: "cloud ?l1 = cloud l" using destroy_ok [OF assms(5)]
    by (simp add: goto_def svc_do_def case_prod_beta)
  have nt: "net ?l1 = net l" by (simp add: goto_def)
  have ub: "cloud_ub ?l1 = None" using assms(4) unfolding cloud_ub_def cl nt .
  have step: "cloud_run lib [CMain, CMain] l = Some ?l1"
    using False assms(3,4) by (simp add: cloud_do_def cloud_main_step_def)
  have "cloud_do lib (CNet EvError) ?l1 = Some (faulted UseAfterFree ?l1)"
    using ub assms(6) by (simp add: cloud_do_def net_step_def net_of_def)
  with step ub faulted_ub [OF ub, of UseAfterFree] False show ?thesis by (simp add: goto_def)
qed

subsection \<open>The stop and the threads of the service\<close>

text \<open>The list of timers: empty until the timer thread arms them, the three of them while it runs its loop.\<close>

definition list_at :: "Lib \<Rightarrow> cloud_pos \<Rightarrow> loop_pos \<Rightarrow> timer list_state \<Rightarrow> bool" where
  "list_at lib p t s \<longleftrightarrow> (case t of
     L_none \<Rightarrow> p \<in> {Prepared, Connecting, Running} \<longrightarrow> list_ready (lib_timers lib) s \<and> list_contents s = []
   | L_started \<Rightarrow> list_ready (lib_timers lib) s \<and> list_contents s = []
   | L_ended \<Rightarrow> True
   | _ \<Rightarrow> list_ready (lib_timers lib) s \<and> list_contents s = cloud_timer_list)"

definition timers_inv :: "Lib \<Rightarrow> CloudLife \<Rightarrow> bool" where
  "timers_inv lib l \<longleftrightarrow> alloc_ok (lib_timers lib) \<and> finite (dom (fst (ev_list (cloud l)))) \<and>
     list_at lib (p_main l) (p_timer l) (ev_list (cloud l))"

lemma timers_same:
  "timers_inv lib l \<Longrightarrow> same_pos l l' \<Longrightarrow> ev_list (cloud l') = ev_list (cloud l) \<Longrightarrow> timers_inv lib l'"
  by (simp add: timers_inv_def same_pos_def)

lemma init_list_ready:
  "alloc_ok malloc \<Longrightarrow> finite (dom h) \<Longrightarrow>
     list_ready malloc (h, snd (List_Init_Thread l)) \<and> list_contents (h, snd (List_Init_Thread l)) = []"
  by (simp add: list_ready_def List_Init_Thread_def list_inv_def list_rep_def nodes_def list_contents_def)

lemma prepare_list:
  assumes "run_state (prepare rf n) c = (Some ok, c')"
  shows "ev_list c' = (if ok then (fst (ev_list c), snd (List_Init_Thread (snd (ev_list c)))) else ev_list c)"
  using assms
  by (auto simp: prepare_def svc_do_def io_def upd_c_def case_prod_beta split: option.splits if_splits)

lemma main_step_list:
  assumes "cloud_main_step lib l = Some l'" "p_main l \<noteq> Begun" "p_main l \<noteq> Released"
  shows "ev_list (cloud l') = ev_list (cloud l) \<and> p_timer l' = (if p_main l = Running then L_started else p_timer l) \<and>
     (p_main l' \<in> {Prepared, Connecting, Running} \<longrightarrow> p_main l \<in> {Prepared, Connecting})"
  using assms
  by (cases "p_main l") (auto simp: cloud_main_step_def set_running_def started_thread_def net_do_def put_net_def Let_def goto_def
      split: if_splits)

lemma timers_inv_main:
  assumes "cloud_inv l" "timers_inv lib l" "cloud_main_step lib l = Some l'"
  shows "timers_inv lib l'"
proof (cases "p_main l")
  case Begun
  then obtain ok c where p: "run_state (prepare (lib_rf lib) (lib_n lib)) (cloud l) = (Some ok, c)"
    "l' = l\<lparr> cloud := c, p_main := if ok then Prepared else Serving \<rparr>"
    using assms(3) by (auto simp: cloud_main_step_def split: prod.splits option.splits)
  moreover have "p_timer l = L_none" using Begun assms(1) by (simp add: cloud_inv_def no_threads_def)
  moreover have "alloc_ok (lib_timers lib)" "finite (dom (fst (ev_list (cloud l))))" using assms(2) by (simp_all add: timers_inv_def)
  ultimately show ?thesis
    using prepare_list [OF p(1)] init_list_ready [of "lib_timers lib" "fst (ev_list (cloud l))" "snd (ev_list (cloud l))"]
    by (cases ok) (simp_all add: timers_inv_def list_at_def)
next
  case Released
  then obtain c where "run_state (release (lib_rf lib) (lib_n lib)) (cloud l) = (True, c)" "l' = l\<lparr> cloud := c, p_main := Stopped \<rparr>"
    using assms(3) by (auto simp: cloud_main_step_def split: prod.splits bool.splits)
  moreover from this have "ev_list c = ev_list (cloud l)"
    by (auto simp: release_def svc_do_def io_def upd_c_def get_c_def case_prod_beta split: option.splits)
  moreover have "p_timer l = L_ended" using Released assms(1) by (simp add: cloud_inv_def all_ended_def)
  ultimately show ?thesis using assms(2) by (simp add: timers_inv_def list_at_def)
next
  case Running
  with assms main_step_list [OF assms(3)] show ?thesis
    by (auto simp: timers_inv_def list_at_def cloud_inv_def no_threads_def)
qed (use assms main_step_list [OF assms(3)] in \<open>cases "p_timer l"; auto simp: timers_inv_def list_at_def\<close>)+

lemma timers_inv_fault: "timers_inv lib l \<Longrightarrow> timers_inv lib (faulted e l)"
  by (rule timers_same [OF _ same_pos_fault]) (simp_all add: faulted_def)

lemma timers_inv_timer:
  assumes "timers_inv lib l" "cloud_inv l" "timer_thread_step lib task l = Some l'"
  shows "timers_inv lib l'"
proof (cases "p_timer l")
  case L_started
  then have "list_ready (lib_timers lib) (ev_list (cloud l))" "list_contents (ev_list (cloud l)) = []"
    using assms(1) by (simp_all add: timers_inv_def list_at_def)
  from cloud_timers_armed [OF this] obtain s where s: "cloud_timers (lib_timers lib) (ev_list (cloud l)) = Inr s"
    "list_ready (lib_timers lib) s" "list_contents s = cloud_timer_list" by blast
  moreover from s(1) L_started assms(3)
  have "l' = on_cloud (upd_c (\<lambda>c. c\<lparr> ev_list := s \<rparr>)) (l\<lparr> p_timer := L_armed \<rparr>)" by (simp add: timer_thread_step_def)
  moreover have "p_main l \<notin> {Prepared, Connecting, Running}" using L_started assms(2) by (auto simp: cloud_inv_def no_threads_def)
  moreover have "finite (dom (fst s))" using s(2) by (simp add: list_ready_def)
  ultimately show ?thesis using assms(1) by (simp add: timers_inv_def list_at_def)
next
  case L_loop
  then have r: "list_ready (lib_timers lib) (ev_list (cloud l))" "list_contents (ev_list (cloud l)) = cloud_timer_list"
    using assms(1) by (simp_all add: timers_inv_def list_at_def)
  show ?thesis
  proof (cases "broken l")
    case True
    from timers_end_all [OF r(1)] r(2) obtain s where s: "cloud_timers_end (ev_list (cloud l)) = Some (Inr (cloud_timer_list, s))"
      "list_ready (lib_timers lib) s" by (auto simp: cloud_timer_list_def)
    with L_loop True assms(3) have "l' = on_cloud (upd_c (\<lambda>c. c\<lparr> ev_list := s \<rparr>)) (l\<lparr> p_timer := L_ended \<rparr>)"
      by (simp add: timer_thread_step_def)
    moreover have "finite (dom (fst s))" using s(2) by (simp add: list_ready_def)
    moreover have "p_main l \<notin> {Prepared, Connecting, Running}" using L_loop assms(2) by (auto simp: cloud_inv_def no_threads_def)
    ultimately show ?thesis using assms(1) by (simp add: timers_inv_def list_at_def)
  next
    case False
    then have t: "tick lib task l = Some l'" using L_loop assms(3) by (simp add: timer_thread_step_def split: if_splits)
    from tick_keeps [OF t] timers_same [OF assms(1) tick_pos [OF t]] show ?thesis by auto
  qed
qed (use assms in \<open>auto simp: timer_thread_step_def timers_inv_def list_at_def\<close>)

lemma net_step_list:
  assumes "net_step a l = Some l'"
  shows "ev_list (cloud l') = ev_list (cloud l)"
proof -
  consider "l' = faulted UseAfterFree l" | "l' = net_do a l" | m where "l' = on_cloud (svc_do (proc_message_cb m)) (net_do a l)"
    using assms by (cases a) (auto simp: net_step_def split: if_splits option.splits)
  then show ?thesis by cases (simp_all add: faulted_def net_do_def put_net_def Let_def)
qed

lemma timers_inv_do:
  assumes "cloud_inv l" "timers_inv lib l" "cloud_do lib act l = Some l'"
  shows "timers_inv lib l'"
proof (cases act)
  case CMain
  with assms timers_inv_main show ?thesis by (simp add: cloud_do_def split: if_splits)
next
  case (CTimer t)
  with assms timers_inv_timer show ?thesis by (simp add: cloud_do_def split: if_splits)
next
  case (CNet a)
  with assms(3) have "net_step a l = Some l'" by (simp add: cloud_do_def split: if_splits)
  from timers_same [OF assms(2) net_step_pos [OF this] net_step_list [OF this]] show ?thesis .
next
  case (CForward m)
  with assms(3) have f: "forward_step m l = Some l'" by (simp add: cloud_do_def split: if_splits)
  then have "ev_list (cloud l') = ev_list (cloud l)" by (auto simp: forward_step_def faulted_def split: if_splits)
  with timers_same [OF assms(2) forward_step_pos [OF f]] show ?thesis by simp
qed (use assms(2,3) in \<open>auto simp: cloud_do_def event_thread_step_def download_thread_step_def timers_inv_def
    split: if_splits task_pos.splits prod.splits option.splits\<close>)

interpretation timers: stepwise "cloud_do lib" "\<lambda>l. cloud_inv l \<and> timers_inv lib l" for lib
  by unfold_locales (blast intro: cloud_inv_do timers_inv_do)

text \<open>The stop from its first statement to the joins, when the request reaches the event loop and no turn is under way.\<close>

definition stop_rank :: "CloudLife \<Rightarrow> nat" where
  "stop_rank l = (case p_main l of
     Stopping \<Rightarrow> 8
   | Loop_broken \<Rightarrow> (if p_timer l = L_ended then 6 else 7)
   | Timer_gone \<Rightarrow> (if p_event l = K_ended then 4 else 5)
   | Event_gone \<Rightarrow> (if p_down l = K_ended then 2 else 3)
   | _ \<Rightarrow> 0)"

definition stop_next :: "CloudLife \<Rightarrow> cloud_act" where
  "stop_next l = (case p_main l of
     Loop_broken \<Rightarrow> (if p_timer l = L_ended then CMain else CTimer NavTimer)
   | Timer_gone \<Rightarrow> (if p_event l = K_ended then CMain else CEvent)
   | Event_gone \<Rightarrow> (if p_down l = K_ended then CMain else CDownload)
   | _ \<Rightarrow> CMain)"

definition stop_ready :: "Lib \<Rightarrow> CloudLife \<Rightarrow> bool" where
  "stop_ready lib l \<longleftrightarrow> cloud_inv l \<and> timers_inv lib l \<and> cloud_ub l = None \<and> p_event l \<noteq> K_work \<and> p_down l \<noteq> K_work \<and>
     p_main l \<in> {Stopping, Loop_broken, Timer_gone, Event_gone, Download_gone} \<and>
     (p_main l = Stopping \<longrightarrow> p_timer l = L_loop) \<and> (p_main l = Loop_broken \<longrightarrow> broken l)"

text \<open>Only the steps that lead to the end of the stop.\<close>

definition stop_do :: "Lib \<Rightarrow> cloud_act \<Rightarrow> CloudLife \<Rightarrow> CloudLife option" where
  "stop_do lib act l = (if act = stop_next l \<and> 0 < stop_rank l then cloud_do lib act l else None)"

lemma timers_end:
  assumes "timers_inv lib l" "p_timer l = L_loop"
  shows "\<exists>s. cloud_timers_end (ev_list (cloud l)) = Some (Inr (cloud_timer_list, s))"
  using assms timers_end_all [of "lib_timers lib" "ev_list (cloud l)"]
  by (auto simp: timers_inv_def list_at_def cloud_timer_list_def)

lemma on_cloud_upd_ub: "cloud_ub (on_cloud (upd_c f) l) = cloud_ub l" if "\<And>c. svc (f c) = svc c"
  using that by (simp add: cloud_ub_def split: option.split)

lemma stop_step:
  assumes "stop_ready lib l" "0 < stop_rank l"
  shows "\<exists>l'. stop_do lib (stop_next l) l = Some l' \<and> stop_ready lib l' \<and> stop_rank l' < stop_rank l"
proof -
  have inv: "cloud_inv l" and tl: "timers_inv lib l" and ub: "cloud_ub l = None" and pos: "p_event l \<noteq> K_work" "p_down l \<noteq> K_work"
    using assms(1) by (simp_all add: stop_ready_def)
  have "\<exists>l'. cloud_do lib (stop_next l) l = Some l' \<and> cloud_ub l' = None \<and> p_event l' \<noteq> K_work \<and> p_down l' \<noteq> K_work \<and>
      p_main l' \<in> {Loop_broken, Timer_gone, Event_gone, Download_gone} \<and> (p_main l' = Loop_broken \<longrightarrow> broken l') \<and>
      stop_rank l' < stop_rank l"
  proof (cases "p_main l")
    case Stopping
    with assms(1) ub show ?thesis
      by (simp add: stop_ready_def stop_next_def stop_rank_def cloud_do_def cloud_main_step_def)
  next
    case Loop_broken
    show ?thesis
    proof (cases "p_timer l = L_ended")
      case True
      with Loop_broken ub pos show ?thesis by (simp add: stop_next_def stop_rank_def cloud_do_def cloud_main_step_def)
    next
      case False
      have b: "broken l" "p_timer l = L_loop" using Loop_broken False assms(1) inv by (auto simp: stop_ready_def cloud_inv_def)
      from timers_end [OF tl b(2)] obtain s where "cloud_timers_end (ev_list (cloud l)) = Some (Inr (cloud_timer_list, s))" by blast
      with Loop_broken b ub pos show ?thesis
        by (simp add: stop_next_def stop_rank_def cloud_do_def timer_thread_step_def on_cloud_upd_ub)
    qed
  next
    case Timer_gone
    with ub pos inv show ?thesis
      by (cases "p_event l") (simp_all add: stop_next_def stop_rank_def cloud_do_def cloud_main_step_def event_thread_step_def
          cloud_inv_def flags_def)
  next
    case Event_gone
    with ub pos inv show ?thesis
      by (cases "p_down l") (simp_all add: stop_next_def stop_rank_def cloud_do_def cloud_main_step_def download_thread_step_def
          cloud_inv_def flags_def on_cloud_upd_ub)
  qed (use assms in \<open>auto simp: stop_ready_def stop_rank_def\<close>)
  then obtain l' where l': "cloud_do lib (stop_next l) l = Some l'" "cloud_ub l' = None" "p_event l' \<noteq> K_work" "p_down l' \<noteq> K_work"
    "p_main l' \<in> {Loop_broken, Timer_gone, Event_gone, Download_gone}" "p_main l' = Loop_broken \<longrightarrow> broken l'"
    "stop_rank l' < stop_rank l" by blast
  with cloud_inv_do [OF inv l'(1)] timers_inv_do [OF inv tl l'(1)] assms(2) show ?thesis
    by (auto simp: stop_do_def stop_ready_def)
qed

interpretation stop: progress "stop_do lib" "stop_ready lib" stop_rank stop_next for lib
proof unfold_locales
  show "stop_ready lib l \<Longrightarrow> stop_do lib a l = Some l' \<Longrightarrow> stop_ready lib l'" for l a l'
    using stop_step [of lib l] by (auto simp: stop_do_def split: if_splits)
  show "stop_ready lib l \<Longrightarrow> 0 < stop_rank l \<Longrightarrow> \<exists>l'. stop_do lib (stop_next l) l = Some l' \<and> stop_rank l' < stop_rank l" for l
    using stop_step [of lib l] by blast
qed

lemma stop_run: "run_acts (stop_do lib) as l = Some l' \<Longrightarrow> cloud_run lib as l = Some l'"
  by (induction as arbitrary: l) (auto simp: stop_do_def split: option.splits if_splits)

lemma hung_do:
  assumes "p_main l = Loop_broken \<and> \<not> broken l \<and> p_timer l \<noteq> L_ended" "cloud_do lib act l = Some l'"
  shows "p_main l' = Loop_broken \<and> \<not> broken l' \<and> p_timer l' \<noteq> L_ended"
proof (cases act)
  case (CTimer t)
  with assms(2) have "timer_thread_step lib t l = Some l'" by (simp add: cloud_do_def split: if_splits)
  with assms(1) tick_pos [of lib t l l'] same_pos_fault [of l] show ?thesis
    by (cases "p_timer l") (auto simp: timer_thread_step_def same_pos_def flags_def split: if_splits sum.splits)
next
  case (CNet a)
  with assms(2) have "net_step a l = Some l'" by (simp add: cloud_do_def split: if_splits)
  with assms(1) net_step_pos show ?thesis by (auto simp: same_pos_def flags_def)
next
  case (CForward m)
  with assms(2) have "forward_step m l = Some l'" by (simp add: cloud_do_def split: if_splits)
  with assms(1) forward_step_pos show ?thesis by (auto simp: same_pos_def flags_def)
qed (use assms in \<open>auto simp: cloud_do_def cloud_main_step_def event_thread_step_def download_thread_step_def
    split: if_splits task_pos.splits prod.splits option.splits\<close>)

interpretation hung: stepwise "cloud_do lib" "\<lambda>l. p_main l = Loop_broken \<and> \<not> broken l \<and> p_timer l \<noteq> L_ended" for lib
  by unfold_locales (rule hung_do)

text \<open>
  C17: The stop and the service's threads. When the timer thread is in its event loop the request to end reaches it, and
  unless a turn of the event or the download thread is under way the stop gets past all three joins. When the timer
  thread has not yet entered its loop, as for a signal right after the start, the request is lost, since a loop forgets earlier
  ones: then no continuation gets the stop past the join of the timer thread.
\<close>

theorem cloud_stop_request:
  assumes "cloud_before l0" "alloc_ok (lib_timers lib)" "finite (dom (fst (ev_list (cloud l0))))"
    and "cloud_run lib bs l0 = Some l" "p_main l = Stopping" "cloud_ub l = None"
  shows "if p_timer l = L_loop
     then p_event l \<noteq> K_work \<and> p_down l \<noteq> K_work \<longrightarrow>
       (\<exists>as l'. cloud_run lib as l = Some l' \<and> p_main l' = Download_gone \<and> all_ended l' \<and> cloud_ub l' = None)
     else \<forall>as l'. cloud_run lib (CMain # as) l = Some l' \<longrightarrow> p_main l' = Loop_broken"
proof -
  have "cloud_inv l0" "timers_inv lib l0"
    using assms(1-3) cloud_inv_before by (auto simp: timers_inv_def list_at_def cloud_before_def no_threads_def)
  then have inv: "cloud_inv l" "timers_inv lib l" using timers.run_keeps [OF assms(4)] by blast+
  show ?thesis
  proof (cases "p_timer l = L_loop")
    case True
    have "\<exists>as l'. cloud_run lib as l = Some l' \<and> p_main l' = Download_gone \<and> all_ended l' \<and> cloud_ub l' = None"
      if "p_event l \<noteq> K_work \<and> p_down l \<noteq> K_work"
    proof -
      have "stop_ready lib l" using that True inv assms(5,6) by (simp add: stop_ready_def)
      from stop.reaches [OF this] obtain as l' where l': "run_acts (stop_do lib) as l = Some l'" "stop_ready lib l'" "stop_rank l' = 0"
        by blast
      then have "p_main l' = Download_gone" by (auto simp: stop_ready_def stop_rank_def split: if_splits)
      with l' stop_run [OF l'(1)] show ?thesis by (auto simp: stop_ready_def cloud_inv_def)
    qed
    with True show ?thesis by simp
  next
    case False
    have t: "p_timer l \<noteq> L_ended" using inv(1) assms(5) by (auto simp: cloud_inv_def loop_alive_def)
    have "p_main l' = Loop_broken" if "cloud_run lib (CMain # as) l = Some l'" for as l'
    proof -
      have "cloud_run lib as (goto Loop_broken (l\<lparr> broken := False \<rparr>)) = Some l'"
        using that False assms(5,6) by (simp add: cloud_do_def cloud_main_step_def)
      from hung.run_keeps [OF this] t show ?thesis by simp
    qed
    then show ?thesis unfolding if_not_P [OF False] by blast
  qed
qed

subsection \<open>Start and stop without interleaving\<close>

lemma init_prepares:
  assumes "run_state (prepare rf n) c = (Some ok, c')"
  shows "run_state (clound_comm_init rf n) c = (True,
     if ok then c'\<lparr> svc := (svc c')\<lparr> cloud_set := True \<rparr>, c_running := True,
                    threads := threads c' @ [TcpConnectThread, TimerThread, EventThread, DownloadThread] \<rparr> else c')"
  using assms
  by (auto simp: clound_comm_init_def prepare_def svc_do_def io_def upd_c_def case_prod_beta start_client_def
      split: option.splits if_splits)

definition started :: "Cloud \<Rightarrow> CloudLife \<Rightarrow> CloudLife" where
  "started c l = l\<lparr> cloud := c, net := (net l)\<lparr> cl := client (svc c), conns := [CStart] \<rparr>, p_main := Serving, p_timer := L_started,
     p_event := K_check, p_down := K_check, conn_runs := True \<rparr>"

lemma start_run:
  assumes "cloud_before l" "run_state (prepare (lib_rf lib) (lib_n lib)) (cloud l) = (Some True, c)" "app_ub (svc c) = None"
  shows "cloud_run lib (replicate 7 CMain) l = Some (started (snd (run_state (clound_comm_init (lib_rf lib) (lib_n lib)) (cloud l))) l)"
proof -
  have f: "tcp_fault (net l) = None" using assms(1) no_app_ub by (simp add: cloud_before_def)
  show ?thesis
    using assms f init_prepares [OF assms(2)]
    by (simp add: numeral_eq_Suc cloud_before_def cloud_do_def cloud_main_step_def cloud_ub_def app_ub_def goto_def started_thread_def
        set_running_def on_cloud_def upd_c_def svc_do_def modify_def net_do_def net_of_def put_net_def last_runs_def started_def)
qed

text \<open>The stop when the timer thread is in its loop, the other two are at their tests, and the client has no connection.\<close>

definition quick_stop :: "cloud_act list" where
  "quick_stop = [CMain, CMain, CTimer NavTimer, CMain, CEvent, CMain, CDownload, CMain, CMain, CMain, CMain]"

lemma uninit_release:
  "clound_comm_uninit rf n = do {
     run \<leftarrow> get_c c_running;
     if \<not> run then State_Monad.return True
     else do {
       upd_c (\<lambda>c. c\<lparr> c_running := False, threads := filter (\<lambda>t. t = TcpConnectThread) (threads c) \<rparr>);
       svc_do stop_client;
       release rf n } }"
  unfolding clound_comm_uninit_def release_def ..

lemma stop_client_down:
  assumes "\<not> is_connected (client s)" "queue_inv 1400 (tx_queue (client s))"
  shows "snd (run_state stop_client s) = s"
proof -
  have "s\<lparr> client := (client s)\<lparr> is_connected := False \<rparr> \<rparr> = s" using assms(1) by simp
  with destroy_ok [OF assms(2)] show ?thesis by (simp add: stop_client_def destroy_client_def modify_def)
qed

lemma on_cloud_destroy:
  "queue_inv 1400 (tx_queue (client (svc (cloud l)))) \<Longrightarrow> on_cloud (svc_do destroy_client) l = l"
  using destroy_ok [of "svc (cloud l)"] by (simp add: on_cloud_def svc_do_def case_prod_beta)

lemma set_running_simps [simp]:
  "cloud_ub (set_running b l) = cloud_ub l" "p_timer (set_running b l) = p_timer l" "p_event (set_running b l) = p_event l"
  "p_down (set_running b l) = p_down l" "cloud (set_running b l) = (cloud l)\<lparr> c_running := b \<rparr>"
  by (simp_all add: set_running_def on_cloud_upd_ub)

lemma stop_run_quick:
  assumes "p_main l = Serving" "c_running (cloud l)" "p_timer l = L_loop" "p_event l = K_check" "p_down l = K_check" "cloud_ub l = None"
    and "cloud_timers_end (ev_list (cloud l)) = Some (Inr (ts, s))" "\<not> is_connected (client (svc (cloud l)))"
    and "queue_inv 1400 (tx_queue (client (svc (cloud l))))"
    and "run_state (clound_comm_uninit (lib_rf lib) (lib_n lib)) ((cloud l)\<lparr> ev_list := s \<rparr>) = (True, c)"
  shows "\<exists>l'. cloud_run lib quick_stop l = Some l' \<and> p_main l' = Stopped \<and> cloud l' = c"
proof -
  let ?t = "filter (\<lambda>t. t = TcpConnectThread) (threads (cloud l))"
  let ?c1 = "(cloud l)\<lparr> c_running := False, ev_list := s, threads := ?t \<rparr>"
  have eq: "(cloud l)\<lparr> ev_list := s, c_running := False, threads := ?t \<rparr> = ?c1" by (cases "cloud l") simp
  have "run_state (clound_comm_uninit (lib_rf lib) (lib_n lib)) ((cloud l)\<lparr> ev_list := s \<rparr>) =
      run_state (release (lib_rf lib) (lib_n lib)) ((cloud l)\<lparr> ev_list := s, c_running := False, threads := ?t \<rparr>)"
    using assms(2) stop_client_down [OF assms(8,9)]
    by (simp add: uninit_release get_c_def upd_c_def svc_do_def case_prod_beta)
  also note eq
  finally have "run_state (clound_comm_uninit (lib_rf lib) (lib_n lib)) ((cloud l)\<lparr> ev_list := s \<rparr>) =
      run_state (release (lib_rf lib) (lib_n lib)) ?c1" .
  then have rel: "run_state (release (lib_rf lib) (lib_n lib)) ?c1 = (True, c)" using assms(10) by simp
  show ?thesis
    using assms(1-9) rel
    by (simp add: quick_stop_def cloud_do_def cloud_main_step_def timer_thread_step_def event_thread_step_def download_thread_step_def
        on_cloud_upd_ub on_cloud_destroy)
qed


subsection \<open>Example runs\<close>

definition lib_example :: Lib where
  "lib_example = \<lparr> lib_malloc = first_free, lib_timers = first_free, lib_print = \<lambda>_. [], lib_parse = \<lambda>_. None,
     lib_unit = \<lparr> unit_name = [], hw_ver = [], sw_ver = [] \<rparr>, lib_task = ota_task, lib_oor64 = \<lambda>_. 0, lib_oor32 = \<lambda>_. 0,
     lib_buf = replicate 4096 CHR 0x00, lib_fuel = 0, lib_rf = 7, lib_n = 1 \<rparr>"

text \<open>A context \<open>main\<close> has cleared, with a modem that answers and with none.\<close>

definition cloud_life :: "world \<Rightarrow> CloudLife" where
  "cloud_life w = \<lparr> cloud = cloud_example\<lparr> svc := (svc cloud_example)\<lparr> wld := w \<rparr> \<rparr>, net = tcp_start [] 0 0, p_main = Begun,
     p_timer = L_none, p_event = K_none, p_down = K_none, broken = False, conn_runs = False, send_runs = False, client_freed = False,
     task_locals = (0, replicate 256 0), nav = sg_data \<rparr>"

abbreviation modem_world :: world where
  "modem_world \<equiv> quiet_world\<lparr> env := modem_env \<rparr>"

lemma cloud_life_before: "ub w = None \<Longrightarrow> cloud_before (cloud_life w)"
  by (simp add: cloud_before_def cloud_life_def no_threads_def flags_def cloud_ub_def app_ub_def tcp_start_def cloud_example_def app_example_def)

lemma modem_prepares:
  "\<exists>c. run_state (prepare 7 1) (cloud (cloud_life modem_world)) = (Some True, c) \<and> app_ub (svc c) = None \<and> x_uart (fx c) = None \<and>
     queue_inv 1400 (tx_queue (client (svc c)))"
proof -
  obtain x w' where f: "run_state (fx650_init 7 1) modem_world = (Some (FX650_OK, x), w')" "x_uart x = None" "ub w' = None" "env w' = modem_env"
    using modem_starts by blast
  have q: "queue_inv 1400 (snd (init_queue cleared_queue 1400))"
    using init_queue_inv [of cleared_queue 1400] by (simp add: cleared_queue_def)
  let ?w = "w'\<lparr> trace := trace w' @ [(Dev Socket, \<lparr> rc = 0, vl = 0, out = [] \<rparr>)] \<rparr>"
  obtain p w1 where o: "run_state (serial_open uart_port_create LANETO_DEV_NAME) ?w = ((0, p), w1)" "ub w1 = None"
    "env w1 = modem_env"
    using f(3,4) by (simp add: serial_open_def modem_env_def)
  obtain r w2 where u: "run_state (uart_configure p (Some laneto_port_info)) w1 = (r, w2)" "ub w2 = None"
    using o(2,3) by (cases "uart_tios laneto_port_info") (auto simp: uart_configure_def modem_env_def)
  have l: "\<exists>r a. run_state laneTo_init w' = ((r, a), w2)"
    using f(3,4) o(1) u(1) by (simp add: laneTo_init_def init_shm_data_sock_def modem_env_def)
  show ?thesis using f(1,2) l u(2) q
    by (auto simp: prepare_def cloud_life_def svc_do_def io_def upd_c_def app_ub_def start_client_def cloud_server_def tcp_client_create_def
        tcp_client_register_cb_def)
qed

text \<open>With the timer thread in its loop and the connection under way.\<close>

lemma serving_run:
  assumes "cloud_before l" "run_state (prepare (lib_rf lib) (lib_n lib)) (cloud l) = (Some True, c)" "app_ub (svc c) = None"
    and "alloc_ok (lib_timers lib)" "finite (dom (fst (ev_list (cloud l))))"
  shows "\<exists>l'. cloud_run lib (replicate 7 CMain @ [CNet (ConnSetup 0 Started), CTimer NavTimer, CTimer NavTimer]) l = Some l' \<and>
     p_main l' = Serving \<and> c_running (cloud l') \<and> p_timer l' = L_loop \<and> p_event l' = K_check \<and> p_down l' = K_check \<and>
     cloud_ub l' = None \<and> \<not> is_connected (client (svc (cloud l'))) \<and> client (svc (cloud l')) = (client (svc c))\<lparr> base := Some (fresh (net l)),
       bev := Some (fresh (net l)) \<rparr> \<and> conns (net l') = [CLoop (fresh (net l))] \<and> senders (net l') = [] \<and>
     freed (net l') = freed (net l) \<and> conn_runs l' \<and> timers_inv lib l'"
proof -
  let ?c = "snd (run_state (clound_comm_init (lib_rf lib) (lib_n lib)) (cloud l))"
  have r: "cloud_run lib (replicate 7 CMain) l = Some (started ?c l)" by (rule start_run [OF assms(1-3)])
  have "timers_inv lib l" using assms(1,4,5) by (auto simp: timers_inv_def list_at_def cloud_before_def no_threads_def)
  with timers.run_keeps [OF r] cloud_inv_before [OF assms(1)] have inv: "cloud_inv (started ?c l)" "timers_inv lib (started ?c l)" by blast+
  then obtain s where s: "cloud_timers (lib_timers lib) (ev_list ?c) = Inr s"
    using cloud_timers_armed [of "lib_timers lib" "ev_list ?c"] by (auto simp: timers_inv_def list_at_def started_def)
  have c: "client (svc ?c) = client (svc c)" "app_ub (svc ?c) = None" "c_running ?c" "\<not> is_connected (client (svc c))"
    using init_prepares [OF assms(2)] assms(3) prepare_client [OF assms(2)] by (simp_all add: app_ub_def)
  have b: "tcp_fault (net l) = None" "senders (net l) = []"
    using assms(1) no_app_ub by (simp_all add: cloud_before_def)
  have nf: "\<not> client_freed l" using assms(1) by (simp add: cloud_before_def flags_def)
  have "\<exists>l'. cloud_run lib [CNet (ConnSetup 0 Started), CTimer NavTimer, CTimer NavTimer] (started ?c l) = Some l' \<and>
      p_main l' = Serving \<and> c_running (cloud l') \<and> p_timer l' = L_loop \<and> p_event l' = K_check \<and> p_down l' = K_check \<and>
      cloud_ub l' = None \<and> \<not> is_connected (client (svc (cloud l'))) \<and> client (svc (cloud l')) = (client (svc c))\<lparr> base := Some (fresh (net l)),
        bev := Some (fresh (net l)) \<rparr> \<and> conns (net l') = [CLoop (fresh (net l))] \<and> senders (net l') = [] \<and>
      freed (net l') = freed (net l) \<and> conn_runs l'"
    using c b nf s
    by (simp add: started_def cloud_do_def cloud_ub_def app_ub_def net_step_def net_of_def net_do_def put_net_def conn_setup_def
        last_runs_def timer_thread_step_def on_cloud_def upd_c_def Let_def)
  then obtain l' where l': "cloud_run lib [CNet (ConnSetup 0 Started), CTimer NavTimer, CTimer NavTimer] (started ?c l) = Some l'"
    "p_main l' = Serving" "c_running (cloud l')" "p_timer l' = L_loop" "p_event l' = K_check" "p_down l' = K_check"
    "cloud_ub l' = None" "\<not> is_connected (client (svc (cloud l')))" "client (svc (cloud l')) = (client (svc c))\<lparr> base := Some (fresh (net l)),
       bev := Some (fresh (net l)) \<rparr>" "conns (net l') = [CLoop (fresh (net l))]" "senders (net l') = []"
    "freed (net l') = freed (net l)" "conn_runs l'" by blast
  from timers.run_keeps [OF l'(1)] inv have "timers_inv lib l'" by blast
  with l' run_acts_trans [OF r l'(1)] show ?thesis by blast
qed

lemma joined_run:
  assumes "p_main l = Serving" "c_running (cloud l)" "p_timer l = L_loop" "p_event l = K_check" "p_down l = K_check" "cloud_ub l = None"
    and "timers_inv lib l"
  shows "\<exists>l'. cloud_run lib [CMain, CMain, CTimer NavTimer, CMain, CEvent, CMain, CDownload, CMain] l = Some l' \<and>
     p_main l' = Download_gone \<and> cloud_ub l' = None \<and> svc (cloud l') = svc (cloud l) \<and> net l' = net l \<and> conn_runs l' = conn_runs l"
proof -
  obtain s where "cloud_timers_end (ev_list (cloud l)) = Some (Inr (cloud_timer_list, s))"
    using timers_end [OF assms(7,3)] by blast
  with assms(1-6) show ?thesis
    by (simp add: cloud_do_def cloud_main_step_def timer_thread_step_def event_thread_step_def download_thread_step_def on_cloud_upd_ub)
      (simp add: goto_def set_running_def)
qed

lemma modem_serving:
  "\<exists>as l. cloud_run lib_example as (cloud_life modem_world) = Some l \<and>
     p_main l = Serving \<and> c_running (cloud l) \<and> p_timer l = L_loop \<and> p_event l = K_check \<and> p_down l = K_check \<and> cloud_ub l = None \<and>
     \<not> is_connected (client (svc (cloud l))) \<and> base (client (svc (cloud l))) = Some 0 \<and> conns (net l) = [CLoop 0] \<and> senders (net l) = [] \<and>
     freed (net l) = [] \<and> conn_runs l \<and> timers_inv lib_example l \<and> queue_inv 1400 (tx_queue (client (svc (cloud l))))"
proof -
  let ?l = "cloud_life modem_world"
  obtain c where c: "run_state (prepare (lib_rf lib_example) (lib_n lib_example)) (cloud ?l) = (Some True, c)" "app_ub (svc c) = None"
    "queue_inv 1400 (tx_queue (client (svc c)))"
    using modem_prepares by (auto simp: lib_example_def)
  have "cloud_before ?l" by (rule cloud_life_before) simp
  moreover have "fresh (net ?l) = 0" "freed (net ?l) = []" "finite (dom (fst (ev_list (cloud ?l))))"
    by (simp_all add: cloud_life_def tcp_start_def cloud_example_def)
  moreover have "alloc_ok (lib_timers lib_example)" by (simp add: lib_example_def first_free_ok)
  ultimately show ?thesis using serving_run [OF _ c(1,2)] c(3) by fastforce
qed

lemma modem_before: "cloud_before (cloud_life modem_world)"
  by (rule cloud_life_before) (simp add: quiet_world_def)

theorem cloud_stop_joins_witness:
  "\<exists>as l. cloud_run lib_example as (cloud_life modem_world) = Some l \<and> p_main l = Download_gone \<and> \<not> client_freed l"
proof -
  obtain as l where l: "cloud_run lib_example as (cloud_life modem_world) = Some l" "p_main l = Serving" "c_running (cloud l)" "p_timer l = L_loop"
    "p_event l = K_check" "p_down l = K_check" "cloud_ub l = None" "timers_inv lib_example l" using modem_serving by blast
  from joined_run [OF l(2-)] obtain bs l' where l': "cloud_run lib_example bs l = Some l'" "p_main l' = Download_gone" by blast
  from run_acts_trans [OF l(1) l'(1)] have r: "cloud_run lib_example (as @ bs) (cloud_life modem_world) = Some l'" .
  from cloud_stop_joins [OF modem_before r] l'(2) r show ?thesis by auto
qed

lemma forwarded:
  assumes "cloud_ub l = None"
  shows "\<exists>l'. cloud_do lib (CForward m) l = Some l'"
proof -
  have "\<exists>l'. forward_step m l = Some l'" by (simp add: forward_step_def)
  with assms show ?thesis by (simp add: cloud_do_def)
qed

theorem forwarding_window_witness:
  "(\<exists>l. cloud_do lib_example (CForward [1]) (cloud_life quiet_world) = Some l \<and> cloud_ub l = Some NullDeref) \<and>
   (\<exists>as l l'. cloud_run lib_example as (cloud_life modem_world) = Some l \<and> p_main l = Serving \<and>
      cloud_do lib_example (CForward [1]) l = Some l' \<and> cloud_ub l' = None)"
proof
  let ?l = "cloud_life quiet_world"
  have b: "cloud_before ?l" by (rule cloud_life_before) (simp add: quiet_world_def)
  have r: "cloud_run lib_example [] ?l = Some ?l" by simp
  have q: "queue_inv 1400 (tx_queue (client (svc (cloud ?l))))"
    using tcp_up_inv by (simp add: cloud_life_def cloud_example_def app_example_def tcp_inv_def)
  obtain l where s: "cloud_do lib_example (CForward [1]) ?l = Some l"
    using b unfolding cloud_before_def using forwarded [of ?l lib_example "[1]"] by blast
  from forwarding_window [OF b r s _ q] s
  show "\<exists>l. cloud_do lib_example (CForward [1]) ?l = Some l \<and> cloud_ub l = Some NullDeref"
    by (simp add: cloud_life_def)
next
  obtain as l where l: "cloud_run lib_example as (cloud_life modem_world) = Some l" "p_main l = Serving" "c_running (cloud l)"
    "cloud_ub l = None" "queue_inv 1400 (tx_queue (client (svc (cloud l))))" using modem_serving by blast
  then obtain l' where s: "cloud_do lib_example (CForward [1]) l = Some l'" using forwarded by blast
  from forwarding_window [OF modem_before l(1) s _ l(5)] l(1-3) s
  show "\<exists>as l l'. cloud_run lib_example as (cloud_life modem_world) = Some l \<and> p_main l = Serving \<and>
      cloud_do lib_example (CForward [1]) l = Some l' \<and> cloud_ub l' = None"
    by (intro exI [of _ as] exI [of _ l] exI [of _ l']) simp
qed

theorem cloud_start_race_witness:
  "\<exists>as l. cloud_run lib_example as (cloud_life modem_world) = Some l \<and> cloud_ub l = Some NullDeref"
proof -
  obtain c where c: "run_state (prepare (lib_rf lib_example) (lib_n lib_example)) (cloud (cloud_life modem_world)) = (Some True, c)"
    "app_ub (svc c) = None" using modem_prepares by (auto simp: lib_example_def)
  from cloud_start_race [OF modem_before c, of "[0]"] show ?thesis by blast
qed

theorem stop_and_connection_witness:
  "\<exists>as l. cloud_run lib_example as (cloud_life modem_world) = Some l \<and> cloud_ub l = Some UseAfterFree"
proof -
  obtain as l where l: "cloud_run lib_example as (cloud_life modem_world) = Some l" "p_main l = Serving" "c_running (cloud l)" "p_timer l = L_loop"
    "p_event l = K_check" "p_down l = K_check" "cloud_ub l = None" "timers_inv lib_example l" "\<not> is_connected (client (svc (cloud l)))"
    "base (client (svc (cloud l))) = Some 0" "conns (net l) = [CLoop 0]" "senders (net l) = []" "freed (net l) = []" "conn_runs l"
    "queue_inv 1400 (tx_queue (client (svc (cloud l))))" using modem_serving by blast
  from joined_run [OF l(2-8)] obtain bs l' where l': "cloud_run lib_example bs l = Some l'" "p_main l' = Download_gone" "cloud_ub l' = None"
    "svc (cloud l') = svc (cloud l)" "net l' = net l" "conn_runs l' = conn_runs l" by blast
  note r = run_acts_trans [OF l(1) l'(1)]
  from stop_and_connection [OF modem_before r l'(2,3), of 0] l l' obtain l1 l2 where
    "cloud_run lib_example [CMain, CMain] l' = Some l1" "cloud_do lib_example (CNet EvError) l1 = Some l2" "cloud_ub l2 = Some UseAfterFree"
    by auto
  then have "cloud_run lib_example ([CMain, CMain] @ [CNet EvError]) l' = Some l2" by (simp add: run_acts_append del: append.simps)
  with run_acts_trans [OF r this] \<open>cloud_ub l2 = Some UseAfterFree\<close> show ?thesis by blast
qed

theorem cloud_stop_request_witness:
  "\<exists>as l. cloud_run lib_example as (cloud_life modem_world) = Some l \<and> p_main l = Download_gone \<and> all_ended l"
proof -
  obtain as l where l: "cloud_run lib_example as (cloud_life modem_world) = Some l" "p_main l = Serving" "c_running (cloud l)" "p_timer l = L_loop"
    "p_event l = K_check" "p_down l = K_check" "cloud_ub l = None" using modem_serving by blast
  let ?l = "goto Stopping (set_running False l)"
  have "cloud_run lib_example [CMain] l = Some ?l" using l(2-) by (simp add: cloud_do_def cloud_main_step_def)
  from run_acts_trans [OF l(1) this] have r: "cloud_run lib_example (as @ [CMain]) (cloud_life modem_world) = Some ?l" .
  have a: "alloc_ok (lib_timers lib_example)" "finite (dom (fst (ev_list (cloud (cloud_life modem_world)))))"
    by (simp_all add: lib_example_def first_free_ok cloud_life_def cloud_example_def)
  from cloud_stop_request [OF modem_before a r] l obtain bs l' where "cloud_run lib_example bs ?l = Some l'" "p_main l' = Download_gone" "all_ended l'"
    by auto
  with run_acts_trans [OF r this(1)] show ?thesis by blast
qed

lemma lib_example_port: "lib_rf lib_example = 7" "lib_n lib_example = 1"
  by (simp_all add: lib_example_def)


end
