(* ===== verification/Program.thy ===== *)
theory Program
  imports Startup
begin

text \<open>
  \<open>main\<close> as a whole: its start (theory \<open>Startup\<close>), the thread that waits for SIGINT or SIGTERM on an event loop of its
  own, which \<open>main\<close> joins, its stop, and the exit code.
\<close>

subsection \<open>The signal thread\<close>

definition SIGINT :: int where "SIGINT = 2"
definition SIGTERM :: int where "SIGTERM = 15"

definition signal_handler :: "int \<Rightarrow> nat \<Rightarrow> unit io" where
  "signal_handler sig evb = tell (Evt (EvLoopExit evb))"

text \<open>\<open>event_base_dispatch\<close> answers the signal it hands to the handler, or 0 when it ends without one.\<close>

definition signal_loop :: "nat \<Rightarrow> unit io" where
  "signal_loop evb = do {
     a \<leftarrow> call (Evt (EvWait evb));
     if vl a = SIGINT \<or> vl a = SIGTERM then signal_handler (vl a) evb else ret () }"

definition event_task_entry :: "unit io" where
  "event_task_entry = do {
     b \<leftarrow> call_handle (Evt EvBaseNew);
     case b of None \<Rightarrow> ret ()
     | Some evb \<Rightarrow> do {
         i \<leftarrow> call_handle (Evt (EvSignalNew evb SIGINT));
         case i of None \<Rightarrow> tell (Evt (EvBaseFree evb))
         | Some sigint \<Rightarrow> do {
             tell (Evt (EvAdd sigint));
             t \<leftarrow> call_handle (Evt (EvSignalNew evb SIGTERM));
             case t of None \<Rightarrow> do { tell (Evt (EvFree sigint)); tell (Evt (EvBaseFree evb)) }
             | Some sigterm \<Rightarrow> do {
                 tell (Evt (EvAdd sigterm));
                 signal_loop evb;
                 tell (Evt (EvFree sigint));
                 tell (Evt (EvFree sigterm));
                 tell (Evt (EvBaseFree evb)) } } } }"

text \<open>What the creations in a trace that starts at position \<open>n\<close> have to be matched by.\<close>

fun to_release :: "nat \<Rightarrow> event list \<Rightarrow> request list" where
  "to_release n [] = []"
| "to_release n ((r, a) # es) =
     (if rc a = 0 then []
      else case r of Evt EvBaseNew \<Rightarrow> [Evt (EvBaseFree n)] | Evt (EvSignalNew _ _) \<Rightarrow> [Evt (EvFree n)] | _ \<Rightarrow> [])
     @ to_release (Suc n) es"

fun waits :: "event \<Rightarrow> bool" where
  "waits (Evt (EvWait _), _) = True"
| "waits _ = False"



subsection \<open>main\<close>

text \<open>\<open>main\<close>: its exit code, \<open>None\<close> when the modem's fuel does not suffice.\<close>

definition main_run :: "(string \<Rightarrow> string) \<Rightarrow> nat \<Rightarrow> nat \<Rightarrow> int option cloud" where
  "main_run beyond rf n = do {
     r \<leftarrow> main_start beyond rf n;
     case r of None \<Rightarrow> State_Monad.return None
     | Some code \<Rightarrow>
         if code \<noteq> 0 then State_Monad.return (Some code)
         else do {
           svc_do (io event_task_entry);
           ok \<leftarrow> main_stop rf n;
           State_Monad.return (if ok then Some 0 else None) } }"

text \<open>A context \<open>main\<close> has cleared: nothing started.\<close>

definition all_stopped :: "Cloud \<Rightarrow> bool" where
  "all_stopped c \<longleftrightarrow> \<not> c_running c \<and> \<not> cloud_set (svc c) \<and> \<not> is_running (svc c) \<and> \<not> fkz9_set (svc c) \<and>
     set (threads c) \<subseteq> {TcpConnectThread}"

text \<open>What says which service runs.\<close>

definition unit_flags :: "App \<Rightarrow> bool \<times> bool" where
  "unit_flags a = (is_running a, fkz9_set a)"

definition services :: "Cloud \<Rightarrow> bool \<times> bool \<times> cloud_thread list \<times> bool \<times> bool" where
  "services c = (c_running c, cloud_set (svc c), threads c, unit_flags (svc c))"

lemma all_stopped_services:
  "all_stopped c \<longleftrightarrow> (\<exists>ts. services c = (False, False, ts, False, False) \<and> set ts \<subseteq> {TcpConnectThread})"
  by (auto simp: all_stopped_def services_def unit_flags_def)

lemma leds_keep: "services (snd (run_state leds_stop c)) = services c" "services (snd (run_state (leds_start beyond) c)) = services c"
  by (simp_all add: services_def unit_flags_def leds_stop_def leds_start_def io_def case_prod_beta)

lemma io_keeps: "services (snd (run_state (svc_do (io m)) c)) = services c"
  by (simp add: services_def unit_flags_def io_def case_prod_beta)

lemma before_keeps: "services (snd (run_state (before_services beyond) c)) = services c"
  by (simp add: before_services_def services_def unit_flags_def leds_start_def io_def gets_def modify_def case_prod_beta)

lemma before_value:
  "run_state (before_services beyond) c = (x, d) \<Longrightarrow>
     let i = run_state (init_updater_environment (base_info (svc c))) (wld (svc c)) in
     if fst (fst i) = 0 then x = 0 else x = -1 \<and> (\<exists>b. d = c\<lparr> svc := (svc c)\<lparr> wld := snd i, base_info := b \<rparr> \<rparr>)"
  by (auto simp: before_services_def io_def gets_def modify_def case_prod_beta Let_def split: if_splits)

lemma unit_started: "let a' = snd (run_state fkz9_comm_init a) in
    cloud_set a' = cloud_set a \<and> (unit_flags a' = unit_flags a \<or> unit_flags a' = (True, True))"
  by (simp add: fkz9_comm_init_def unit_flags_def io_def modify_def case_prod_beta Let_def split: option.split)

lemma unit_stopped: "let a' = snd (run_state fkz9_comm_uninit a) in
    cloud_set a' = cloud_set a \<and> (unit_flags a = (False, False) \<or> is_running a \<longrightarrow> unit_flags a' = (False, False))"
  by (auto simp: fkz9_comm_uninit_def unit_flags_def io_def gets_def modify_def fault_app_def case_prod_beta Let_def split: sum.split)

lemma cloud_started:
  assumes "run_state (clound_comm_init rf n) c = (ok, c')"
  shows "unit_flags (svc c') = unit_flags (svc c) \<and>
    (c_running c' = c_running c \<and> cloud_set (svc c') = cloud_set (svc c) \<and> threads c' = threads c \<or>
     c_running c' \<and> cloud_set (svc c') \<and> threads c' = threads c @ [TcpConnectThread, TimerThread, EventThread, DownloadThread])"
  using assms
  by (auto simp: clound_comm_init_def unit_flags_def io_def case_prod_beta start_client_def cloud_server_def split: option.splits if_splits)

lemma cloud_stopped:
  assumes "run_state (clound_comm_uninit rf n) c = (True, c')"
  shows "unit_flags (svc c') = unit_flags (svc c) \<and> \<not> c_running c' \<and>
    (c_running c \<longrightarrow> \<not> cloud_set (svc c') \<and> set (threads c') \<subseteq> {TcpConnectThread}) \<and>
    (\<not> c_running c \<longrightarrow> c' = c)"
  using assms
  by (auto simp: clound_comm_uninit_def unit_flags_def stop_client_def io_def gets_def modify_def fault_app_def case_prod_beta
      split: option.splits if_splits sum.splits)

lemma started_services:
  assumes "run_state (main_start beyond rf n) c = (Some 0, c')" "all_stopped c"
  shows "(c_running c' \<and> cloud_set (svc c') \<or> \<not> c_running c' \<and> \<not> cloud_set (svc c') \<and> set (threads c') \<subseteq> {TcpConnectThread}) \<and>
    (unit_flags (svc c') = (False, False) \<or> unit_flags (svc c') = (True, True))"
proof -
  let ?c = "snd (run_state (before_services beyond) c)"
  obtain ok c2 where c2: "run_state (clound_comm_init rf n) ?c = (ok, c2)"
    and c': "c' = c2\<lparr> svc := snd (run_state fkz9_comm_init (svc c2)) \<rparr>"
    using assms(1) by (cases "run_state (clound_comm_init rf n) ?c") (auto simp: main_start_def case_prod_beta split: if_splits)
  have "all_stopped ?c" using assms(2) before_keeps [of beyond c] by (simp add: all_stopped_services)
  with cloud_started [OF c2] have 2: "unit_flags (svc c2) = (False, False)"
    "c_running c2 \<and> cloud_set (svc c2) \<or> \<not> c_running c2 \<and> \<not> cloud_set (svc c2) \<and> set (threads c2) \<subseteq> {TcpConnectThread}"
    by (auto simp: all_stopped_def unit_flags_def)
  with unit_started [of "svc c2"] c' show ?thesis by (auto simp: Let_def)
qed

lemma main_stop_stops:
  assumes "run_state (main_stop rf n) c = (True, c')"
    and "c_running c \<and> cloud_set (svc c) \<or> \<not> c_running c \<and> \<not> cloud_set (svc c) \<and> set (threads c) \<subseteq> {TcpConnectThread}"
    and "unit_flags (svc c) = (False, False) \<or> unit_flags (svc c) = (True, True)"
  shows "all_stopped c'"
proof -
  obtain e where e: "run_state (clound_comm_uninit rf n) c = (True, e)"
    and c': "c' = snd (run_state leds_stop (snd (run_state (svc_do (io (tell (Curl CurlGlobalCleanup))))
      (snd (run_state (svc_do fkz9_comm_uninit) e)))))"
    using assms(1)
    by (cases "run_state (clound_comm_uninit rf n) c") (auto simp: main_stop_def case_prod_beta simp del: run_svc_do split: if_splits)
  have "services c' = services (snd (run_state (svc_do fkz9_comm_uninit) e))" unfolding c' by (simp only: leds_keep io_keeps)
  moreover have "all_stopped (snd (run_state (svc_do fkz9_comm_uninit) e))"
    using assms(2,3) cloud_stopped [OF e] unit_stopped [of "svc e"] by (auto simp: all_stopped_def unit_flags_def Let_def)
  ultimately show ?thesis by (simp add: all_stopped_services)
qed


text \<open>A unit that answers, with neither modem nor LEDs nor event loop: the services do not start, and \<open>main\<close> returns 0 at once.\<close>

definition unit_world :: world where
  "unit_world = quiet_world\<lparr> env := \<lambda>_ r. \<lparr> rc = (if r = Ssh SshNew \<or> r = Sftp (SftpNew 0) \<or> (\<exists>s. r = Ssh (ChanNew s)) then 1
     else if \<exists>u i. r = Mqtt (MqttCreate u i) then -1 else 0),
     vl = 0, out = (if \<exists>ch cmd. r = Ssh (ChanExec ch cmd) then [''updater.sh''] else []) \<rparr> \<rparr>"

definition cleared_cloud :: Cloud where
  "cleared_cloud = cloud_example\<lparr> svc := (svc cloud_example)\<lparr> wld := unit_world, is_running := False, fkz9_set := False, base_info := cleared_info \<rparr> \<rparr>"

lemma unit_answer:
  "c_str ''updater.sh'' = ''updater.sh''" "first_line ''updater.sh'' = ''updater.sh''" "contains ''updater.sh'' ''updater.sh''"
  "sscanf dev_info_format ''updater.sh'' = []"
  by code_simp+

lemma ten_tries: "connect_tries 10 c = do {
     (r, c) \<leftarrow> SSHClient_Connect c;
     if r = 0 then ret c else do { tell (Sys Sleep); connect_tries 9 c } }"
proof -
  have "(10::nat) = Suc 9" by simp
  then show ?thesis by (simp only: connect_tries.simps)
qed

lemma unit_prepared:
  "\<exists>w. ub w = None \<and> env w = env unit_world \<and> run_state (init_updater_environment cleared_info) unit_world = ((0, cleared_info), w)"
  by (simp add: init_updater_environment_def ten_tries SSHClient_Init_def SSHClient_Connect_def SSHClient_Execute_def SSHClient_Destroy_def
      unit_world_def unit_answer scan_dev_info_def scan_field_def check_io_def get_int_def get_str_def cleared_info_def)

text \<open>Neither LED opens its files, the modem is not found, the client for the unit is not created, the event loop is not either.\<close>

definition like_unit :: "world \<Rightarrow> bool" where
  "like_unit w \<longleftrightarrow> ub w = None \<and> env w = env unit_world"

lemma like_unit_call: "like_unit w \<Longrightarrow> like_unit (w\<lparr> trace := t \<rparr>)"
  by (simp add: like_unit_def)

lemma nothing_starts:
  assumes "like_unit w"
  shows "\<exists>w'. like_unit w' \<and> run_state (fx650_init rf n) w = (Some (FX650_ERR_INIT, \<lparr> x_uart = None, net_name = None, x_sim_id = [] \<rparr>), w')"
    and "\<exists>w'. like_unit w' \<and> run_state (mqtt_client_create cfg) w = (None, w')"
    and "\<exists>w'. like_unit w' \<and> run_state event_task_entry w = ((), w')"
    and "\<exists>w' g'. like_unit w' \<and> run_state (RUN_LED_INIT beyond g) w = (g', w')"
    and "\<exists>w' g'. like_unit w' \<and> run_state (FAULT_LED_INIT beyond g) w = (g', w')"
  using assms unfolding like_unit_def
  by (simp_all add: fx650_init_def find_interface_by_vid_pid_def mqtt_client_create_def mqtt_client_destroy_def event_task_entry_def unit_world_def
     RUN_LED_INIT_def FAULT_LED_INIT_def led_init_def GpioController_Init_def led_set_low_def led_set_high_def GpioController_SetValue_def Let_def)

lemma unit_before: "\<exists>d. run_state (before_services beyond) cleared_cloud = (0, d) \<and> like_unit (wld (svc d))"
proof -
  obtain w where w: "run_state (init_updater_environment cleared_info) unit_world = ((0, cleared_info), w)" "like_unit w"
    using unit_prepared by (auto simp: like_unit_def)
  let ?w = "snd (run_state (file_exists SELF_UPGRADE_FILE_PATH \<bind> (\<lambda>e. if e then system_run (snprintf 64 (''rm -f '' @ SELF_UPGRADE_FILE_PATH)) else ret 0)) w)"
  have "like_unit ?w" using w(2) by (simp add: like_unit_def file_exists_def system_run_def)
  from nothing_starts(4) [OF this] obtain w1 g1 where 1: "like_unit w1" "run_state (RUN_LED_INIT beyond (run_led cleared_cloud)) ?w = (g1, w1)" by blast
  from nothing_starts(5) [OF 1(1)] obtain w2 g2 where 2: "like_unit w2" "run_state (FAULT_LED_INIT beyond (fault_led cleared_cloud)) w1 = (g2, w2)" by blast
  have "like_unit (snd (run_state (tell (Curl CurlGlobalInit)) w2))" using 2(1) by (simp add: like_unit_def)
  with w(1) 1(2) 2(2) show ?thesis
    by (auto simp: before_services_def cleared_cloud_def leds_start_def io_def gets_def modify_def case_prod_beta)
qed

lemma unit_run: "\<exists>c'. run_state (main_run beyond rf n) cleared_cloud = (Some 0, c')"
proof -
  obtain d where d: "run_state (before_services beyond) cleared_cloud = (0, d)" "like_unit (wld (svc d))" using unit_before by blast
  have s: "services d = (False, False, [], False, False)"
    using before_keeps [of beyond cleared_cloud] d(1) by (simp add: services_def unit_flags_def cleared_cloud_def cloud_example_def app_example_def)
  obtain w x where x: "like_unit w" "run_state (fx650_init rf n) (wld (svc d)) = (Some (FX650_ERR_INIT, x), w)"
    using nothing_starts(1) [OF d(2)] by blast
  obtain w' where "like_unit w'" "run_state (mqtt_client_create fkz9_config) w = (None, w')" using nothing_starts(2) [OF x(1)] by blast
  with d(1) x(2) s show ?thesis
    by (auto simp: main_run_def main_start_def main_stop_def clound_comm_init_def clound_comm_uninit_def fkz9_comm_init_def fkz9_comm_uninit_def
        FX650_ERR_INIT_def FX650_OK_def io_def gets_def modify_def case_prod_beta services_def unit_flags_def)
qed


end
