(* ===== verification/Gateway.thy ===== *)
theory Gateway
  imports Fkz9Comm Steps "HOL-Library.Sublist"
begin

text \<open>
  The way of a frame from the unit to the cloud through both services: the MQTT callback and the event task of \<open>fkz9_comm.c\<close>, the client
  and the threads of \<open>tcp_client.c\<close>. The client structure is shared: a step of one side leaves it to the other. A step is a delivery by the
  MQTT library, a turn of the event task, or a step of the client's system (theory \<open>TcpClient\<close>), in any order.
\<close>

record gateway =
  gw_app :: App
  gw_net :: tcp_sys
  gw_buf :: bytes
  arrived :: "bytes list"

datatype gw_act = Arrive u8 bytes | Turn | Net tcp_act

text \<open>
  What the application changed goes to the client's system; \<open>accepted\<close>, which records what was put into the transmit queue, is
  continued by what the turn has appended.
\<close>

definition from_app :: "App \<Rightarrow> gateway \<Rightarrow> gateway" where
  "from_app a g = (let t = gw_net g in g\<lparr> gw_app := a,
     gw_net := t\<lparr> cl := client a, accepted := accepted t @ drop (length (contents (tx_queue (cl t)))) (contents (tx_queue (client a))) \<rparr> \<rparr>)"

definition from_net :: "tcp_sys \<Rightarrow> gateway \<Rightarrow> gateway" where
  "from_net t g = g\<lparr> gw_net := t, gw_app := (gw_app g)\<lparr> client := cl t \<rparr> \<rparr>"

definition is_send :: "tcp_act \<Rightarrow> bool" where
  "is_send a = (case a of Send _ \<Rightarrow> True | _ \<Rightarrow> False)"

text \<open>
  The unit delivers one frame at a time, whole and no heartbeat answer; nobody else sends to the cloud meanwhile, and no second sender thread
  is alive (theory \<open>TcpClient\<close> says what happens then). Frames damaged by the 16-bit sum may be among them.
\<close>

definition gw_step :: "gw_act \<Rightarrow> gateway \<Rightarrow> gateway option" where
  "gw_step act g = (if app_ub (gw_app g) \<noteq> None \<or> tcp_fault (gw_net g) \<noteq> None then None else case act of
     Arrive sign payload \<Rightarrow>
       if 1393 < length payload \<or> sign = MQTT_MSG_SIGN_HEARTBEAT_RESP then None
       else map_option (\<lambda>a. (from_app a g)\<lparr> arrived := arrived g @ [frame sign payload] \<rparr>) (on_message_cb id 0 (frame sign payload) (gw_app g))
   | Turn \<Rightarrow> (case run_state (fkz9_event_turn (gw_buf g)) (gw_app g) of (buf, a) \<Rightarrow> Some ((from_app a g)\<lparr> gw_buf := buf \<rparr>))
   | Net a \<Rightarrow> if is_send a \<or> \<not> tcp_enabled a (gw_net g) \<or> 1 < length (senders (tcp_do a (gw_net g))) then None
              else Some (from_net (tcp_do a (gw_net g)) g))"

abbreviation gw_run :: "gw_act list \<Rightarrow> gateway \<Rightarrow> gateway option" where
  "gw_run \<equiv> run_acts gw_step"

text \<open>Both services are started, the client is connecting for the first time.\<close>

definition gw_start :: "App \<Rightarrow> tcp_sys \<Rightarrow> gateway" where
  "gw_start a t = \<lparr> gw_app = a\<lparr> client := cl t \<rparr>, gw_net = t, gw_buf = replicate 1500 0, arrived = [] \<rparr>"

subsection \<open>A turn of the event task\<close>

definition forwardable :: "bytes \<Rightarrow> bool" where
  "forwardable m \<longleftrightarrow> (\<exists>sign payload. m = frame sign payload \<and> length payload \<le> 1393 \<and> sign \<noteq> MQTT_MSG_SIGN_HEARTBEAT_RESP)"

text \<open>The frame goes to the transmit queue when its sum passes the check, the link is up and there is room; otherwise it is lost.\<close>

definition passes :: "bytes \<Rightarrow> TcpClient \<Rightarrow> bool" where
  "passes m c \<longleftrightarrow> fkz9_check m = Inr True \<and> is_connected c \<and> length (contents (tx_queue c)) < 63"

lemma turn_frame:
  assumes "queue_inv 1400 (fkz9_queue s)" "contents (fkz9_queue s) = m # ms" "forwardable m" "length buf = 1500" "cloud_set s"
    and "queue_inv 1400 (tx_queue (client s))"
  shows "\<exists>q c. run_state (fkz9_event_turn buf) s = (m @ drop (length m) buf, s\<lparr> fkz9_queue := q, client := c \<rparr>) \<and>
     queue_inv 1400 q \<and> contents q = ms \<and>
     (if passes m (client s) then \<exists>x. c = (client s)\<lparr> tx_queue := x \<rparr> \<and> queue_inv 1400 x \<and> contents x = contents (tx_queue (client s)) @ [m]
      else c = client s)"
proof -
  obtain sign payload where m: "m = frame sign payload" "length payload \<le> 1393" "sign \<noteq> MQTT_MSG_SIGN_HEARTBEAT_RESP"
    using assms(3) by (auto simp: forwardable_def)
  let ?b = "m @ drop (length m) buf"
  obtain q where q: "dequeue (fkz9_queue s) buf 0 = Inr (0, ?b, length m, q)" "queue_inv 1400 q" "contents q = ms"
    by (rule dequeue_put_back [OF assms(1,2,4)])
  have chk: "fkz9_check ?b = Inr (frame_sum sign payload < 0x8000)" "fkz9_check m = Inr (frame_sum sign payload < 0x8000)"
    using frame_checks [of payload sign] frame_checks [of payload sign "[]"] m(2) unfolding m(1) by simp_all
  have len: "frame_len ?b = 7 + length payload" "ucSign (MsgFramHdr_at ?b) = sign" "length ?b = 1500" "take (7 + length payload) ?b = m"
    using m(2) assms(4) unfolding m(1) by simp_all
  let ?s = "s\<lparr> fkz9_queue := q \<rparr>"
  show ?thesis
  proof (cases "fkz9_check m = Inr True \<and> is_connected (client s)")
    case False
    then have no: "\<not> passes m (client s)" by (auto simp: passes_def)
    show ?thesis
    proof (cases "frame_sum sign payload < 0x8000")
      case True
      with False chk(2) have down: "\<not> is_connected (client s)" by simp
      have "run_state (fkz9_event_turn buf) s = (?b, ?s\<lparr> client := client s \<rparr>)"
        using q(1) chk(1) True len m(3) assms(5) client_send_disconnected [of ?s ?b "7 + length payload"] down
        by (simp add: fkz9_event_turn_def fkz9_msg_fw_to_cloud_entry_def gp_cloud_send_def)
      with q no show ?thesis by (intro exI [of _ q] exI [of _ "client s"]) simp
    next
      case False
      have "run_state (fkz9_event_turn buf) s = (?b, ?s\<lparr> client := client s \<rparr>)"
        using q(1) chk(1) False by (simp add: fkz9_event_turn_def)
      with q no show ?thesis by (intro exI [of _ q] exI [of _ "client s"]) simp
    qed
  next
    case True
    then have sum: "frame_sum sign payload < 0x8000" using chk(2) by simp
    show ?thesis
    proof (cases "length (contents (tx_queue (client s))) < 63")
      case room: True
      from client_send_connected [of ?s "7 + length payload" ?b] assms(6) True room len(3) m(2) obtain x where
        x: "run_state (client_send ?b (7 + length payload)) ?s = (0, ?s\<lparr> client := (client s)\<lparr> tx_queue := x \<rparr> \<rparr>)"
        "queue_inv 1400 x" "contents x = contents (tx_queue (client s)) @ [m]" unfolding len(4) by auto
      have "run_state (fkz9_event_turn buf) s = (?b, ?s\<lparr> client := (client s)\<lparr> tx_queue := x \<rparr> \<rparr>)"
        using q(1) chk(1) sum len m(3) assms(5) x(1)
        by (simp add: fkz9_event_turn_def fkz9_msg_fw_to_cloud_entry_def gp_cloud_send_def)
      with q x room True show ?thesis by (intro exI [of _ q] exI [of _ "(client s)\<lparr> tx_queue := x \<rparr>"]) (auto simp: passes_def)
    next
      case full: False
      then have "count (tx_queue (client s)) = 63" using ring.within_cap [OF assms(6)] by simp
      from enqueue_full [OF assms(6) this] True have
        "run_state (client_send ?b (7 + length payload)) ?s = (-1, ?s\<lparr> client := client s \<rparr>)"
        by (simp add: client_send_def tcp_client_send_def)
      then have "run_state (fkz9_event_turn buf) s = (?b, ?s\<lparr> client := client s \<rparr>)"
        using q(1) chk(1) sum len m(3) assms(5)
        by (simp add: fkz9_event_turn_def fkz9_msg_fw_to_cloud_entry_def gp_cloud_send_def)
      with q full show ?thesis by (intro exI [of _ q] exI [of _ "client s"]) (auto simp: passes_def)
    qed
  qed
qed

lemma turn_empty:
  "queue_inv 1400 (fkz9_queue s) \<Longrightarrow> contents (fkz9_queue s) = [] \<Longrightarrow> run_state (fkz9_event_turn buf) s = (buf, s)"
  by (simp add: fkz9_event_turn_def dequeue_empty)

subsection \<open>What every step keeps\<close>

definition gw_inv :: "nat \<Rightarrow> gateway \<Rightarrow> bool" where
  "gw_inv n g \<longleftrightarrow> client (gw_app g) = cl (gw_net g) \<and> tcp_inv n (gw_net g) \<and> in_order (gw_net g) \<and> length (gw_buf g) = 1500 \<and>
     cloud_set (gw_app g) \<and> fkz9_set (gw_app g) \<and> app_ub (gw_app g) = None \<and> queue_inv 1400 (fkz9_queue (gw_app g)) \<and>
     (\<forall>m \<in> set (contents (fkz9_queue (gw_app g))). forwardable m) \<and>
     subseq (accepted (gw_net g) @ contents (fkz9_queue (gw_app g))) (arrived g)"

lemma accepted_kept: "\<not> is_send a \<Longrightarrow> accepted (tcp_do a t) = accepted t"
proof (cases a)
  case (ConnSetup i r)
  then show ?thesis by (cases r) (simp_all add: conn_setup_def Let_def)
next
  case (SenderStep i)
  then show ?thesis by (auto simp: sender_step_def crash_def split: send_pc.split sum.split option.split)
qed (auto simp: is_send_def tcp_cb_defs conn_free_def crash_def split: sum.split option.split)

lemma delivered_frame:
  assumes "fkz9_set s" "queue_inv 1400 (fkz9_queue s)" "length payload \<le> 1393" "sign \<noteq> MQTT_MSG_SIGN_HEARTBEAT_RESP"
  shows "\<exists>q. on_message_cb id 0 (frame sign payload) s = Some (s\<lparr> fkz9_queue := q \<rparr>) \<and> queue_inv 1400 q \<and>
     (contents q = contents (fkz9_queue s) @ [frame sign payload] \<or> contents q = contents (fkz9_queue s))"
proof (cases "sign = MQTT_MSG_SIGN_HEARTBEAT_REQ")
  case True
  then show ?thesis using assms(2) by (intro exI [of _ "fkz9_queue s"]) (simp add: on_message_cb_def route_message_def sizeof_MsgFramHdr_def)
next
  case False
  have route: "route_message (frame sign payload) = Inr Queued"
    using False assms(3) by (simp add: route_message_def sizeof_MsgFramHdr_def)
  have "length (frame sign payload) \<le> 1400" using assms(3) by simp
  from assms(2) this show ?thesis
  proof (cases rule: ring.enq_cases)
    case (1 q')
    with route assms(1) show ?thesis by (intro exI [of _ q']) (simp add: on_message_cb_def queue_put_def del: length_frame)
  next
    case 2
    with route assms(1,2) show ?thesis by (intro exI [of _ "fkz9_queue s"]) (simp add: on_message_cb_def queue_put_def del: length_frame)
  qed
qed

lemma start_in_order: "in_order (tcp_start ip p n)"
  using tcp_calm_in_order [OF tcp_calm.start] by blast

lemma from_app_same: "client a = cl (gw_net g) \<Longrightarrow> from_app a g = g\<lparr> gw_app := a \<rparr>"
  by (cases "gw_net g"; cases g) (simp add: from_app_def)

lemma arrive_keeps:
  assumes "gw_inv n g" "gw_step (Arrive sign payload) g = Some g'"
  shows "gw_inv n g'"
proof -
  let ?m = "frame sign payload" and ?s = "gw_app g"
  from assms have g: "length payload \<le> 1393" "sign \<noteq> MQTT_MSG_SIGN_HEARTBEAT_RESP" "fkz9_set ?s" "queue_inv 1400 (fkz9_queue ?s)"
    and step: "map_option (\<lambda>a. (from_app a g)\<lparr> arrived := arrived g @ [?m] \<rparr>) (on_message_cb id 0 ?m ?s) = Some g'"
    by (auto simp: gw_inv_def gw_step_def split: if_splits)
  obtain q where q: "on_message_cb id 0 ?m ?s = Some (?s\<lparr> fkz9_queue := q \<rparr>)" "queue_inv 1400 q"
    "contents q = contents (fkz9_queue ?s) @ [?m] \<or> contents q = contents (fkz9_queue ?s)"
    using delivered_frame [OF g(3,4,1,2)] by blast
  have "forwardable ?m" using g by (auto simp: forwardable_def)
  with q(3) assms(1) have fw: "\<forall>m \<in> set (contents q). forwardable m" by (auto simp: gw_inv_def)
  have "subseq (accepted (gw_net g) @ contents (fkz9_queue ?s)) (arrived g)" using assms(1) by (simp add: gw_inv_def)
  with q(3) list_emb_append_mono [OF this, of "[?m]" "[?m]"] list_emb_append_mono [OF this, of "[]" "[?m]"]
  have "subseq (accepted (gw_net g) @ contents q) (arrived g @ [?m])" by auto
  moreover have "g' = g\<lparr> gw_app := ?s\<lparr> fkz9_queue := q \<rparr>, arrived := arrived g @ [?m] \<rparr>"
    using step q(1) assms(1) from_app_same [of "?s\<lparr> fkz9_queue := q \<rparr>" g] by (simp add: gw_inv_def)
  ultimately show ?thesis using assms(1) q(2) fw by (simp add: gw_inv_def app_ub_def)
qed

lemma turn_keeps:
  assumes "gw_inv n g" "gw_step Turn g = Some g'"
  shows "gw_inv n g'"
proof (cases "contents (fkz9_queue (gw_app g))")
  case Nil
  with assms turn_empty [of "gw_app g" "gw_buf g"] from_app_same [of "gw_app g" g] have "g' = g"
    by (cases g) (simp add: gw_inv_def gw_step_def split: if_splits)
  with assms(1) show ?thesis by simp
next
  case (Cons m ms)
  let ?s = "gw_app g" and ?t = "gw_net g"
  from assms(1) have i: "client ?s = cl ?t" "tcp_inv n ?t" "in_order ?t" "length (gw_buf g) = 1500" "cloud_set ?s" "fkz9_set ?s" "app_ub ?s = None"
    "queue_inv 1400 (fkz9_queue ?s)" "forwardable m" "\<forall>m \<in> set ms. forwardable m" "subseq (accepted ?t @ m # ms) (arrived g)"
    using Cons by (simp_all add: gw_inv_def)
  then have tx: "queue_inv 1400 (tx_queue (client ?s))" by (simp add: tcp_inv_def)
  obtain q c where run: "run_state (fkz9_event_turn (gw_buf g)) ?s = (m @ drop (length m) (gw_buf g), ?s\<lparr> fkz9_queue := q, client := c \<rparr>)"
    and q: "queue_inv 1400 q" "contents q = ms"
    and c: "if passes m (client ?s) then \<exists>x. c = (client ?s)\<lparr> tx_queue := x \<rparr> \<and> queue_inv 1400 x \<and> contents x = contents (tx_queue (client ?s)) @ [m]
      else c = client ?s"
    using turn_frame [OF i(8) Cons i(9,4,5) tx] by blast
  have g': "g' = (from_app (?s\<lparr> fkz9_queue := q, client := c \<rparr>) g)\<lparr> gw_buf := m @ drop (length m) (gw_buf g) \<rparr>"
    using assms(2) run by (simp add: gw_step_def split: if_splits)
  have len: "length (m @ drop (length m) (gw_buf g)) = 1500" using i(4,9) by (auto simp: forwardable_def)
  show ?thesis
  proof (cases "passes m (client ?s)")
    case True
    with c obtain x where x: "c = (client ?s)\<lparr> tx_queue := x \<rparr>" "queue_inv 1400 x" "contents x = contents (tx_queue (client ?s)) @ [m]" by auto
    let ?t' = "?t\<lparr> cl := (cl ?t)\<lparr> tx_queue := x \<rparr>, accepted := accepted ?t @ [m] \<rparr>"
    have "g' = g\<lparr> gw_app := ?s\<lparr> fkz9_queue := q, client := cl ?t' \<rparr>, gw_net := ?t', gw_buf := m @ drop (length m) (gw_buf g) \<rparr>"
      unfolding g' from_app_def Let_def x(1) i(1) using x(3) i(1) by simp
    moreover have "tcp_inv n ?t'" using i(2) x(2) ring.within_cap [OF x(2)] by (simp add: tcp_inv_def)
    moreover have "in_order ?t'"
    proof -
      have "wire ?t @ held (senders ?t) @ contents (tx_queue (cl ?t)) @ [m] = accepted ?t @ [m]"
        using i(3) by (simp add: in_order_def flip: append_assoc)
      then show ?thesis using i(1,3) x(3) by (simp add: in_order_def)
    qed
    ultimately show ?thesis using i(5,6,7,10,11) len q by (simp add: gw_inv_def app_ub_def)
  next
    case False
    with c have "c = cl ?t" using i(1) by simp
    with g' i(1) from_app_same [of "?s\<lparr> fkz9_queue := q, client := c \<rparr>" g]
    have "g' = g\<lparr> gw_app := ?s\<lparr> fkz9_queue := q, client := c \<rparr>, gw_buf := m @ drop (length m) (gw_buf g) \<rparr>" by simp
    moreover have "subseq (accepted ?t @ ms) (arrived g)"
      by (rule subseq_order.trans [OF _ i(11)]) (intro list_emb_append_mono list_emb_Cons subseq_order.order_refl)
    ultimately show ?thesis using i len q \<open>c = cl ?t\<close> by (simp add: gw_inv_def app_ub_def)
  qed
qed

interpretation gw: stepwise gw_step "gw_inv n" for n
proof
  fix g g' act
  assume inv: "gw_inv n g" and step: "gw_step act g = Some g'"
  show "gw_inv n g'"
  proof (cases act)
    case (Net a)
    from step Net have a: "\<not> is_send a" "tcp_enabled a (gw_net g)" "length (senders (tcp_do a (gw_net g))) \<le> 1"
      and g': "g' = from_net (tcp_do a (gw_net g)) g" by (auto simp: gw_step_def split: if_splits)
    show ?thesis
      using inv tcp_do_inv [of n "gw_net g" a] tcp_do_in_order [of n "gw_net g" a] a accepted_kept [OF a(1), of "gw_net g"]
      by (simp add: g' gw_inv_def from_net_def app_ub_def)
  qed (use inv step arrive_keeps turn_keeps in blast)+
qed

text \<open>The services as their starts leave them.\<close>

definition services_up :: "App \<Rightarrow> bool" where
  "services_up a \<longleftrightarrow> cloud_set a \<and> fkz9_set a \<and> app_ub a = None \<and> queue_inv 1400 (fkz9_queue a) \<and> contents (fkz9_queue a) = []"

lemma gw_start_inv: "services_up a \<Longrightarrow> gw_inv n (gw_start a (tcp_start ip p n))"
  using tcp_start_inv [of n ip p] start_in_order [of ip p n]
  by (simp add: gw_inv_def gw_start_def services_up_def app_ub_def) (simp add: tcp_start_def)


subsection \<open>Frames do arrive\<close>

text \<open>The link is up and its one sender thread is at the head of its loop, with a transport that is alive.\<close>

definition sender_ready :: "tcp_sys \<Rightarrow> bool" where
  "sender_ready t \<longleftrightarrow> tcp_fault t = None \<and> is_connected (cl t) \<and> senders t = [SLoop] \<and> (\<exists>b. bev (cl t) = Some b \<and> b \<notin> set (freed t))"

lemma turns:
  assumes "gw_inv n g" "sender_ready (gw_net g)" "\<forall>m \<in> set (contents (fkz9_queue (gw_app g))). fkz9_check m = Inr True"
    and "length (contents (tx_queue (cl (gw_net g)))) + length (contents (fkz9_queue (gw_app g))) \<le> 63"
  shows "\<exists>g' x acc. gw_run (replicate (length (contents (fkz9_queue (gw_app g)))) Turn) g = Some g' \<and> contents (fkz9_queue (gw_app g')) = [] \<and>
     gw_net g' = (gw_net g)\<lparr> cl := (cl (gw_net g))\<lparr> tx_queue := x \<rparr>, accepted := acc \<rparr> \<and>
     contents x = contents (tx_queue (cl (gw_net g))) @ contents (fkz9_queue (gw_app g))"
  using assms
proof (induction "contents (fkz9_queue (gw_app g))" arbitrary: g)
  case Nil
  then show ?case by (intro exI [of _ g] exI [of _ "tx_queue (cl (gw_net g))"] exI [of _ "accepted (gw_net g)"])
      (cases "gw_net g", simp flip: length_contents)
next
  case (Cons m ms)
  let ?s = "gw_app g" and ?t = "gw_net g"
  note cont = Cons.hyps(2) [symmetric]
  from Cons.prems(1) cont have i: "client ?s = cl ?t" "length (gw_buf g) = 1500" "cloud_set ?s" "app_ub ?s = None"
    "queue_inv 1400 (fkz9_queue ?s)" "forwardable m" "queue_inv 1400 (tx_queue (client ?s))"
    by (simp_all add: gw_inv_def tcp_inv_def)
  have pass: "passes m (client ?s)"
    using Cons.prems(2-4) unfolding i(1) cont by (simp add: passes_def sender_ready_def)
  obtain q x where run: "run_state (fkz9_event_turn (gw_buf g)) ?s = (m @ drop (length m) (gw_buf g), ?s\<lparr> fkz9_queue := q, client := (client ?s)\<lparr> tx_queue := x \<rparr> \<rparr>)"
    and q: "queue_inv 1400 q" "contents q = ms" and x: "contents x = contents (tx_queue (client ?s)) @ [m]"
    using turn_frame [OF i(5) cont i(6,2,3,7)] pass by auto
  let ?t' = "?t\<lparr> cl := (cl ?t)\<lparr> tx_queue := x \<rparr>, accepted := accepted ?t @ [m] \<rparr>"
  let ?g = "g\<lparr> gw_app := ?s\<lparr> fkz9_queue := q, client := cl ?t' \<rparr>, gw_net := ?t', gw_buf := m @ drop (length m) (gw_buf g) \<rparr>"
  have step: "gw_step Turn g = Some ?g"
    using run i(1,4) Cons.prems(2) x by (simp add: gw_step_def from_app_def sender_ready_def Let_def)
  have "gw_inv n ?g" by (rule gw.step_keeps [OF Cons.prems(1) step])
  moreover have "sender_ready (gw_net ?g)" using Cons.prems(2) by (simp add: sender_ready_def)
  ultimately obtain g' y acc where r: "gw_run (replicate (length ms) Turn) ?g = Some g'" "contents (fkz9_queue (gw_app g')) = []"
    "gw_net g' = ?t'\<lparr> cl := (cl ?t')\<lparr> tx_queue := y \<rparr>, accepted := acc \<rparr>" "contents y = contents x @ ms"
    using Cons.hyps(1) [of ?g] q Cons.prems(3,4) x i(1) cont by (auto simp flip: length_contents)
  have "gw_run (replicate (length (contents (fkz9_queue ?s))) Turn) g = Some g'" using step r(1) cont by (simp del: length_contents)
  with r x i(1) cont show ?case
    by (intro exI [of _ g'] exI [of _ y] exI [of _ acc]) simp
qed

lemma drain:
  assumes "gw_inv n g" "sender_ready (gw_net g)"
  shows "\<exists>g'. gw_run (replicate (2 * length (contents (tx_queue (cl (gw_net g))))) (Net (SenderStep 0))) g = Some g' \<and>
     wire (gw_net g') = wire (gw_net g) @ contents (tx_queue (cl (gw_net g))) \<and> contents (tx_queue (cl (gw_net g'))) = [] \<and>
     fkz9_queue (gw_app g') = fkz9_queue (gw_app g)"
  using assms
proof (induction "contents (tx_queue (cl (gw_net g)))" arbitrary: g)
  case Nil
  then show ?case by (intro exI [of _ g]) (simp flip: length_contents)
next
  case (Cons m ms)
  let ?t = "gw_net g"
  note cont = Cons.hyps(2) [symmetric]
  from Cons.prems obtain b where t: "tcp_fault ?t = None" "is_connected (cl ?t)" "senders ?t = [SLoop]" "bev (cl ?t) = Some b" "b \<notin> set (freed ?t)"
    and ub: "app_ub (gw_app g) = None" by (auto simp: sender_ready_def gw_inv_def)
  from Cons.prems(1) have "queue_inv 1400 (tx_queue (cl ?t))" by (simp add: gw_inv_def tcp_inv_def)
  from ring.deq_first [OF this cont] obtain q where q: "queue_get 1400 (tx_queue (cl ?t)) = Inr (Some (m, q))" "contents q = ms" by blast
  let ?t1 = "?t\<lparr> cl := (cl ?t)\<lparr> tx_queue := q \<rparr>, senders := [SHave m] \<rparr>"
  let ?t2 = "?t\<lparr> cl := (cl ?t)\<lparr> tx_queue := q \<rparr>, senders := [SLoop], wire := wire ?t @ [m] \<rparr>"
  have do: "tcp_do (SenderStep 0) ?t = ?t1" "tcp_do (SenderStep 0) ?t1 = ?t2" using t q by (simp_all add: sender_step_def use_ptr_def)
  have 1: "gw_step (Net (SenderStep 0)) g = Some (from_net ?t1 g)"
    using t ub do(1) by (simp add: gw_step_def is_send_def del: tcp_do.simps)
  have 2: "gw_step (Net (SenderStep 0)) (from_net ?t1 g) = Some (from_net ?t2 (from_net ?t1 g))"
    using t ub do(2) by (simp add: gw_step_def is_send_def from_net_def app_ub_def del: tcp_do.simps)
  let ?g = "from_net ?t2 (from_net ?t1 g)"
  have "gw_inv n ?g" by (rule gw.step_keeps [OF gw.step_keeps [OF Cons.prems(1) 1] 2])
  moreover have "sender_ready (gw_net ?g)" using t by (simp add: sender_ready_def from_net_def)
  ultimately obtain g' where r: "gw_run (replicate (2 * length ms) (Net (SenderStep 0))) ?g = Some g'"
    "wire (gw_net g') = wire ?t @ m # ms" "contents (tx_queue (cl (gw_net g'))) = []" "fkz9_queue (gw_app g') = fkz9_queue (gw_app g)"
    using Cons.hyps(1) [of ?g] q(2) by (auto simp: from_net_def simp flip: length_contents)
  have "2 * length (contents (tx_queue (cl ?t))) = Suc (Suc (2 * length ms))" unfolding cont by simp
  then have "gw_run (replicate (2 * length (contents (tx_queue (cl ?t)))) (Net (SenderStep 0))) g = Some g'"
    using 1 2 r(1) by (simp del: length_contents)
  with r cont show ?case by (intro exI [of _ g']) simp
qed


text \<open>The first connection, and two frames the unit sends then.\<close>

definition gw_example :: "gw_act list" where
  "gw_example = [Net Connect, Net (ConnSetup 0 Started), Net EvConnected, Arrive 0x30 [1, 2], Arrive 0x31 [3]]"

lemma gw_example:
  obtains g where "gw_run gw_example (gw_start app_example (tcp_start ''10.0.0.1'' 3901 3000)) = Some g" "services_up app_example"
    "sender_ready (gw_net g)" "contents (fkz9_queue (gw_app g)) = [frame 0x30 [1, 2], frame 0x31 [3]]" "contents (tx_queue (cl (gw_net g))) = []"
    "wire (gw_net g) = []"
proof -
  have up: "services_up app_example"
    using init_queue_inv [of cleared_queue 1400] by (simp add: services_up_def app_ub_def) (simp add: app_example_def cleared_queue_def)
  let ?s = "app_example\<lparr> client := cl tcp_up \<rparr>"
  let ?g = "\<lparr> gw_app = ?s, gw_net = tcp_up, gw_buf = replicate 1500 0, arrived = [] \<rparr>"
  have 1: "gw_run [Net Connect, Net (ConnSetup 0 Started), Net EvConnected] (gw_start app_example (tcp_start ''10.0.0.1'' 3901 3000)) = Some ?g"
    by (simp add: gw_start_def gw_step_def is_send_def from_net_def app_ub_def tcp_up_eq tcp_start_def conn_setup_def tcp_cb_defs
        tcp_client_create_def tcp_client_register_cb_def)
  have inv: "gw_inv 3000 ?g" by (rule gw.run_keeps [OF 1 gw_start_inv [OF up]])
  have q0: "queue_inv 1400 (fkz9_queue app_example)" "contents (fkz9_queue app_example) = []" using up by (simp_all add: services_up_def)
  have arr: "\<exists>g' q'. gw_step (Arrive sign payload) g = Some g' \<and> gw_net g' = gw_net g \<and> gw_app g' = (gw_app g)\<lparr> fkz9_queue := q' \<rparr> \<and>
      contents q' = contents (fkz9_queue (gw_app g)) @ [frame sign payload]"
    if "gw_inv 3000 g" "tcp_fault (gw_net g) = None" "length payload \<le> 1393" "sign \<notin> {MQTT_MSG_SIGN_HEARTBEAT_RESP, MQTT_MSG_SIGN_HEARTBEAT_REQ}"
      "length (contents (fkz9_queue (gw_app g))) < 63" for g sign payload
  proof -
    have route: "route_message (frame sign payload) = Inr Queued" using that by (simp add: route_message_def sizeof_MsgFramHdr_def)
    from that(1) have i: "queue_inv 1400 (fkz9_queue (gw_app g))" "fkz9_set (gw_app g)" "client (gw_app g) = cl (gw_net g)" "app_ub (gw_app g) = None"
      by (simp_all add: gw_inv_def)
    have "length (frame sign payload) \<le> 1400" using that(3) by simp
    from ring.enq_accept [OF i(1) this that(5)] obtain q' where
      q': "enqueue (fkz9_queue (gw_app g)) (frame sign payload) (length (frame sign payload)) = Inr (0, q')"
      "contents q' = contents (fkz9_queue (gw_app g)) @ [frame sign payload]" unfolding queue_put_def by blast
    have "on_message_cb id 0 (frame sign payload) (gw_app g) = Some ((gw_app g)\<lparr> fkz9_queue := q' \<rparr>)"
      using route q'(1) i(2) by (simp add: on_message_cb_def del: length_frame)
    with i that q'(2) from_app_same [of "(gw_app g)\<lparr> fkz9_queue := q' \<rparr>" g] show ?thesis
      by (auto simp: gw_step_def)
  qed
  have up_ok: "tcp_fault tcp_up = None" "sender_ready tcp_up" "wire tcp_up = []" by (simp_all add: sender_ready_def tcp_up_eq tcp_start_def)
  note signs = MQTT_MSG_SIGN_HEARTBEAT_RESP_def MQTT_MSG_SIGN_HEARTBEAT_REQ_def
  obtain g1 q1 where g1: "gw_step (Arrive 0x30 [1, 2]) ?g = Some g1" "gw_net g1 = tcp_up" "gw_app g1 = ?s\<lparr> fkz9_queue := q1 \<rparr>"
    "contents q1 = [frame 0x30 [1, 2]]" using arr [OF inv, of "[1, 2]" "0x30"] up_ok q0 by (auto simp: signs)
  have inv1: "gw_inv 3000 g1" by (rule gw.step_keeps [OF inv g1(1)])
  obtain g2 q2 where g2: "gw_step (Arrive 0x31 [3]) g1 = Some g2" "gw_net g2 = tcp_up" "gw_app g2 = (gw_app g1)\<lparr> fkz9_queue := q2 \<rparr>"
    "contents q2 = [frame 0x30 [1, 2], frame 0x31 [3]]" using arr [OF inv1, of "[3]" "0x31"] up_ok g1 by (auto simp: signs)
  have "gw_run gw_example (gw_start app_example (tcp_start ''10.0.0.1'' 3901 3000)) = Some g2"
    using run_acts_trans [OF 1, of "[Arrive 0x30 [1, 2], Arrive 0x31 [3]]" g2] g1(1) g2(1) by (simp add: gw_example_def)
  with up up_ok g2 tcp_up_empty show thesis by (intro that [of g2]) simp_all
qed



end
