(* ===== verification/Nmea.thy ===== *)
theory Nmea
  imports LaneTo
begin

text \<open>
  The messages of the receiver that \<open>hal/lane_to.c\<close> has parsers for, beside the one of theory \<open>LaneTo\<close> which is in use: they and their
  registrations are under \<open>#if 0\<close>. Each is one \<open>sscanf\<close> into a global record, but for the sensor data, which are split at
  the commas and stored in arrays of ten. Signed fields are words of their width. The functions that build commands for the receiver
  call \<open>malloc\<close> with two arguments and are not C; their checksum is here.
\<close>

subsection \<open>Checksums\<close>

definition calculate_checksum :: "bytes \<Rightarrow> u8 \<times> u8" where
  "calculate_checksum payload = (let sum = fold (\<lambda>b s. s + ucast b) payload (0 :: u16) in (ucast sum, ucast (drop_bit 8 sum)))"

text \<open>\<open>strtoul(p, NULL, 16)\<close>: white space, a sign, \<open>0x\<close> when a digit follows, digits; 0 when there is none.\<close>

definition strtoul16 :: "string \<Rightarrow> int" where
  "strtoul16 s =
     (let t = skip_ws s; neg = (t \<noteq> [] \<and> hd t = CHR ''-''); t = (if t \<noteq> [] \<and> hd t \<in> set ''+-'' then tl t else t);
          t = (if starts_with ''0x'' (map to_lower t) \<and> drop 2 t \<noteq> [] \<and> is_hex (t ! 2) then drop 2 t else t);
          n = int (base_val 16 0 (takeWhile is_hex t))
      in strtoul_sat (if neg then - n else n))"

text \<open>The characters before the asterisk, combined by exclusive or.\<close>

definition xor_chars :: "string \<Rightarrow> u8" where
  "xor_chars s = fold (\<lambda>c x. x XOR of_char c) s 0"

definition validate_nmea_checksum :: "string \<Rightarrow> int outcome" where
  "validate_nmea_checksum nmea_str =
     (case nmea_str of [] \<Rightarrow> Inl OutOfBounds
      | _ # p \<Rightarrow> (let r = dropWhile (\<lambda>c. c \<noteq> CHR ''*'') p in
          Inr (if r = [] then -1
               else if xor_chars (takeWhile (\<lambda>c. c \<noteq> CHR ''*'') p) = word_of_int (strtoul16 (tl r)) then 0 else -2)))"

subsection \<open>Messages of one \<open>sscanf\<close>\<close>

text \<open>The format \<open>%[^,]\<close> and conversions with a comma before each, into a record whose identifier has room for \<open>n\<close> characters.\<close>

definition csv :: "conv list \<Rightarrow> conv list" where
  "csv cs = CUntil CHR '','' # concat (map (\<lambda>c. [CLit CHR '','', c]) cs)"

definition scan_record :: "conv list \<Rightarrow> nat \<Rightarrow> (sval list \<Rightarrow> 'r \<Rightarrow> 'r) \<Rightarrow> string \<Rightarrow> 'r \<Rightarrow> 'r io" where
  "scan_record cs n assign payload d = (let vs = sscanf (csv cs) payload in do {
     check_io (length (get_str vs 0 []) < n) BufferOverflow;
     ret (assign vs d) })"

record GNGGAData =
  gga_talker_id :: string
  gga_time :: flo
  gga_latitude :: flo
  gga_ns :: char
  gga_longitude :: flo
  gga_ew :: char
  gga_fix_quality :: u8
  gga_num_satellites :: u8
  gga_hdop :: flo
  gga_altitude_msl :: flo
  gga_altitude_unit :: char
  gga_geoid_separation :: flo
  gga_geoid_unit :: char
  gga_checksum :: u8

definition gngga_convs :: "conv list" where
  "gngga_convs = [CFlo, CFlo, CChr, CFlo, CChr, CUDec, CUDec, CFlo, CFlo, CChr, CFlo, CChr]"

definition gngga_assign :: "sval list \<Rightarrow> GNGGAData \<Rightarrow> GNGGAData" where
  "gngga_assign vs d = d\<lparr>
     gga_talker_id := get_str vs 0 (gga_talker_id d), gga_time := get_flo to_double vs 1 (gga_time d),
     gga_latitude := get_flo to_double vs 2 (gga_latitude d), gga_ns := get_chr vs 3 (gga_ns d),
     gga_longitude := get_flo to_double vs 4 (gga_longitude d), gga_ew := get_chr vs 5 (gga_ew d),
     gga_fix_quality := get_int vs 6 (gga_fix_quality d), gga_num_satellites := get_int vs 7 (gga_num_satellites d),
     gga_hdop := get_flo to_float vs 8 (gga_hdop d), gga_altitude_msl := get_flo to_float vs 9 (gga_altitude_msl d),
     gga_altitude_unit := get_chr vs 10 (gga_altitude_unit d),
     gga_geoid_separation := get_flo to_float vs 11 (gga_geoid_separation d), gga_geoid_unit := get_chr vs 12 (gga_geoid_unit d) \<rparr>"

definition gngga_data_parse :: "string \<Rightarrow> GNGGAData \<Rightarrow> GNGGAData io" where
  "gngga_data_parse = scan_record gngga_convs 7 gngga_assign"

record GNRMCData =
  rmc_talker_id :: string
  rmc_time :: flo
  rmc_status :: char
  rmc_latitude :: flo
  rmc_ns :: char
  rmc_longitude :: flo
  rmc_ew :: char
  rmc_ground_speed :: flo
  rmc_course_over_ground :: flo
  rmc_date :: u32
  rmc_checksum :: u8

definition gnrmc_convs :: "conv list" where
  "gnrmc_convs = [CFlo, CChr, CFlo, CChr, CFlo, CChr, CFlo, CFlo, CUDec]"

definition gnrmc_assign :: "sval list \<Rightarrow> GNRMCData \<Rightarrow> GNRMCData" where
  "gnrmc_assign vs d = d\<lparr>
     rmc_talker_id := get_str vs 0 (rmc_talker_id d), rmc_time := get_flo to_double vs 1 (rmc_time d),
     rmc_status := get_chr vs 2 (rmc_status d), rmc_latitude := get_flo to_double vs 3 (rmc_latitude d),
     rmc_ns := get_chr vs 4 (rmc_ns d), rmc_longitude := get_flo to_double vs 5 (rmc_longitude d),
     rmc_ew := get_chr vs 6 (rmc_ew d), rmc_ground_speed := get_flo to_float vs 7 (rmc_ground_speed d),
     rmc_course_over_ground := get_flo to_float vs 8 (rmc_course_over_ground d), rmc_date := get_int vs 9 (rmc_date d) \<rparr>"

definition gnrmc_data_parse :: "string \<Rightarrow> GNRMCData \<Rightarrow> GNRMCData io" where
  "gnrmc_data_parse = scan_record gnrmc_convs 7 gnrmc_assign"

record GNATTData =
  att_talker_id :: string
  att_time :: flo
  att_status :: char
  att_roll :: flo
  att_pitch :: flo
  att_heading :: flo
  att_roll_uncertainty :: flo
  att_pitch_uncertainty :: flo
  att_heading_uncertainty :: flo
  att_checksum :: u8

definition gnatt_convs :: "conv list" where
  "gnatt_convs = [CFlo, CChr, CFlo, CFlo, CFlo, CFlo, CFlo, CFlo]"

definition gnatt_assign :: "sval list \<Rightarrow> GNATTData \<Rightarrow> GNATTData" where
  "gnatt_assign vs d = d\<lparr>
     att_talker_id := get_str vs 0 (att_talker_id d), att_time := get_flo to_double vs 1 (att_time d),
     att_status := get_chr vs 2 (att_status d), att_roll := get_flo to_double vs 3 (att_roll d),
     att_pitch := get_flo to_double vs 4 (att_pitch d), att_heading := get_flo to_double vs 5 (att_heading d),
     att_roll_uncertainty := get_flo to_double vs 6 (att_roll_uncertainty d),
     att_pitch_uncertainty := get_flo to_double vs 7 (att_pitch_uncertainty d),
     att_heading_uncertainty := get_flo to_double vs 8 (att_heading_uncertainty d) \<rparr>"

definition gnatt_data_parse :: "string \<Rightarrow> GNATTData \<Rightarrow> GNATTData io" where
  "gnatt_data_parse = scan_record gnatt_convs 7 gnatt_assign"

record PGNSS3Data =
  p3_message_id :: string
  p3_subid :: u8
  p3_svid :: u16
  p3_tow :: flo
  p3_pseudorange :: flo
  p3_carrier_doppler :: flo
  p3_carrier_phase :: flo
  p3_glonass_freq_num :: u8
  p3_cn0 :: u8
  p3_measurement_state :: u16
  p3_reserved :: u16

definition pgnss3_convs :: "conv list" where
  "pgnss3_convs = [CUDec, CUDec, CFlo, CFlo, CFlo, CFlo, CUDec, CUDec, CUDec, CUDec]"

definition pgnss3_assign :: "sval list \<Rightarrow> PGNSS3Data \<Rightarrow> PGNSS3Data" where
  "pgnss3_assign vs d = d\<lparr>
     p3_message_id := get_str vs 0 (p3_message_id d), p3_subid := get_int vs 1 (p3_subid d), p3_svid := get_int vs 2 (p3_svid d),
     p3_tow := get_flo to_double vs 3 (p3_tow d), p3_pseudorange := get_flo to_double vs 4 (p3_pseudorange d),
     p3_carrier_doppler := get_flo to_float vs 5 (p3_carrier_doppler d),
     p3_carrier_phase := get_flo to_double vs 6 (p3_carrier_phase d),
     p3_glonass_freq_num := get_int vs 7 (p3_glonass_freq_num d), p3_cn0 := get_int vs 8 (p3_cn0 d),
     p3_measurement_state := get_int vs 9 (p3_measurement_state d), p3_reserved := get_int vs 10 (p3_reserved d) \<rparr>"

definition pgnss3_data_parse :: "string \<Rightarrow> PGNSS3Data \<Rightarrow> PGNSS3Data io" where
  "pgnss3_data_parse = scan_record pgnss3_convs 7 pgnss3_assign"

record PGNSS4Data =
  p4_message_id :: string
  p4_subid :: u8
  p4_svid :: u16
  p4_tow :: flo
  p4_pseudorange :: flo
  p4_carrier_phase :: flo
  p4_loss_of_lock :: u8
  p4_cn0 :: u8
  p4_reserved1 :: u8
  p4_reserved2 :: flo

definition pgnss4_convs :: "conv list" where
  "pgnss4_convs = [CUDec, CUDec, CFlo, CFlo, CFlo, CUDec, CUDec, CUDec, CFlo]"

definition pgnss4_assign :: "sval list \<Rightarrow> PGNSS4Data \<Rightarrow> PGNSS4Data" where
  "pgnss4_assign vs d = d\<lparr>
     p4_message_id := get_str vs 0 (p4_message_id d), p4_subid := get_int vs 1 (p4_subid d), p4_svid := get_int vs 2 (p4_svid d),
     p4_tow := get_flo to_double vs 3 (p4_tow d), p4_pseudorange := get_flo to_double vs 4 (p4_pseudorange d),
     p4_carrier_phase := get_flo to_double vs 5 (p4_carrier_phase d), p4_loss_of_lock := get_int vs 6 (p4_loss_of_lock d),
     p4_cn0 := get_int vs 7 (p4_cn0 d), p4_reserved1 := get_int vs 8 (p4_reserved1 d),
     p4_reserved2 := get_flo to_float vs 9 (p4_reserved2 d) \<rparr>"

definition pgnss4_data_parse :: "string \<Rightarrow> PGNSS4Data \<Rightarrow> PGNSS4Data io" where
  "pgnss4_data_parse = scan_record pgnss4_convs 7 pgnss4_assign"

record PGNSS5Data =
  p5_message_id :: string
  p5_subid :: u8
  p5_svid :: u16
  p5_tow :: flo
  p5_pos_x :: flo
  p5_pos_y :: flo
  p5_pos_z :: flo
  p5_vel_x :: flo
  p5_vel_y :: flo
  p5_vel_z :: flo
  p5_reserved1 :: u8
  p5_reserved2 :: u8
  p5_sv_clock_bias :: flo
  p5_sv_state_valid :: u8
  p5_reserved :: u8

definition pgnss5_convs :: "conv list" where
  "pgnss5_convs = [CUDec, CUDec, CFlo, CFlo, CFlo, CFlo, CFlo, CFlo, CFlo, CUDec, CUDec, CFlo, CUDec, CUDec]"

definition pgnss5_assign :: "sval list \<Rightarrow> PGNSS5Data \<Rightarrow> PGNSS5Data" where
  "pgnss5_assign vs d = d\<lparr>
     p5_message_id := get_str vs 0 (p5_message_id d), p5_subid := get_int vs 1 (p5_subid d), p5_svid := get_int vs 2 (p5_svid d),
     p5_tow := get_flo to_double vs 3 (p5_tow d), p5_pos_x := get_flo to_double vs 4 (p5_pos_x d),
     p5_pos_y := get_flo to_double vs 5 (p5_pos_y d), p5_pos_z := get_flo to_double vs 6 (p5_pos_z d),
     p5_vel_x := get_flo to_double vs 7 (p5_vel_x d), p5_vel_y := get_flo to_double vs 8 (p5_vel_y d),
     p5_vel_z := get_flo to_double vs 9 (p5_vel_z d), p5_reserved1 := get_int vs 10 (p5_reserved1 d),
     p5_reserved2 := get_int vs 11 (p5_reserved2 d), p5_sv_clock_bias := get_flo to_double vs 12 (p5_sv_clock_bias d),
     p5_sv_state_valid := get_int vs 13 (p5_sv_state_valid d), p5_reserved := get_int vs 14 (p5_reserved d) \<rparr>"

definition pgnss5_data_parse :: "string \<Rightarrow> PGNSS5Data \<Rightarrow> PGNSS5Data io" where
  "pgnss5_data_parse = scan_record pgnss5_convs 7 pgnss5_assign"

record PGNSS9Data =
  p9_message_id :: string
  p9_subid :: u8
  p9_station_id :: u16
  p9_ecef_x :: flo
  p9_ecef_y :: flo
  p9_ecef_z :: flo
  p9_reserved :: flo

definition pgnss9_convs :: "conv list" where
  "pgnss9_convs = [CUDec, CUDec, CFlo, CFlo, CFlo, CFlo]"

definition pgnss9_assign :: "sval list \<Rightarrow> PGNSS9Data \<Rightarrow> PGNSS9Data" where
  "pgnss9_assign vs d = d\<lparr>
     p9_message_id := get_str vs 0 (p9_message_id d), p9_subid := get_int vs 1 (p9_subid d),
     p9_station_id := get_int vs 2 (p9_station_id d), p9_ecef_x := get_flo to_double vs 3 (p9_ecef_x d),
     p9_ecef_y := get_flo to_double vs 4 (p9_ecef_y d), p9_ecef_z := get_flo to_double vs 5 (p9_ecef_z d),
     p9_reserved := get_flo to_double vs 6 (p9_reserved d) \<rparr>"

definition pgnss9_data_parse :: "string \<Rightarrow> PGNSS9Data \<Rightarrow> PGNSS9Data io" where
  "pgnss9_data_parse = scan_record pgnss9_convs 7 pgnss9_assign"

record PSNSR23Data =
  s23_message_id :: string
  s23_sensortype :: u8
  s23_time_tag :: u32
  s23_gyro_x :: u32
  s23_gyro_y :: u32
  s23_gyro_z :: u32
  s23_accel_x :: u32
  s23_accel_y :: u32
  s23_accel_z :: u32

definition psnsr23_convs :: "conv list" where
  "psnsr23_convs = [CUDec, CUDec, CDec, CDec, CDec, CDec, CDec, CDec]"

definition psnsr23_assign :: "sval list \<Rightarrow> PSNSR23Data \<Rightarrow> PSNSR23Data" where
  "psnsr23_assign vs d = d\<lparr>
     s23_message_id := get_str vs 0 (s23_message_id d), s23_sensortype := get_int vs 1 (s23_sensortype d),
     s23_time_tag := get_int vs 2 (s23_time_tag d), s23_gyro_x := get_int vs 3 (s23_gyro_x d),
     s23_gyro_y := get_int vs 4 (s23_gyro_y d), s23_gyro_z := get_int vs 5 (s23_gyro_z d),
     s23_accel_x := get_int vs 6 (s23_accel_x d), s23_accel_y := get_int vs 7 (s23_accel_y d),
     s23_accel_z := get_int vs 8 (s23_accel_z d) \<rparr>"

definition psnsr23_data_parse :: "string \<Rightarrow> PSNSR23Data \<Rightarrow> PSNSR23Data io" where
  "psnsr23_data_parse = scan_record psnsr23_convs 7 psnsr23_assign"

record PBLKENDData =
  end_message_id :: string
  end_end_flag :: u8
  end_unix_time :: u32

definition pblkend_convs :: "conv list" where
  "pblkend_convs = [CUDec, CUDec]"

definition pblkend_assign :: "sval list \<Rightarrow> PBLKENDData \<Rightarrow> PBLKENDData" where
  "pblkend_assign vs d = d\<lparr>
     end_message_id := get_str vs 0 (end_message_id d), end_end_flag := get_int vs 1 (end_end_flag d),
     end_unix_time := get_int vs 2 (end_unix_time d) \<rparr>"

definition pblkend_data_parse :: "string \<Rightarrow> PBLKENDData \<Rightarrow> PBLKENDData io" where
  "pblkend_data_parse = scan_record pblkend_convs 8 pblkend_assign"

subsection \<open>Sensor data\<close>

record PSNSR21Data =
  s21_message_id :: string
  s21_sensortype :: u8
  s21_num_sets :: u8
  s21_time_tag :: "u32 list"
  s21_gyro_x :: "u32 list"
  s21_gyro_y :: "u32 list"
  s21_gyro_z :: "u32 list"
  s21_accel_x :: "u32 list"
  s21_accel_y :: "u32 list"
  s21_accel_z :: "u32 list"
  s21_odo :: "u32 list"
  s21_reverse :: "u8 list"

text \<open>The next piece, as \<open>strtok_r\<close> gives it, and \<open>atoi\<close> of a piece stored at an index.\<close>

definition next_tok :: "string list \<Rightarrow> string option \<times> string list" where
  "next_tok ts = (case ts of [] \<Rightarrow> (None, []) | t # ts \<Rightarrow> (Some t, ts))"

definition put_int :: "string option \<Rightarrow> 'n::len word \<Rightarrow> 'n word" where
  "put_int tok old = (case tok of None \<Rightarrow> old | Some t \<Rightarrow> word_of_int (atoi t))"

definition put_at :: "nat \<Rightarrow> string option \<Rightarrow> 'n::len word list \<Rightarrow> 'n word list io" where
  "put_at i tok xs = (case tok of None \<Rightarrow> ret xs
     | Some t \<Rightarrow> do { check_io (i < length xs) OutOfBounds; ret (xs[i := word_of_int (atoi t)]) })"

definition psnsr21_set :: "nat \<Rightarrow> string list \<Rightarrow> PSNSR21Data \<Rightarrow> (string list \<times> PSNSR21Data) io" where
  "psnsr21_set i ts d = do {
     let (t, ts) = next_tok ts; v \<leftarrow> put_at i t (s21_time_tag d); let d = d\<lparr> s21_time_tag := v \<rparr>;
     let (t, ts) = next_tok ts; v \<leftarrow> put_at i t (s21_gyro_x d); let d = d\<lparr> s21_gyro_x := v \<rparr>;
     let (t, ts) = next_tok ts; v \<leftarrow> put_at i t (s21_gyro_y d); let d = d\<lparr> s21_gyro_y := v \<rparr>;
     let (t, ts) = next_tok ts; v \<leftarrow> put_at i t (s21_gyro_z d); let d = d\<lparr> s21_gyro_z := v \<rparr>;
     let (t, ts) = next_tok ts; v \<leftarrow> put_at i t (s21_accel_x d); let d = d\<lparr> s21_accel_x := v \<rparr>;
     let (t, ts) = next_tok ts; v \<leftarrow> put_at i t (s21_accel_y d); let d = d\<lparr> s21_accel_y := v \<rparr>;
     let (t, ts) = next_tok ts; v \<leftarrow> put_at i t (s21_accel_z d); let d = d\<lparr> s21_accel_z := v \<rparr>;
     let (t, ts) = next_tok ts; v \<leftarrow> put_at i t (s21_odo d); let d = d\<lparr> s21_odo := v \<rparr>;
     let (t, ts) = next_tok ts; v \<leftarrow> put_at i t (s21_reverse d); let d = d\<lparr> s21_reverse := v \<rparr>;
     ret (ts, d) }"

text \<open>\<open>k\<close> sets are left, the next goes to index \<open>i\<close>.\<close>

fun psnsr21_sets :: "nat \<Rightarrow> nat \<Rightarrow> string list \<Rightarrow> PSNSR21Data \<Rightarrow> PSNSR21Data io" where
  "psnsr21_sets 0 i ts d = ret d"
| "psnsr21_sets (Suc k) i ts d = do { (ts, d) \<leftarrow> psnsr21_set i ts d; psnsr21_sets k (Suc i) ts d }"

definition psnsr21_data_parse :: "string \<Rightarrow> nat \<Rightarrow> PSNSR21Data \<Rightarrow> PSNSR21Data io" where
  "psnsr21_data_parse payload len d =
     (let (ident, ts) = next_tok (tokens [CHR '',''] (take len payload)); (kind, ts) = next_tok ts; (n, ts) = next_tok ts;
          d = (case ident of None \<Rightarrow> d | Some t \<Rightarrow> d\<lparr> s21_message_id := take 6 t \<rparr>);
          d = d\<lparr> s21_sensortype := put_int kind (s21_sensortype d), s21_num_sets := put_int n (s21_num_sets d) \<rparr>
      in psnsr21_sets (unat (s21_num_sets d)) 0 ts d)"

subsection \<open>What the checksum detects\<close>

definition hex_upper :: "nat \<Rightarrow> char" where
  "hex_upper d = char_of (if d < 10 then 48 + d else 55 + d)"

text \<open>The two digits a receiver prints.\<close>

definition hex_pair :: "u8 \<Rightarrow> string" where
  "hex_pair x = [hex_upper (unat x div 16), hex_upper (unat x mod 16)]"

lemma hex_upper:
  assumes "d < 16"
  shows "is_hex (hex_upper d)" "hex_val (hex_upper d) = d" "\<not> is_ws (hex_upper d)" "hex_upper d \<notin> set ''+-''"
    "to_lower (hex_upper d) \<noteq> CHR ''x''" "hex_upper d \<noteq> CHR ''*''"
proof -
  have "d = 0 \<or> d = 1 \<or> d = 2 \<or> d = 3 \<or> d = 4 \<or> d = 5 \<or> d = 6 \<or> d = 7 \<or> d = 8 \<or> d = 9 \<or> d = 10 \<or> d = 11 \<or> d = 12 \<or> d = 13 \<or> d = 14 \<or> d = 15"
    using assms by presburger
  then have "is_hex (hex_upper d) \<and> hex_val (hex_upper d) = d \<and> \<not> is_ws (hex_upper d) \<and> hex_upper d \<notin> set ''+-'' \<and>
      to_lower (hex_upper d) \<noteq> CHR ''x'' \<and> hex_upper d \<noteq> CHR ''*''"
    by (elim disjE; simp add: hex_upper_def char_of_def is_hex_def hex_val_def is_digit_def digit_val_def to_lower_def is_ws_def
        of_char_def bit_0 Let_def)
  then show "is_hex (hex_upper d)" "hex_val (hex_upper d) = d" "\<not> is_ws (hex_upper d)" "hex_upper d \<notin> set ''+-''"
    "to_lower (hex_upper d) \<noteq> CHR ''x''" "hex_upper d \<noteq> CHR ''*''" by blast+
qed

lemma strtoul16_hex_pair:
  assumes "r = [] \<or> \<not> is_hex (hd r)"
  shows "strtoul16 (hex_pair x @ r) = uint x"
proof -
  have x: "unat x div 16 < 16" "unat x mod 16 < 16" using unat_u8_bound [of x] by (simp_all add: less_mult_imp_div_less)
  note a = hex_upper [OF x(1)] and b = hex_upper [OF x(2)]
  have t: "takeWhile is_hex (hex_pair x @ r) = hex_pair x" using a b assms by (cases r) (auto simp: hex_pair_def)
  have v: "base_val 16 0 (hex_pair x) = unat x" using a b by (simp add: hex_pair_def)
  have "strtoul16 (hex_pair x @ r) = strtoul_sat (int (base_val 16 0 (takeWhile is_hex (hex_pair x @ r))))"
    using a b by (simp add: strtoul16_def skip_ws_def hex_pair_def Let_def)
  also have "\<dots> = uint x" using uint_lt2p [of x] unfolding t v by (simp add: strtoul_sat_def)
  finally show ?thesis .
qed

lemma xor_chars_fold: "fold (\<lambda>c x. x XOR of_char c) s a = a XOR xor_chars s"
proof (induction s arbitrary: a)
  case (Cons c s)
  have "xor_chars (c # s) = of_char c XOR xor_chars s" using Cons.IH [of "of_char c"] by (simp add: xor_chars_def)
  with Cons.IH [of "a XOR of_char c"] show ?case by (simp add: xor.assoc)
qed (simp add: xor_chars_def)

lemma xor_chars_append: "xor_chars (s @ c # t) = xor_chars s XOR of_char c XOR xor_chars t"
  using xor_chars_fold [of t "xor_chars s XOR of_char c"] by (simp add: xor_chars_def xor.assoc)

lemma of_char_u8_inj: "(of_char c :: u8) = of_char d \<longleftrightarrow> c = d"
proof
  assume "(of_char c :: u8) = of_char d"
  then have "(word_of_nat (of_char c) :: u8) = word_of_nat (of_char d)" by (simp only: of_nat_of_char)
  then have "unat (word_of_nat (of_char c) :: u8) = unat (word_of_nat (of_char d) :: u8)" by (rule arg_cong)
  then have "of_char c = (of_char d :: nat)" by (simp add: unsigned_of_nat take_bit_eq_mod)
  then show "c = d" by simp
qed simp

lemma xor_chars_update:
  assumes "i < length s" "c \<noteq> s ! i"
  shows "xor_chars (s[i := c]) \<noteq> xor_chars s"
proof -
  have "s = take i s @ s ! i # drop (Suc i) s" "s[i := c] = take i s @ c # drop (Suc i) s"
    using assms(1) by (simp_all add: id_take_nth_drop upd_conv_take_nth_drop)
  then have "xor_chars s = xor_chars (take i s) XOR of_char (s ! i) XOR xor_chars (drop (Suc i) s)"
    "xor_chars (s[i := c]) = xor_chars (take i s) XOR of_char c XOR xor_chars (drop (Suc i) s)" by (metis xor_chars_append)+
  moreover have "a XOR x XOR b = a XOR y XOR b \<longleftrightarrow> x = y" for a b x y :: u8
    by (simp add: bit_eq_iff bit_xor_iff) blast
  ultimately show ?thesis using assms(2) by (simp add: of_char_u8_inj)
qed

lemma validate_split:
  "CHR ''*'' \<notin> set body \<Longrightarrow> validate_nmea_checksum (c # body @ ''*'' @ s) = Inr (if xor_chars body = word_of_int (strtoul16 s) then 0 else -2)"
  by (simp add: validate_nmea_checksum_def Let_def)

text \<open>
  C39: A sentence is accepted with the two digits of the exclusive or of its characters behind the asterisk, whatever follows them that is no
  digit. With any one character changed to another that is no asterisk, or with other digits, it is refused as damaged, and without an asterisk
  as cut. The dollar sign itself is never looked at, and the empty string is read past its end.
\<close>

theorem nmea_checksum:
  assumes "CHR ''*'' \<notin> set body" "r = [] \<or> \<not> is_hex (hd r)"
  shows "validate_nmea_checksum (dollar # body @ ''*'' @ hex_pair (xor_chars body) @ r) = Inr 0 \<and>
    (\<forall>i c. i < length body \<and> c \<noteq> body ! i \<and> c \<noteq> CHR ''*'' \<longrightarrow>
       validate_nmea_checksum (dollar # body[i := c] @ ''*'' @ hex_pair (xor_chars body) @ r) = Inr (-2)) \<and>
    (\<forall>x. x \<noteq> xor_chars body \<longrightarrow> validate_nmea_checksum (dollar # body @ ''*'' @ hex_pair x @ r) = Inr (-2)) \<and>
    validate_nmea_checksum (dollar # body) = Inr (-1) \<and> validate_nmea_checksum [] = Inl OutOfBounds"
proof -
  have other: "validate_nmea_checksum (dollar # b @ ''*'' @ hex_pair x @ r) = Inr (if xor_chars b = x then 0 else -2)" if "CHR ''*'' \<notin> set b" for b x
    using validate_split [OF that, of dollar "hex_pair x @ r"] strtoul16_hex_pair [OF assms(2), of x] by simp
  have "CHR ''*'' \<notin> set (body[i := c])" if "c \<noteq> CHR ''*''" for i c
    using assms(1) that set_update_subset_insert [of body i c] by auto
  then show ?thesis using other assms(1) xor_chars_update by (simp add: validate_nmea_checksum_def Let_def)
qed

theorem nmea_checksum_witness:
  "validate_nmea_checksum ''$GPGLL,5300.97914,N,00259.98174,E,125926,A*28'' = Inr 0 \<and>
   validate_nmea_checksum ''$GPGLL,5300.97914,N,00259.98174,W,125926,A*28'' = Inr (-2)"
proof -
  let ?s = "''GPGLL,5300.97914,N,00259.98174,E,125926,A''"
  have "xor_chars ?s = 0x28" by (simp add: xor_chars_def of_char_def)
  moreover have "hex_pair 0x28 = ''28''" by (simp add: hex_pair_def hex_upper_def char_of_def bit_0)
  ultimately show ?thesis using nmea_checksum [of ?s "[]" "CHR ''$''"] by (auto dest!: spec [of _ "31 :: nat"] spec [of _ "CHR ''W''"])
qed

subsection \<open>What a line sets\<close>

text \<open>The rest of a line behind the fields that were read: nothing, or an empty field and anything.\<close>

definition empty_field :: "string \<Rightarrow> bool" where
  "empty_field r \<longleftrightarrow> r = [] \<or> r = '','' \<or> (\<exists>s. r = '',,'' @ s)"

lemma no_number: "sscanf (CFlo # f) [] = []" "sscanf (CUDec # f) [] = []" "sscanf (CDec # f) [] = []"
    "sscanf (CFlo # f) (CHR '','' # s) = []" "sscanf (CUDec # f) (CHR '','' # s) = []" "sscanf (CDec # f) (CHR '','' # s) = []"
  by (simp_all add: skip_ws_def is_ws_def scan_flo_def scan_ratio_def scan_mantissa_def scan_digits_def is_digit_def to_lower_def Let_def)

lemma stops_at:
  assumes "empty_field r" "cs = [] \<or> hd cs \<in> {CFlo, CUDec, CDec}"
  shows "sscanf (concat (map (\<lambda>c. [CLit CHR '','', c]) cs)) r = []"
  using assms by (cases cs) (auto simp: empty_field_def no_number simp del: sscanf.simps(6,7,8))

lemma sscanf_fields_stop:
  assumes "list_all2 (\<lambda>(c, t) v. reads_as c t v) (zip cs ts) vs" "length ts \<le> length cs" "empty_field r"
    and "length ts < length cs \<longrightarrow> cs ! length ts \<in> {CFlo, CUDec, CDec}"
  shows "sscanf (concat (map (\<lambda>c. [CLit CHR '','', c]) cs)) (join_fields ts @ r) = vs"
  using assms
proof (induction ts arbitrary: cs vs)
  case Nil
  then have "cs = [] \<or> hd cs \<in> {CFlo, CUDec, CDec}" by (cases cs) auto
  with stops_at [OF Nil.prems(3)] Nil.prems(1) show ?case by (simp add: join_fields_def)
next
  case (Cons t ts)
  then obtain c cs' v vs' where cs: "cs = c # cs'" and vs: "vs = v # vs'" and r: "reads_as c t v"
    "list_all2 (\<lambda>(c, t) v. reads_as c t v) (zip cs' ts) vs'" "length ts \<le> length cs'"
    by (cases cs) (auto simp: list_all2_Cons1)
  have "join_fields ts @ r = [] \<or> hd (join_fields ts @ r) = CHR '',''"
    using Cons.prems(3) by (cases ts) (auto simp: join_fields_def empty_field_def)
  with r(1) have "sscanf (c # f) (t @ join_fields ts @ r) = v # sscanf f (join_fields ts @ r)" for f
    unfolding reads_as_def by blast
  moreover have "length ts < length cs' \<longrightarrow> cs' ! length ts \<in> {CFlo, CUDec, CDec}" using Cons.prems(4) cs by simp
  ultimately show ?case using Cons.IH [OF r(2,3) Cons.prems(3)] by (simp add: cs vs join_fields_def)
qed

lemma run_scan_record:
  assumes "list_all2 (\<lambda>(c, t) v. reads_as c t v) (zip cs ts) vs" "length ts \<le> length cs" "empty_field r"
    and "length ts < length cs \<longrightarrow> cs ! length ts \<in> {CFlo, CUDec, CDec}" "ub w = None" "ident \<noteq> []" "CHR '','' \<notin> set ident"
  shows "run_state (scan_record cs n assign (ident @ join_fields ts @ r) d) w =
     (assign (SStr ident # vs) d, if length ident < n then w else w\<lparr> ub := Some BufferOverflow \<rparr>)"
proof -
  have "takeWhile (\<lambda>x. x \<noteq> CHR '','') (ident @ join_fields ts @ r) = ident \<and>
      dropWhile (\<lambda>x. x \<noteq> CHR '','') (ident @ join_fields ts @ r) = join_fields ts @ r"
    using assms(3,7) by (cases ts) (auto simp: join_fields_def empty_field_def takeWhile_append2 dropWhile_append2
        takeWhile_eq_all_conv dropWhile_eq_Nil_conv)
  with sscanf_fields_stop [OF assms(1-4)] assms(6) have "sscanf (csv cs) (ident @ join_fields ts @ r) = SStr ident # vs"
    by (simp add: csv_def)
  with assms(5) show ?thesis by (simp add: scan_record_def get_str_def check_io_def fault_io_def)
qed

text \<open>
  A GGA line sets exactly the fields that stand before its first empty number, in the order of the message and narrowed to their types;
  everything behind it keeps what the line before left. A receiver without a fix, which sends no time, thus leaves the whole
  old position standing, with the quality of its fix.
\<close>

theorem gga_line_parsed:
  assumes "list_all2 (\<lambda>(c, t) v. reads_as c t v) (zip gngga_convs ts) vs" "length ts \<le> 12" "empty_field r"
    and "length ts < 12 \<longrightarrow> gngga_convs ! length ts \<noteq> CChr" "ub w = None"
  shows "let d' = gngga_assign (SStr ''GNGGA'' # vs) d in
     run_state (gngga_data_parse (''GNGGA'' @ join_fields ts @ r) d) w = (d', w) \<and>
     (ts = [] \<longrightarrow> d' = d\<lparr> gga_talker_id := ''GNGGA'' \<rparr>) \<and> (length ts \<le> 5 \<longrightarrow> gga_fix_quality d' = gga_fix_quality d)"
proof -
  have l: "length gngga_convs = 12" by (simp add: gngga_convs_def)
  have "c \<in> set gngga_convs \<Longrightarrow> c \<noteq> CChr \<Longrightarrow> c \<in> {CFlo, CUDec, CDec}" for c by (auto simp: gngga_convs_def)
  with assms(2,4) l have "length ts < length gngga_convs \<longrightarrow> gngga_convs ! length ts \<in> {CFlo, CUDec, CDec}" by (metis nth_mem)
  then have run: "run_state (gngga_data_parse (''GNGGA'' @ join_fields ts @ r) d) w = (gngga_assign (SStr ''GNGGA'' # vs) d, w)"
    using run_scan_record [OF assms(1) _ assms(3) _ assms(5), of "''GNGGA''" 7] assms(2) l by (simp add: gngga_data_parse_def)
  have "length vs = length ts" using list_all2_lengthD [OF assms(1)] assms(2) l by simp
  with run show ?thesis by (auto simp: Let_def gngga_assign_def get_str_def get_int_def get_chr_def get_flo_def)
qed

text \<open>A GGA record at rest, and after a fix.\<close>

definition gga_example :: GNGGAData where
  "gga_example = \<lparr> gga_talker_id = ''GNGGA'', gga_time = Finite 0 0, gga_latitude = Finite 0 0, gga_ns = CHR ''N'', gga_longitude = Finite 0 0,
     gga_ew = CHR ''E'', gga_fix_quality = 4, gga_num_satellites = 12, gga_hdop = Finite 0 0, gga_altitude_msl = Finite 0 0,
     gga_altitude_unit = CHR ''M'', gga_geoid_separation = Finite 0 0, gga_geoid_unit = CHR ''M'', gga_checksum = 0 \<rparr>"

theorem gga_line_parsed_witness:
  "run_state (gngga_data_parse ''GNGGA,,,,,,0,00,,,M,,M'' gga_example) serial_world = (gga_example, serial_world) \<and> gga_fix_quality gga_example = 4"
  using gga_line_parsed [of "[]" "[]" "'',,,,,,0,00,,,M,,M''" serial_world gga_example]
  by (simp add: gngga_convs_def empty_field_def join_fields_def serial_world_def gga_example_def Let_def)

subsection \<open>What the sensor data set\<close>

text \<open>An array after the values of column \<open>c\<close> of some sets were stored from index \<open>i\<close> on.\<close>

definition column :: "nat \<Rightarrow> nat \<Rightarrow> nat list list \<Rightarrow> 'n::len word list \<Rightarrow> 'n word list" where
  "column c i ss old = take i old @ map (\<lambda>s. word_of_nat (s ! c)) ss @ drop (i + length ss) old"

definition with_sets :: "nat \<Rightarrow> nat list list \<Rightarrow> PSNSR21Data \<Rightarrow> PSNSR21Data" where
  "with_sets i ss d = d\<lparr> s21_time_tag := column 0 i ss (s21_time_tag d), s21_gyro_x := column 1 i ss (s21_gyro_x d),
     s21_gyro_y := column 2 i ss (s21_gyro_y d), s21_gyro_z := column 3 i ss (s21_gyro_z d), s21_accel_x := column 4 i ss (s21_accel_x d),
     s21_accel_y := column 5 i ss (s21_accel_y d), s21_accel_z := column 6 i ss (s21_accel_z d), s21_odo := column 7 i ss (s21_odo d),
     s21_reverse := column 8 i ss (s21_reverse d) \<rparr>"

definition arrays_of_ten :: "PSNSR21Data \<Rightarrow> bool" where
  "arrays_of_ten d \<longleftrightarrow> length (s21_time_tag d) = 10 \<and> length (s21_gyro_x d) = 10 \<and> length (s21_gyro_y d) = 10 \<and> length (s21_gyro_z d) = 10 \<and>
     length (s21_accel_x d) = 10 \<and> length (s21_accel_y d) = 10 \<and> length (s21_accel_z d) = 10 \<and> length (s21_odo d) = 10 \<and> length (s21_reverse d) = 10"

definition sensor_set :: "nat list \<Rightarrow> bool" where
  "sensor_set s \<longleftrightarrow> length s = 9 \<and> (\<forall>v \<in> set s. v < 2 ^ 31)"

lemma column_Nil [simp]: "column c i [] old = old"
  by (simp add: column_def)

lemma column_Cons: "i < length old \<Longrightarrow> column c (Suc i) ss (old[i := word_of_nat (s ! c)]) = column c i (s # ss) old"
  by (simp add: column_def take_Suc_conv_app_nth)

lemma with_sets_Nil [simp]: "with_sets i [] d = d"
  by (simp add: with_sets_def)

lemma tokens_fields:
  assumes "\<forall>t \<in> set ts. t \<noteq> [] \<and> CHR '','' \<notin> set t" "ident \<noteq> []" "CHR '','' \<notin> set ident"
  shows "tokens [CHR '',''] (ident @ join_fields ts) = ident # ts"
proof -
  have "strtok [CHR '',''] acc (t @ join_fields ts) = (rev acc @ t) # ts"
    if "CHR '','' \<notin> set t" "rev acc @ t \<noteq> []" "\<forall>t \<in> set ts. t \<noteq> [] \<and> CHR '','' \<notin> set t" for acc t ts
    using that
  proof (induction ts arbitrary: acc t)
    case Nil
    then have "\<forall>c \<in> set t. c \<notin> set '',''" by auto
    with Nil.prems(2) show ?case by (simp add: strtok_no_delims join_fields_def)
  next
    case (Cons u us)
    have step: "strtok [CHR '',''] acc (t @ CHR '','' # x) = (rev acc @ t) # strtok [CHR '',''] [] x"
      if "CHR '','' \<notin> set t" "rev acc @ t \<noteq> []" for acc t x
      using that by (induction t arbitrary: acc) auto
    have "strtok [CHR '',''] [] (u @ join_fields us) = (rev [] @ u) # us" by (rule Cons.IH) (use Cons.prems in auto)
    then show ?case using step [OF Cons.prems(1,2), of "u @ join_fields us"] by (simp add: join_fields_def)
  qed
  from this [of ident "[]" ts] assms show ?thesis by (simp add: tokens_def)
qed

lemma run_put_at:
  "ub w = None \<Longrightarrow> i < length xs \<Longrightarrow> n < 2 ^ 63 \<Longrightarrow> run_state (put_at i (Some (dec n)) xs) w = (xs[i := word_of_nat n], w)"
  by (simp add: put_at_def check_io_def)

lemma run_sensor_set:
  assumes "sensor_set s" "arrays_of_ten d" "i < 10" "ub w = None"
  shows "run_state (psnsr21_set i (map dec s @ ts) d) w = ((ts, with_sets i [s] d), w)"
proof -
  obtain a b c e f g h j k where s: "s = [a, b, c, e, f, g, h, j, k]"
  proof -
    have "s = map ((!) s) [0..<9]" using map_nth [of s] assms(1) by (simp add: sensor_set_def)
    moreover have "[0..<9] = [0, 1, 2, 3, 4, 5, 6, 7, 8 :: nat]" by code_simp
    ultimately have "s = [s ! 0, s ! 1, s ! 2, s ! 3, s ! 4, s ! 5, s ! 6, s ! 7, s ! 8]" by (simp only: list.map)
    then show ?thesis by (rule that)
  qed
  have "v < 2 ^ 63" if "v \<in> set s" for v using assms(1) that by (auto simp: sensor_set_def intro: less_trans)
  with s have v: "a < 2 ^ 63" "b < 2 ^ 63" "c < 2 ^ 63" "e < 2 ^ 63" "f < 2 ^ 63" "g < 2 ^ 63" "h < 2 ^ 63" "j < 2 ^ 63" "k < 2 ^ 63" by simp_all
  have c: "column n i [t] old = old[i := word_of_nat (t ! n)]" if "length old = 10" for n t and old :: "'n::len word list"
    using that assms(3) by (simp add: column_def upd_conv_take_nth_drop)
  show ?thesis
    using assms(2-4) v unfolding with_sets_def arrays_of_ten_def
    by (simp add: psnsr21_set_def next_tok_def run_put_at c s Let_def)
qed

lemma with_sets_Cons:
  assumes "arrays_of_ten d" "i < 10"
  shows "with_sets (Suc i) ss (with_sets i [s] d) = with_sets i (s # ss) d" "arrays_of_ten (with_sets i [s] d)"
proof -
  have c: "column n i [s] old = old[i := word_of_nat (s ! n)]" if "length old = 10" for n and old :: "'n::len word list"
    using that assms(2) by (simp add: column_def upd_conv_take_nth_drop)
  show "with_sets (Suc i) ss (with_sets i [s] d) = with_sets i (s # ss) d"
    using assms by (simp add: with_sets_def arrays_of_ten_def c column_Cons)
  show "arrays_of_ten (with_sets i [s] d)"
    using assms by (simp add: with_sets_def arrays_of_ten_def c)
qed

lemma no_sets: "ub w = None \<Longrightarrow> run_state (psnsr21_sets k i [] d) w = (d, w)"
  by (induction k arbitrary: i) (simp_all add: psnsr21_set_def next_tok_def put_at_def Let_def)

lemma wf_psnsr21 [wf_io_intros]: "wf_io (psnsr21_set i ts d)" "wf_io (psnsr21_sets k i ts d)"
proof -
  have p: "wf_io (put_at i t xs)" for i t and xs :: "'n::len word list"
    unfolding put_at_def by (intro wf_io_intros)
  show s: "wf_io (psnsr21_set i ts d)" for i ts d
    unfolding psnsr21_set_def next_tok_def Let_def by (intro wf_io_intros p)
  show "wf_io (psnsr21_sets k i ts d)"
    by (induction k arbitrary: i ts d) (auto intro!: wf_io_intros s)
qed

lemma set_behind_array:
  assumes "ub w = None" "length (s21_time_tag d) \<le> i"
  shows "ub (snd (run_state (psnsr21_set i (t # ts) d) w)) = Some OutOfBounds"
proof -
  have p: "wf_io (put_at i t xs)" for i t and xs :: "'n::len word list"
    unfolding put_at_def by (intro wf_io_intros)
  have "\<exists>f. psnsr21_set i (t # ts) d = State_Monad.bind (put_at i (Some t) (s21_time_tag d)) f \<and> (\<forall>v. wf_io (f v))"
    unfolding psnsr21_set_def next_tok_def Let_def list.case prod.case by (rule exI, rule conjI, rule refl) (intro allI wf_io_intros p)
  then obtain f where f: "psnsr21_set i (t # ts) d = State_Monad.bind (put_at i (Some t) (s21_time_tag d)) f" "\<And>v. wf_io (f v)" by blast
  have "ub (snd (run_state (put_at i (Some t) (s21_time_tag d)) w)) = Some OutOfBounds"
    using assms by (simp add: put_at_def check_io_def fault_io_def)
  with fault_kept [OF f(2)] show ?thesis by (simp add: f(1) case_prod_beta)
qed

lemma run_sensor_sets:
  assumes "\<forall>s \<in> set ss. sensor_set s" "arrays_of_ten d" "i \<le> 10" "ub w = None"
  shows "if i + min k (length ss) \<le> 10
     then run_state (psnsr21_sets k i (concat (map (map dec) ss)) d) w = (with_sets i (take k ss) d, w)
     else ub (snd (run_state (psnsr21_sets k i (concat (map (map dec) ss)) d) w)) = Some OutOfBounds"
  using assms
proof (induction k arbitrary: i ss d)
  case (Suc k)
  show ?case
  proof (cases ss)
    case Nil
    with Suc.prems show ?thesis using no_sets [of w "Suc k" i d] by simp
  next
    case (Cons s ss')
    show ?thesis
    proof (cases "i < 10")
      case True
      have "run_state (psnsr21_sets (Suc k) i (concat (map (map dec) ss)) d) w =
          run_state (psnsr21_sets k (Suc i) (concat (map (map dec) ss')) (with_sets i [s] d)) w"
        using run_sensor_set [of s d i w] Suc.prems True Cons by simp
      with Suc.IH [of ss' "with_sets i [s] d" "Suc i"] Suc.prems True Cons with_sets_Cons [of d i]
      show ?thesis by simp
    next
      case False
      then have i: "i = 10" using Suc.prems(3) by simp
      obtain a s' where a: "s = a # s'" using Suc.prems(1) Cons by (cases s) (auto simp: sensor_set_def)
      have "ub (snd (run_state (psnsr21_set i (concat (map (map dec) ss)) d) w)) = Some OutOfBounds"
        using set_behind_array [of w d i] Suc.prems(2,4) i a Cons by (simp add: arrays_of_ten_def)
      with fault_kept [OF wf_psnsr21(2)] show ?thesis using i Cons by (simp add: case_prod_beta)
    qed
  qed
qed simp

lemma dec_token: "dec n \<noteq> [] \<and> CHR '','' \<notin> set (dec n)"
  using dec_digits [of "CHR '',''" n] by (auto simp: is_digit_def)

text \<open>
  A line of sensor data with \<open>n\<close> announced and \<open>length ss\<close> complete sets stores as many of them as both numbers allow, value by value in its
  array and in order, and leaves the elements behind them as they were; with more than ten, though the count has eight bits, it writes behind
  the arrays.
\<close>

theorem sensor_line_parsed:
  assumes "\<forall>s \<in> set ss. sensor_set s" "n < 256" "arrays_of_ten d" "ub w = None"
    and "line = ''PSNSR'' @ join_fields (map dec (21 # n # concat ss))"
  shows "if min n (length ss) \<le> 10
     then run_state (psnsr21_data_parse line (length line) d) w =
       (with_sets 0 (take n ss) (d\<lparr> s21_message_id := ''PSNSR'', s21_sensortype := 21, s21_num_sets := word_of_nat n \<rparr>), w)
     else ub (snd (run_state (psnsr21_data_parse line (length line) d) w)) = Some OutOfBounds"
proof -
  let ?d = "d\<lparr> s21_message_id := ''PSNSR'', s21_sensortype := 21, s21_num_sets := word_of_nat n \<rparr>"
  have "tokens [CHR '',''] line = ''PSNSR'' # map dec (21 # n # concat ss)"
    unfolding assms(5) by (rule tokens_fields) (use dec_token in auto)
  moreover have "unat (word_of_nat n :: u8) = n" using assms(2) by (simp add: unat_store_u8)
  moreover have "atoi (dec n) = int n" by (rule atoi_dec) (use assms(2) in simp)
  ultimately have "psnsr21_data_parse line (length line) d = psnsr21_sets n 0 (concat (map (map dec) ss)) ?d"
    by (simp add: psnsr21_data_parse_def next_tok_def put_int_def map_concat Let_def)
  moreover have "arrays_of_ten ?d" using assms(3) by (simp add: arrays_of_ten_def)
  ultimately show ?thesis using run_sensor_sets [of ss ?d 0 w n] assms(1,4) by simp
qed

definition sensor_example :: PSNSR21Data where
  "sensor_example = (let z = replicate 10 0 in \<lparr> s21_message_id = [], s21_sensortype = 0, s21_num_sets = 0, s21_time_tag = z, s21_gyro_x = z,
     s21_gyro_y = z, s21_gyro_z = z, s21_accel_x = z, s21_accel_y = z, s21_accel_z = z, s21_odo = z, s21_reverse = replicate 10 0 \<rparr>)"

theorem sensor_line_parsed_witness:
  "let line = \<lambda>k. ''PSNSR'' @ join_fields (map dec (21 # k # concat (replicate k [7, 1, 2, 3, 4, 5, 6, 8, 0]))) in
     s21_time_tag (fst (run_state (psnsr21_data_parse (line 2) (length (line 2)) sensor_example) serial_world)) = [7, 7, 0, 0, 0, 0, 0, 0, 0, 0] \<and>
     ub (snd (run_state (psnsr21_data_parse (line 11) (length (line 11)) sensor_example) serial_world)) = Some OutOfBounds"
proof -
  have sets: "\<forall>s \<in> set (replicate k [7, 1, 2, 3, 4, 5, 6, 8, 0]). sensor_set s" for k by (simp add: sensor_set_def)
  have d: "arrays_of_ten sensor_example" "ub serial_world = None" by (simp_all add: sensor_example_def arrays_of_ten_def serial_world_def Let_def)
  have two: "run_state (psnsr21_data_parse line (length line) sensor_example) serial_world =
      (with_sets 0 (replicate 2 [7, 1, 2, 3, 4, 5, 6, 8, 0]) (sensor_example\<lparr> s21_message_id := ''PSNSR'', s21_sensortype := 21, s21_num_sets := 2 \<rparr>), serial_world)"
    if "line = ''PSNSR'' @ join_fields (map dec (21 # 2 # concat (replicate 2 [7, 1, 2, 3, 4, 5, 6, 8, 0])))" for line
    using sensor_line_parsed [OF sets _ d that] by simp
  have eleven: "ub (snd (run_state (psnsr21_data_parse line (length line) sensor_example) serial_world)) = Some OutOfBounds"
    if "line = ''PSNSR'' @ join_fields (map dec (21 # 11 # concat (replicate 11 [7, 1, 2, 3, 4, 5, 6, 8, 0])))" for line
    using sensor_line_parsed [OF sets _ d that] by simp
  have "s21_time_tag (with_sets 0 (replicate 2 [7, 1, 2, 3, 4, 5, 6, 8, 0]) (sensor_example\<lparr> s21_message_id := ''PSNSR'', s21_sensortype := 21, s21_num_sets := 2 \<rparr>))
      = [7, 7, 0, 0, 0, 0, 0, 0, 0, 0]"
    by (simp add: with_sets_def column_def sensor_example_def Let_def eval_nat_numeral)
  with two [OF refl] eleven [OF refl] show ?thesis unfolding Let_def by (simp only: fst_conv simp_thms)
qed

end
