(* ===== verification/Timing.thy ===== *)
theory Timing
  imports World
begin

text \<open>
  The time helpers of \<open>lib/publib.c\<close> (lines 11 to 153), which \<open>hal/can.c\<close> uses: the clock, the tests for a timeout in seconds and in
  milliseconds, the difference of two times, the date as text. They stand under \<open>#if 0\<close>, as the drivers that need them are not
  built either; \<open>ARM\<close> is not defined, so the clock is the one of \<open>gettimeofday\<close>, which can be set back.
\<close>

record timeval =
  t_sec :: int
  t_usec :: int

text \<open>\<open>gettimeofday\<close> answers the seconds as value and the microseconds as auxiliary number.\<close>

definition getCurrentTime :: "timeval io" where
  "getCurrentTime = do { a \<leftarrow> call (Bus Gettimeofday); ret \<lparr> t_sec = rc a, t_usec = vl a \<rparr> }"

text \<open>\<open>clock_gettime\<close> answers its return code and the nanoseconds.\<close>

definition get_timestamp_ms :: "u64 io" where
  "get_timestamp_ms = do {
     a \<leftarrow> call (Bus ClockGettime);
     ret (if rc a = 0 then word_of_int (vl a div 1000000) else 0) }"

subsection \<open>Timeouts\<close>

text \<open>Whether \<open>s\<close> seconds have passed; 0 is yes.\<close>

definition seconds_passed :: "timeval \<Rightarrow> timeval \<Rightarrow> int \<Rightarrow> bool" where
  "seconds_passed cur stv s \<longleftrightarrow> t_sec cur - t_sec stv > s \<or> t_usec cur \<ge> t_usec stv \<and> t_sec cur - t_sec stv = s"

definition BeTimeOut :: "timeval option \<Rightarrow> int \<Rightarrow> (int \<times> timeval option) io" where
  "BeTimeOut stv s = (case stv of None \<Rightarrow> ret (-1, None)
     | Some t \<Rightarrow> if s < 1 then ret (-1, stv) else do {
         cur \<leftarrow> getCurrentTime;
         ret (if seconds_passed cur t s then (0, Some cur) else (1, stv)) })"

definition BeTimeOutN :: "timeval \<Rightarrow> int \<Rightarrow> int io" where
  "BeTimeOutN stv s = (if s < 1 then ret (-1) else do {
     cur \<leftarrow> getCurrentTime;
     ret (if seconds_passed cur stv s then 0 else 1) })"

text \<open>The milliseconds are computed in \<open>unsigned long\<close>, and so is the comparison.\<close>

definition ms_run :: "timeval \<Rightarrow> timeval \<Rightarrow> u64" where
  "ms_run cur stv = word_of_int ((t_sec cur - t_sec stv) * 1000 + t_usec cur div 1000) - word_of_int (t_usec stv div 1000)"

definition ms_passed :: "timeval \<Rightarrow> timeval \<Rightarrow> int \<Rightarrow> bool" where
  "ms_passed cur stv ms \<longleftrightarrow> word_of_int ms \<le> ms_run cur stv"

definition BeTimeOutM :: "timeval option \<Rightarrow> int \<Rightarrow> (int \<times> timeval option) io" where
  "BeTimeOutM stv ms = (case stv of None \<Rightarrow> ret (-1, None)
     | Some t \<Rightarrow> if ms < 1 then ret (-1, stv) else do {
         cur \<leftarrow> getCurrentTime;
         ret (if ms_passed cur t ms then (0, Some cur) else (1, stv)) })"

definition BeTimeOutMN :: "timeval option \<Rightarrow> int \<Rightarrow> int io" where
  "BeTimeOutMN stv ms = (case stv of None \<Rightarrow> ret (-1)
     | Some t \<Rightarrow> if ms < 1 then ret (-1) else do {
         cur \<leftarrow> getCurrentTime;
         ret (if ms_passed cur t ms then 0 else 1) })"

text \<open>The difference in milliseconds, in 32 bits.\<close>

definition calcTimeOff :: "timeval \<Rightarrow> timeval \<Rightarrow> u32" where
  "calcTimeOff till since =
     (let s = t_sec till - t_sec since; us = t_usec till - t_usec since;
          (s, us) = (if us < 0 then (s - 1, us + 1000000) else (s, us))
      in word_of_int (s * 1000 + us div 1000))"

subsection \<open>The date as text\<close>

definition int0 :: "nat \<Rightarrow> int \<Rightarrow> string" where
  "int0 w i = (if i < 0 then CHR ''-'' # dec0 (w - 1) (nat (- i)) else dec0 w (nat i))"

definition time_text :: "tm \<Rightarrow> bool \<Rightarrow> string" where
  "time_text t with_date =
     (if with_date then int0 4 (tm_year t + 1900) @ ''-'' @ int0 2 (tm_mon t + 1) @ ''-'' @ int0 2 (tm_mday t) @ '' '' else [])
     @ int0 2 (tm_hour t) @ '':'' @ int0 2 (tm_min t) @ '':'' @ int0 2 (tm_sec t)"

text \<open>Four static buffers of 32 characters, used in turn: the position in the array is what is returned.\<close>

record time_bufs =
  tmpBuf :: "string list"
  buf_pos :: u8

definition GetSysTimeStr :: "bool \<Rightarrow> time_bufs \<Rightarrow> (nat \<times> time_bufs) io" where
  "GetSysTimeStr with_date b = do {
     a \<leftarrow> call (Sys LocalTime);
     w \<leftarrow> State_Monad.get;
     let i = unat (buf_pos b) mod 4; s = time_text (localtime w (vl a)) with_date in do {
       check_io (length s < 32) BufferOverflow;
       ret (i, b\<lparr> tmpBuf := (tmpBuf b)[i := s], buf_pos := word_of_nat i + 1 \<rparr>) } }"

subsection \<open>When a timeout is reported\<close>

text \<open>A time as it is counted: the microseconds below a million.\<close>

definition valid_time :: "timeval \<Rightarrow> bool" where
  "valid_time t \<longleftrightarrow> 0 \<le> t_usec t \<and> t_usec t < 1000000"

definition micros :: "timeval \<Rightarrow> int" where
  "micros t = 1000000 * t_sec t + t_usec t"

lemma millis: "valid_time t \<Longrightarrow> micros t div 1000 = 1000 * t_sec t + t_usec t div 1000"
  by (simp add: micros_def)

lemma unat_le_int: "word_of_int m \<le> (w :: u64) \<longleftrightarrow> m mod 2 ^ 64 \<le> uint w"
  by (simp add: word_le_def uint_word_of_int)

lemma uint_ms_run: "uint (ms_run cur stv) = ((t_sec cur - t_sec stv) * 1000 + t_usec cur div 1000 - t_usec stv div 1000) mod 2 ^ 64"
proof -
  have "ms_run cur stv = word_of_int ((t_sec cur - t_sec stv) * 1000 + t_usec cur div 1000 - t_usec stv div 1000)"
    by (simp add: ms_run_def)
  then show ?thesis by (simp only: uint_word_of_int) simp
qed

text \<open>
  The test in seconds reports a timeout exactly when the time has passed, to the microsecond. The test in milliseconds does so
  for whole milliseconds of the clock, and, since it computes without sign, also whenever the clock was set back across a
  millisecond, whatever the timeout.
\<close>

theorem timeouts:
  assumes "valid_time cur" "valid_time stv"
  shows "(seconds_passed cur stv s \<longleftrightarrow> 1000000 * s \<le> micros cur - micros stv) \<and>
    (1 \<le> ms \<and> ms < 2 ^ 31 \<and> \<bar>micros cur - micros stv\<bar> < 2 ^ 62 \<longrightarrow>
       (ms_passed cur stv ms \<longleftrightarrow> ms \<le> micros cur div 1000 - micros stv div 1000 \<or> micros cur div 1000 < micros stv div 1000))"
proof
  show "seconds_passed cur stv s \<longleftrightarrow> 1000000 * s \<le> micros cur - micros stv"
    using assms unfolding seconds_passed_def micros_def valid_time_def by linarith
next
  let ?d = "micros cur div 1000 - micros stv div 1000"
  have e: "(t_sec cur - t_sec stv) * 1000 + t_usec cur div 1000 - t_usec stv div 1000 = ?d"
    using millis [OF assms(1)] millis [OF assms(2)] by simp
  show "1 \<le> ms \<and> ms < 2 ^ 31 \<and> \<bar>micros cur - micros stv\<bar> < 2 ^ 62 \<longrightarrow>
      (ms_passed cur stv ms \<longleftrightarrow> ms \<le> ?d \<or> micros cur div 1000 < micros stv div 1000)"
  proof
    assume a: "1 \<le> ms \<and> ms < 2 ^ 31 \<and> \<bar>micros cur - micros stv\<bar> < 2 ^ 62"
    then have b: "- (2 ^ 62) \<le> ?d" "?d \<le> 2 ^ 62" by linarith+
    have "ms mod 2 ^ 64 = ms" using a by simp
    then have p: "ms_passed cur stv ms \<longleftrightarrow> ms \<le> ?d mod 2 ^ 64"
      unfolding ms_passed_def unat_le_int uint_ms_run e by simp
    show "ms_passed cur stv ms \<longleftrightarrow> ms \<le> ?d \<or> micros cur div 1000 < micros stv div 1000"
    proof (cases "?d < 0")
      case True
      then have "(?d + 2 ^ 64) mod 2 ^ 64 = ?d + 2 ^ 64" using b(1) by (intro mod_pos_pos_trivial) auto
      then have "?d mod 2 ^ 64 = ?d + 2 ^ 64" by simp
      with True p a b(1) show ?thesis by simp
    next
      case False
      then have "?d mod 2 ^ 64 = ?d" using b(2) by simp
      with False p show ?thesis by simp
    qed
  qed
qed

theorem timeouts_witness:
  "\<not> seconds_passed \<lparr> t_sec = 10, t_usec = 4 \<rparr> \<lparr> t_sec = 9, t_usec = 5 \<rparr> 1 \<and>
   ms_passed \<lparr> t_sec = 8, t_usec = 0 \<rparr> \<lparr> t_sec = 9, t_usec = 0 \<rparr> 5000"
  using timeouts [of "\<lparr> t_sec = 10, t_usec = 4 \<rparr>" "\<lparr> t_sec = 9, t_usec = 5 \<rparr>" 1 1]
    timeouts [of "\<lparr> t_sec = 8, t_usec = 0 \<rparr>" "\<lparr> t_sec = 9, t_usec = 0 \<rparr>" 1 5000]
  by (simp add: valid_time_def micros_def)

text \<open>The difference is the whole milliseconds between the two times, modulo 2 to the 32.\<close>

lemma time_off:
  assumes "valid_time till" "valid_time since"
  shows "uint (calcTimeOff till since) = (micros till - micros since) div 1000 mod 2 ^ 32"
proof -
  let ?s = "t_sec till - t_sec since" and ?u = "t_usec till - t_usec since"
  have "(micros till - micros since) div 1000 = (?s * 1000 + ?u div 1000)"
    by (simp add: micros_def)
  moreover have "(u + 1000 * 1000) div 1000 = u div 1000 + 1000" for u :: int by (simp only: div_mult_self3)
  then have "(?s - 1) * 1000 + (?u + 1000000) div 1000 = ?s * 1000 + ?u div 1000" by simp
  ultimately show ?thesis
    by (cases "?u < 0") (simp_all only: calcTimeOff_def Let_def split_beta fst_conv snd_conv if_True if_False uint_word_of_int len_num1 len_of_numeral_defs, simp_all)
qed

text \<open>Four calls in a row hand out four different buffers; the fifth overwrites the first.\<close>

lemma next_buffer:
  assumes "run_state (GetSysTimeStr d b) w = ((i, b'), w')"
  shows "i = unat (buf_pos b) mod 4 \<and> unat (buf_pos b') mod 4 = Suc i mod 4 \<and> unat (buf_pos b') \<le> 4"
proof -
  have i: "i = unat (buf_pos b) mod 4" "buf_pos b' = word_of_nat i + 1"
    using assms by (auto simp: GetSysTimeStr_def Let_def case_prod_beta)
  have "i < 4" using i(1) by simp
  then consider "i = 0" | "i = 1" | "i = 2" | "i = 3" by linarith
  then have "unat (word_of_nat i + 1 :: u8) = Suc i" by cases simp_all
  with i \<open>i < 4\<close> show ?thesis by simp
qed

end
