(* ===== verification/CanBus.thy ===== *)
theory CanBus
  imports Queue Timing Steps
begin

text \<open>
  \<open>hal/can.c\<close>, the driver of the CAN bus; commented out in \<open>src/Makefile\<close>, no service calls it. Messages go through a ring buffer to a
  thread that cuts them into frames of eight bytes; one that is to be repeated carries a \<open>RetransHeader\<close> of 20 bytes.
\<close>

definition MAX_DATA_SIZE :: nat where "MAX_DATA_SIZE = 256"

text \<open>\<open>sizeof(RetransHeader)\<close>: packed, with a \<open>struct timeval\<close> of 16 bytes.\<close>

definition sizeof_RetransHeader :: nat where "sizeof_RetransHeader = 20"

definition sizeof_can_frame :: int where "sizeof_can_frame = 16"

record CANDevice =
  sockfd :: "nat option"
  ifname :: string
  can_id :: u32
  running :: bool
  data_cb :: bool
  can_tx :: ThreadSafeQueue
  can_retrans :: ThreadSafeQueue

text \<open>All zero but the socket, which is -1.\<close>

definition can_device_create :: CANDevice where
  "can_device_create = (let q = \<lparr> buffers = replicate MAX_SEGMENTS None, sizes = replicate MAX_SEGMENTS 0, head = 0, tail = 0 \<rparr>
     in \<lparr> sockfd = None, ifname = [], can_id = 0, running = False, data_cb = False, can_tx = q, can_retrans = q \<rparr>)"

text \<open>\<open>strcpy\<close> into the 16 characters of \<open>ifr_name\<close>. A failure closes the socket and leaves its number.\<close>

definition can_device_open :: "CANDevice \<Rightarrow> string \<Rightarrow> (int \<times> CANDevice) io" where
  "can_device_open dev name = do {
     s \<leftarrow> call_handle (Bus CanSocket);
     case s of None \<Rightarrow> ret (-1, dev\<lparr> sockfd := None \<rparr>)
     | Some h \<Rightarrow> do {
         check_io (length name < 16) BufferOverflow;
         let dev = dev\<lparr> sockfd := Some h, ifname := name \<rparr> in do {
           a \<leftarrow> call (Bus (CanIndex h name));
           if rc a < 0 then do { tell (Dev (SockClose h)); ret (-1, dev) }
           else do {
             tell (Bus (CanFilter h None));
             b \<leftarrow> call (Bus (CanBind h (vl a)));
             if rc b < 0 then do { tell (Dev (SockClose h)); ret (-1, dev) }
             else ret (0, dev\<lparr> can_tx := snd (init_queue (can_tx dev) MAX_DATA_SIZE),
                               can_retrans := snd (init_queue (can_retrans dev) MAX_DATA_SIZE), running := True \<rparr>) } } } }"

text \<open>A queue operation on a field of the device.\<close>

definition can_enqueue :: "(ThreadSafeQueue \<Rightarrow> CANDevice) \<Rightarrow> ThreadSafeQueue \<Rightarrow> bytes \<Rightarrow> nat \<Rightarrow> CANDevice io" where
  "can_enqueue put q data len =
     (case enqueue q data len of Inl e \<Rightarrow> do { fault_io e; ret (put q) } | Inr (_, q') \<Rightarrow> ret (put q'))"

definition of_le32 :: "bytes \<Rightarrow> u32" where
  "of_le32 bs = push_bit 24 (ucast (bs ! 3)) OR push_bit 16 (ucast (bs ! 2)) OR push_bit 8 (ucast (bs ! 1)) OR ucast (bs ! 0)"

definition of_le64 :: "bytes \<Rightarrow> u64" where
  "of_le64 bs = push_bit 32 (ucast (of_le32 (drop 4 bs))) OR ucast (of_le32 bs)"

lemma of_le32_le32: "of_le32 (le32 x @ bs) = x"
proof (rule bit_word_eqI)
  fix n :: nat
  assume n: "n < LENGTH(32)"
  consider "n < 8" | "8 \<le> n" "n < 16" | "16 \<le> n" "n < 24" | "24 \<le> n" by linarith
  then show "bit (of_le32 (le32 x @ bs)) n = bit x n"
    by cases (use n in \<open>auto simp: of_le32_def le32_def bit_simps\<close>)
qed

lemma of_le64_le64: "of_le64 (le64 x @ bs) = x"
proof -
  have "of_le64 (le64 x @ bs) = push_bit 32 (ucast (ucast (drop_bit 32 x) :: u32)) OR ucast (ucast x :: u32)"
    by (simp add: of_le64_def le64_def of_le32_le32)
  also have "\<dots> = x" by (rule bit_word_eqI) (auto simp: bit_simps)
  finally show ?thesis .
qed

text \<open>The time in a header.\<close>

definition time_of :: "bytes \<Rightarrow> timeval" where
  "time_of bs = \<lparr> t_sec = sint (of_le64 bs), t_usec = sint (of_le64 (drop 8 bs)) \<rparr>"

definition time_bytes :: "timeval \<Rightarrow> bytes" where
  "time_bytes t = le64 (word_of_int (t_sec t)) @ le64 (word_of_int (t_usec t))"

text \<open>A time whose parts are in the range of \<open>time_t\<close> and \<open>suseconds_t\<close>.\<close>

definition stored_time :: "timeval \<Rightarrow> bool" where
  "stored_time t \<longleftrightarrow> - (2 ^ 63) \<le> t_sec t \<and> t_sec t < 2 ^ 63 \<and> - (2 ^ 63) \<le> t_usec t \<and> t_usec t < 2 ^ 63"

lemma sint_store: "- (2 ^ 63) \<le> i \<Longrightarrow> i < 2 ^ 63 \<Longrightarrow> sint (word_of_int i :: u64) = i"
  by (simp add: sint_sbintrunc' signed_take_bit_int_eq_self)

lemma time_of_bytes: "stored_time t \<Longrightarrow> time_of (time_bytes t @ bs) = t"
  by (simp add: time_of_def time_bytes_def of_le64_le64 sint_store stored_time_def)

definition retrans_header :: "u8 \<Rightarrow> u16 \<Rightarrow> timeval \<Rightarrow> bytes" where
  "retrans_header number timeouts t = [1, number] @ le16 timeouts @ time_bytes t"

text \<open>With a number and a timeout the header goes before the data; \<open>data\<close> is the caller's object.\<close>

definition can_device_send :: "CANDevice \<Rightarrow> bytes \<Rightarrow> nat \<Rightarrow> u8 \<Rightarrow> u16 \<Rightarrow> CANDevice io" where
  "can_device_send dev data len number timeouts =
     (if number \<noteq> 0 \<and> timeouts \<noteq> 0
      then do {
        t \<leftarrow> getCurrentTime;
        check_io (len \<le> length data) OutOfBounds;
        can_enqueue (\<lambda>q. dev\<lparr> can_tx := q \<rparr>) (can_tx dev) (retrans_header number timeouts t @ take len data) (len + sizeof_RetransHeader) }
      else can_enqueue (\<lambda>q. dev\<lparr> can_tx := q \<rparr>) (can_tx dev) data len)"

definition can_device_register_callback :: "CANDevice \<Rightarrow> bool \<Rightarrow> CANDevice" where
  "can_device_register_callback dev cb = dev\<lparr> data_cb := cb \<rparr>"

definition can_device_set_filter :: "CANDevice \<Rightarrow> string \<Rightarrow> int io" where
  "can_device_set_filter dev rfilter =
     (case sockfd dev of None \<Rightarrow> ret (-1) | Some h \<Rightarrow> do { a \<leftarrow> call (Bus (CanFilter h (Some rfilter))); ret (rc a) })"

subsection \<open>The threads\<close>

text \<open>A turn of the receiving thread: the frame handed to the callback.\<close>

definition rx_thread_turn :: "CANDevice \<Rightarrow> string option io" where
  "rx_thread_turn dev = (case sockfd dev of None \<Rightarrow> ret None
     | Some h \<Rightarrow> do {
         a \<leftarrow> call (Bus (CanRead h));
         ret (if rc a \<le> 0 \<or> \<not> data_cb dev then None else Some (concat (out a))) })"

text \<open>
  The frames of a message: \<open>k\<close> are left, the next is number \<open>i\<close>, \<open>dl\<close> bytes are left. The data field of a frame is filled up with zeros.
  A write that fails ends the loop.
\<close>

definition frame_data :: "bytes \<Rightarrow> nat \<Rightarrow> nat \<Rightarrow> bytes" where
  "frame_data data i dlc = take dlc (drop (sizeof_RetransHeader + i * 8) data) @ replicate (8 - dlc) 0"

fun tx_frames :: "nat \<Rightarrow> nat \<Rightarrow> u32 \<Rightarrow> bytes \<Rightarrow> nat \<Rightarrow> nat \<Rightarrow> unit io" where
  "tx_frames 0 h ident data i dl = ret ()"
| "tx_frames (Suc k) h ident data i dl = (let dlc = min 8 dl in do {
     check_io (sizeof_RetransHeader + i * 8 + dlc \<le> length data) OutOfBounds;
     a \<leftarrow> call (Bus (CanWrite h ident (word_of_nat dlc) (frame_data data i dlc)));
     if rc a \<noteq> sizeof_can_frame then ret () else tx_frames k h ident data (i + 1) (dl - dlc) })"

text \<open>\<open>len - sizeof(RetransHeader)\<close> is a \<open>size_t\<close>.\<close>

definition data_len :: "nat \<Rightarrow> nat" where
  "data_len len = nat ((int len - int sizeof_RetransHeader) mod 2 ^ 64)"

definition frame_count :: "nat \<Rightarrow> nat" where
  "frame_count dl = dl div 8 + (if dl mod 8 \<noteq> 0 then 1 else 0)"

text \<open>The header in the message: a message with more than one attempt left is queued again with one less.\<close>

definition retransmit :: "CANDevice \<Rightarrow> bytes \<Rightarrow> nat \<Rightarrow> CANDevice io" where
  "retransmit dev data len =
     (if 1 < unat (data ! 1)
      then do {
        t \<leftarrow> getCurrentTime;
        can_enqueue (\<lambda>q. dev\<lparr> can_retrans := q \<rparr>) (can_retrans dev)
          ([data ! 0, data ! 1 - 1, data ! 2, data ! 3] @ time_bytes t @ drop sizeof_RetransHeader data) len }
      else ret dev)"

text \<open>
  A turn of the transmitting thread with the buffer \<open>data\<close>; \<open>None\<close> is the null pointer, into which \<open>dequeue\<close> copies the message it finds.
  The result says whether there was one.
\<close>

definition tx_turn :: "bytes option \<Rightarrow> CANDevice \<Rightarrow> (bool \<times> CANDevice) io" where
  "tx_turn data dev = (case data of
     None \<Rightarrow> if tail (can_tx dev) = head (can_tx dev) then ret (False, dev) else do { fault_io NullDeref; ret (True, dev) }
   | Some buf \<Rightarrow>
       (case dequeue (can_tx dev) buf 0 of
          Inl e \<Rightarrow> do { fault_io e; ret (True, dev) }
        | Inr (r, d, len, q) \<Rightarrow>
            if r \<noteq> 0 then ret (False, dev)
            else do {
              (case sockfd dev of None \<Rightarrow> ret ()
               | Some h \<Rightarrow> tx_frames (frame_count (data_len len)) h (can_id dev) d 0 (data_len len));
              check_io (sizeof_RetransHeader \<le> length d) OutOfBounds;
              dev \<leftarrow> retransmit (dev\<lparr> can_tx := q \<rparr>) d len;
              ret (True, dev) }))"

text \<open>
  A turn of the repetition, with the buffer likewise: a message whose timeout has run goes to the transmit queue again, any other back to the end of
  its own.
\<close>

definition check_turn :: "bytes option \<Rightarrow> CANDevice \<Rightarrow> CANDevice io" where
  "check_turn data dev = (case data of
     None \<Rightarrow> if tail (can_retrans dev) = head (can_retrans dev) then ret dev else do { fault_io NullDeref; ret dev }
   | Some buf \<Rightarrow>
       (case dequeue (can_retrans dev) buf 0 of
          Inl e \<Rightarrow> do { fault_io e; ret dev }
        | Inr (r, d, len, q) \<Rightarrow>
            if r \<noteq> 0 then ret dev
            else let dev = dev\<lparr> can_retrans := q \<rparr> in do {
              check_io (sizeof_RetransHeader \<le> length d) OutOfBounds;
              t \<leftarrow> BeTimeOutMN (Some (time_of (drop 4 d))) (uint (of_le16 (d ! 2) (d ! 3)));
              if t = 0 then can_enqueue (\<lambda>q. dev\<lparr> can_tx := q \<rparr>) (can_tx dev) d len
              else can_enqueue (\<lambda>q. dev\<lparr> can_retrans := q \<rparr>) (can_retrans dev) d len }))"

text \<open>\<open>tx_thread_func\<close> never sets its pointer, nor does \<open>check_retransmissions\<close>, which nothing calls.\<close>

definition tx_thread_turn :: "CANDevice \<Rightarrow> (bool \<times> CANDevice) io" where
  "tx_thread_turn dev = tx_turn None dev"

definition check_retransmissions_turn :: "CANDevice \<Rightarrow> CANDevice io" where
  "check_retransmissions_turn dev = check_turn None dev"

definition can_device_close :: "CANDevice \<Rightarrow> CANDevice io" where
  "can_device_close dev = do {
     q \<leftarrow> (case clean_queue (can_tx dev) of Inl e \<Rightarrow> do { fault_io e; ret (can_tx dev) } | Inr (_, q) \<Rightarrow> ret q);
     (case sockfd dev of None \<Rightarrow> ret () | Some h \<Rightarrow> tell (Dev (SockClose h)));
     ret (dev\<lparr> running := False, can_tx := q \<rparr>) }"

subsection \<open>Cutting into frames\<close>

text \<open>The frames written in a trace: the number of bytes each carries, and its data field.\<close>

fun frames_of :: "event list \<Rightarrow> (nat \<times> bytes) list" where
  "frames_of [] = []"
| "frames_of ((Bus (CanWrite _ _ n d), _) # es) = (unat n, d) # frames_of es"
| "frames_of (_ # es) = frames_of es"

lemma frames_of_append [simp]: "frames_of (es @ fs) = frames_of es @ frames_of fs"
  by (induction es rule: frames_of.induct) auto

lemma frame_count_step: "0 < dl \<Longrightarrow> frame_count dl = Suc (frame_count (dl - min 8 dl))"
  by (cases "dl < 8") (auto simp: frame_count_def min_def le_div_geq le_mod_geq not_less)

lemma frame_count_0 [simp]: "frame_count 0 = 0"
  by (simp add: frame_count_def)

text \<open>A bus that takes every frame.\<close>

definition bus_takes :: "world \<Rightarrow> nat \<Rightarrow> bool" where
  "bus_takes w h \<longleftrightarrow> (\<forall>tr i n d. rc (env w tr (Bus (CanWrite h i n d))) = sizeof_can_frame)"

lemma run_tx_frames:
  assumes "ub w = None" "bus_takes w h" "20 + i * 8 + dl \<le> length data"
  shows "\<exists>es. run_state (tx_frames (frame_count dl) h ident data i dl) w = ((), w\<lparr> trace := trace w @ es \<rparr>) \<and>
     concat (map (\<lambda>(n, d). take n d) (frames_of es)) = take dl (drop (20 + i * 8) data) \<and>
     length (frames_of es) = frame_count dl \<and> (\<forall>(n, d) \<in> set (frames_of es). n \<le> 8 \<and> length d = 8)"
  using assms
proof (induction dl arbitrary: i w rule: less_induct)
  case (less dl)
  show ?case
  proof (cases "dl = 0")
    case True
    then show ?thesis by (intro exI [of _ "[]"]) simp
  next
    case False
    let ?n = "min 8 dl"
    let ?r = "Bus (CanWrite h ident (word_of_nat ?n) (frame_data data i ?n))"
    let ?e = "(?r, env w (trace w) ?r)"
    let ?w = "w\<lparr> trace := trace w @ [?e] \<rparr>"
    have n: "?n \<le> dl" "?n \<le> 8" "unat (word_of_nat ?n :: u8) = ?n" by (simp_all add: unat_store_u8)
    have room: "20 + (i + 1) * 8 + (dl - ?n) \<le> length data \<or> dl \<le> 8" using less.prems(3) by (auto simp: min_def)
    have fd: "length (frame_data data i ?n) = 8" "take ?n (frame_data data i ?n) = take ?n (drop (20 + i * 8) data)"
      using less.prems(3) n by (auto simp: frame_data_def sizeof_RetransHeader_def)
    have ok: "20 + i * 8 + ?n \<le> length data" using less.prems(3) n(1) by linarith
    have rc: "rc (env w (trace w) ?r) = sizeof_can_frame" using less.prems(2) by (simp add: bus_takes_def)
    have "\<exists>es. run_state (tx_frames (frame_count (dl - ?n)) h ident data (i + 1) (dl - ?n)) ?w = ((), ?w\<lparr> trace := trace ?w @ es \<rparr>) \<and>
       concat (map (\<lambda>(n, d). take n d) (frames_of es)) = take (dl - ?n) (drop (20 + (i + 1) * 8) data) \<and>
       length (frames_of es) = frame_count (dl - ?n) \<and> (\<forall>(n, d) \<in> set (frames_of es). n \<le> 8 \<and> length d = 8)"
    proof (cases "dl \<le> 8")
      case True
      then show ?thesis by (intro exI [of _ "[]"]) simp
    next
      case False
      with room have "20 + (i + 1) * 8 + (dl - ?n) \<le> length data" by simp
      with less.IH [of "dl - ?n" ?w "i + 1"] less.prems False show ?thesis by (simp add: bus_takes_def)
    qed
    then obtain es where es: "run_state (tx_frames (frame_count (dl - ?n)) h ident data (i + 1) (dl - ?n)) ?w = ((), ?w\<lparr> trace := trace ?w @ es \<rparr>)"
      "concat (map (\<lambda>(n, d). take n d) (frames_of es)) = take (dl - ?n) (drop (20 + (i + 1) * 8) data)"
      "length (frames_of es) = frame_count (dl - ?n)" "\<forall>(n, d) \<in> set (frames_of es). n \<le> 8 \<and> length d = 8" by blast
    have "run_state (tx_frames (frame_count dl) h ident data i dl) w = ((), w\<lparr> trace := trace w @ ?e # es \<rparr>)"
      using es(1) rc less.prems n ok False
      by (simp add: frame_count_step [of dl] check_io_def sizeof_RetransHeader_def Let_def)
    moreover have "take ?n (drop (20 + i * 8) data) @ take (dl - ?n) (drop (20 + (i + 1) * 8) data) = take dl (drop (20 + i * 8) data)"
    proof (cases "dl \<le> 8")
      case False
      then have "take dl (drop (20 + i * 8) data) = take (8 + (dl - 8)) (drop (20 + i * 8) data)" by simp
      also have "\<dots> = take 8 (drop (20 + i * 8) data) @ take (dl - 8) (drop 8 (drop (20 + i * 8) data))" by (rule take_add)
      finally show ?thesis using False by (simp add: min_def add.commute add.left_commute)
    qed simp
    ultimately show ?thesis
      using es(2-) n fd frame_count_step [of dl] False by (intro exI [of _ "?e # es"]) (auto simp: min_def)
  qed
qed

text \<open>When the message is shorter than the loop takes it to be, the loop runs off the buffer.\<close>

lemma tx_frames_overrun:
  assumes "ub w = None" "bus_takes w h" "length data < 20 + i * 8 + dl"
  shows "ub (snd (run_state (tx_frames (frame_count dl) h ident data i dl) w)) = Some OutOfBounds \<or> dl = 0"
  using assms
proof (induction dl arbitrary: i w rule: less_induct)
  case (less dl)
  show ?case
  proof (cases "20 + i * 8 + min 8 dl \<le> length data")
    case True
    let ?r = "Bus (CanWrite h ident (word_of_nat (min 8 dl)) (frame_data data i (min 8 dl)))"
    let ?w = "w\<lparr> trace := trace w @ [(?r, env w (trace w) ?r)] \<rparr>"
    have dl: "8 < dl" using True less.prems(3) by (auto simp: min_def split: if_splits)
    have rc: "rc (env w (trace w) ?r) = sizeof_can_frame" using less.prems(2) by (simp add: bus_takes_def)
    have "ub (snd (run_state (tx_frames (frame_count (dl - min 8 dl)) h ident data (i + 1) (dl - min 8 dl)) ?w)) = Some OutOfBounds"
      using less.IH [of "dl - min 8 dl" ?w "i + 1"] less.prems dl by (simp add: bus_takes_def)
    then show ?thesis using rc less.prems True dl
      by (simp add: frame_count_step [of dl] check_io_def sizeof_RetransHeader_def Let_def)
  next
    case False
    then show ?thesis using less.prems(1)
      by (cases "dl = 0") (auto simp: frame_count_step [of dl] check_io_def fault_io_def sizeof_RetransHeader_def sizeof_can_frame_def Let_def)
  qed
qed

lemma retransmit_frames: "ub w = None \<Longrightarrow> \<exists>es. trace (snd (run_state (retransmit dev data len) w)) = trace w @ es \<and> frames_of es = []"
  by (auto simp: retransmit_def getCurrentTime_def can_enqueue_def fault_io_def split: sum.split)

lemma frame_count_ceil: "frame_count n = (n + 7) div 8"
proof -
  define a b where "a = n div 8" and "b = n mod 8"
  have n: "n = b + 8 * a" "b < 8" by (simp_all add: a_def b_def)
  have "(b + 7 + 8 * a) div 8 = a + (b + 7) div 8" by (rule div_mult_self2) simp
  moreover have "(b + 7) div 8 = (if b \<noteq> 0 then 1 else 0)" using n(2) by (simp add: div_nat_eqI)
  moreover have "frame_count n = a + (if b \<noteq> 0 then 1 else 0)" by (simp add: frame_count_def a_def b_def)
  moreover have "n + 7 = b + 7 + 8 * a" using n(1) by simp
  ultimately show ?thesis by (simp only:)
qed

lemma message_fits:
  assumes "queue_inv sz q" "contents q = m # ms"
  shows "length m \<le> sz"
proof -
  have "m \<in> set (contents q)" by (simp add: assms(2))
  then obtain k where "k < count q" "m = slot q ((tail q + k) mod MAX_SEGMENTS)" by (auto simp: contents_def)
  with queued_size [OF assms(1)] show ?thesis by (simp add: slot_def min.coboundedI2)
qed

text \<open>
  With a buffer to take messages into, the transmitting thread sends the message that follows the header of 20 bytes whole and in
  order, in frames of at most eight bytes and no more than needed, when the bus takes every frame. A message of fewer than 20
  bytes, as \<open>can_device_send\<close> queues when no repetition is asked for, makes it read past the buffer.
\<close>

theorem can_frames_carry_message:
  assumes "queue_inv MAX_DATA_SIZE (can_tx dev)" "contents (can_tx dev) = m # ms" "length buf = MAX_DATA_SIZE"
    and "sockfd dev = Some h" "ub w = None" "bus_takes w h"
  shows "if 20 \<le> length m
     then let fr = frames_of (events (tx_turn (Some buf) dev) w) in
       concat (map (\<lambda>(n, d). take n d) fr) = drop 20 m \<and> length fr = (length m - 20 + 7) div 8 \<and> (\<forall>(n, d) \<in> set fr. n \<le> 8 \<and> length d = 8)
     else ub (snd (run_state (tx_turn (Some buf) dev) w)) = Some OutOfBounds"
proof -
  have sz: "length m \<le> 256" using message_fits [OF assms(1,2)] by (simp add: MAX_DATA_SIZE_def)
  obtain q where q: "dequeue (can_tx dev) buf 0 = Inr (0, m @ drop (length m) buf, length m, q)"
    using dequeue_first [OF assms(1,2), of buf 0] assms(3) by auto
  let ?d = "m @ drop (length m) buf" and ?dl = "data_len (length m)"
  have d: "length ?d = 256" using sz assms(3) by (simp add: MAX_DATA_SIZE_def)
  show ?thesis
  proof (cases "20 \<le> length m")
    case True
    then have dl: "?dl = length m - 20" using sz by (simp add: data_len_def sizeof_RetransHeader_def nat_diff_distrib)
    obtain es where es: "run_state (tx_frames (frame_count ?dl) h (can_id dev) ?d 0 ?dl) w = ((), w\<lparr> trace := trace w @ es \<rparr>)"
      "concat (map (\<lambda>(n, d). take n d) (frames_of es)) = take ?dl (drop 20 ?d)"
      "length (frames_of es) = frame_count ?dl" "\<forall>(n, d) \<in> set (frames_of es). n \<le> 8 \<and> length d = 8"
      using run_tx_frames [OF assms(5,6), of 0 ?dl ?d "can_id dev"] d dl sz True by auto
    have p: "take ?dl (drop 20 ?d) = drop 20 m" using True dl by simp
    let ?w = "w\<lparr> trace := trace w @ es \<rparr>"
    obtain fs where fs: "trace (snd (run_state (retransmit (dev\<lparr> can_tx := q \<rparr>) ?d (length m)) ?w)) = trace ?w @ fs" "frames_of fs = []"
      using retransmit_frames [of ?w "dev\<lparr> can_tx := q \<rparr>" ?d "length m"] assms(5) by auto
    have "events (tx_turn (Some buf) dev) w = es @ fs"
      unfolding events_def using q es(1) fs(1) d assms(4)
      by (simp add: tx_turn_def check_io_def sizeof_RetransHeader_def case_prod_beta)
    with True es(2-4) p fs(2) dl show ?thesis by (simp add: Let_def frame_count_ceil)
  next
    case False
    have big: "256 < ?dl"
    proof -
      have "(int (length m) - 20) mod 2 ^ 64 = int (length m) - 20 + 2 ^ 64"
        using False mod_add_self2 [of "int (length m) - 20" "2 ^ 64"] mod_pos_pos_trivial [of "int (length m) - 20 + 2 ^ 64" "2 ^ 64"]
        by (simp del: mod_add_self2)
      then show ?thesis using False by (simp add: data_len_def sizeof_RetransHeader_def)
    qed
    let ?w = "snd (run_state (tx_frames (frame_count ?dl) h (can_id dev) ?d 0 ?dl) w)"
    have f: "ub ?w = Some OutOfBounds"
      using tx_frames_overrun [OF assms(5,6), of ?d 0 ?dl "can_id dev"] d big by auto
    have r: "wf_io (retransmit dv dd n)" for dv dd n
      unfolding retransmit_def getCurrentTime_def can_enqueue_def
      by (intro wf_io_intros)
    show ?thesis using False q f fault_kept [OF r f] d assms(4)
      by (simp add: tx_turn_def check_io_def sizeof_RetransHeader_def case_prod_beta)
  qed
qed

subsection \<open>Examples\<close>

definition bus_world :: world where
  "bus_world = \<lparr> env = \<lambda>_ r. \<lparr> rc = (case r of Bus (CanWrite _ _ _ _) \<Rightarrow> 16 | Bus CanSocket \<Rightarrow> 1 | _ \<Rightarrow> 0), vl = 0, out = [] \<rparr>,
     localtime = \<lambda>_. tm_example, trace = [], ub = None \<rparr>"

lemma bus_world_ok: "ub bus_world = None" "bus_takes bus_world h"
  by (simp_all add: bus_world_def bus_takes_def sizeof_can_frame_def)

lemma length_header [simp]: "length (retrans_header number timeouts t) = 20"
  by (simp add: retrans_header_def time_bytes_def)

text \<open>A header and nine bytes.\<close>

definition can_message :: bytes where
  "can_message = retrans_header 2 500 \<lparr> t_sec = 0, t_usec = 0 \<rparr> @ [1, 2, 3, 4, 5, 6, 7, 8, 9]"

theorem can_frames_carry_message_witness:
  "\<exists>dev. length (frames_of (events (tx_turn (Some (replicate 256 0)) dev) bus_world)) = 2"
proof -
  let ?q = "snd (init_queue (can_tx can_device_create) MAX_DATA_SIZE)"
  have q: "queue_inv MAX_DATA_SIZE ?q" "contents ?q = []"
    using init_queue_inv [of "can_tx can_device_create" MAX_DATA_SIZE] by (simp_all add: can_device_create_def Let_def MAX_DATA_SIZE_def)
  have n: "length can_message = 29" by (simp add: can_message_def)
  from q(2) have "count ?q = 0" by (metis length_contents list.size(3))
  with enqueue_accept [OF q(1), of "length can_message" can_message] n obtain q' where
    "queue_inv MAX_DATA_SIZE q'" "contents q' = contents ?q @ [take (length can_message) can_message]" by (auto simp: MAX_DATA_SIZE_def)
  then have q': "queue_inv MAX_DATA_SIZE q'" "contents q' = can_message # []" using q(2) by simp_all
  let ?dev = "can_device_create\<lparr> sockfd := Some 0, can_tx := q' \<rparr>"
  from q' can_frames_carry_message [of ?dev can_message "[]" "replicate 256 0" 0 bus_world] bus_world_ok n
  have "length (frames_of (events (tx_turn (Some (replicate 256 0)) ?dev) bus_world)) = 2" by (simp add: MAX_DATA_SIZE_def Let_def)
  then show ?thesis by blast
qed

subsection \<open>The repetition\<close>

lemma data_len_ge: "20 \<le> n \<Longrightarrow> n \<le> 256 \<Longrightarrow> data_len n = n - 20"
  by (simp add: data_len_def sizeof_RetransHeader_def nat_diff_distrib)

text \<open>A turn that sends a message with its header is the frames, then the decision about the repetition.\<close>

lemma tx_turn_message:
  assumes "queue_inv MAX_DATA_SIZE (can_tx dev)" "contents (can_tx dev) = m # ms" "length buf = MAX_DATA_SIZE"
    and "sockfd dev = Some h" "ub w = None" "bus_takes w h" "20 \<le> length m"
  shows "\<exists>q es. queue_inv MAX_DATA_SIZE q \<and> contents q = ms \<and>
     run_state (tx_turn (Some buf) dev) w =
       (case run_state (retransmit (dev\<lparr> can_tx := q \<rparr>) (m @ drop (length m) buf) (length m)) (w\<lparr> trace := trace w @ es \<rparr>) of (d, v) \<Rightarrow> ((True, d), v))"
proof -
  have sz: "length m \<le> 256" using message_fits [OF assms(1,2)] by (simp add: MAX_DATA_SIZE_def)
  obtain q where q: "dequeue (can_tx dev) buf 0 = Inr (0, m @ drop (length m) buf, length m, q)" "queue_inv MAX_DATA_SIZE q" "contents q = ms"
    using dequeue_first [OF assms(1,2), of buf 0] assms(3) by auto
  let ?d = "m @ drop (length m) buf" and ?dl = "data_len (length m)"
  have d: "length ?d = 256" using sz assms(3) by (simp add: MAX_DATA_SIZE_def)
  obtain es where "run_state (tx_frames (frame_count ?dl) h (can_id dev) ?d 0 ?dl) w = ((), w\<lparr> trace := trace w @ es \<rparr>)"
    using run_tx_frames [OF assms(5,6), of 0 ?dl ?d "can_id dev"] d data_len_ge [OF assms(7) sz] sz assms(7) by auto
  with q d assms(4,5) show ?thesis
    by (intro exI [of _ q] exI [of _ es]) (simp add: tx_turn_def check_io_def sizeof_RetransHeader_def case_prod_beta)
qed

text \<open>The clock of a world stands at \<open>t\<close>.\<close>

definition clock_at :: "world \<Rightarrow> timeval \<Rightarrow> bool" where
  "clock_at w t \<longleftrightarrow> (\<forall>tr. let a = env w tr (Bus Gettimeofday) in rc a = t_sec t \<and> vl a = t_usec t)"

lemma clock_read:
  assumes "clock_at w t" "ub w = None"
  shows "\<exists>es. run_state getCurrentTime w = (t, w\<lparr> trace := trace w @ es \<rparr>)"
  using assms by (intro exI [of _ "[(Bus Gettimeofday, env w (trace w) (Bus Gettimeofday))]"], cases t)
    (simp add: clock_at_def getCurrentTime_def Let_def)

text \<open>What the repetition does with the only message of its queue.\<close>

lemma check_turn_message:
  assumes "queue_inv MAX_DATA_SIZE (can_tx dev)" "contents (can_tx dev) = rest" "count (can_tx dev) < 63"
    and "queue_inv MAX_DATA_SIZE (can_retrans dev)" "contents (can_retrans dev) = [retrans_header n ms sent @ body]"
    and "0 < ms" "stored_time sent" "clock_at v now" "ub v = None" "length buf = MAX_DATA_SIZE"
  shows "let dev' = fst (run_state (check_turn (Some buf) dev) v); msg = retrans_header n ms sent @ body in
     if ms_passed now sent (uint ms) then contents (can_tx dev') = rest @ [msg] \<and> contents (can_retrans dev') = []
     else contents (can_tx dev') = rest \<and> contents (can_retrans dev') = [msg]"
proof -
  let ?msg = "retrans_header n ms sent @ body"
  let ?d = "?msg @ drop (length ?msg) buf"
  have sz: "length ?msg \<le> MAX_DATA_SIZE" using message_fits [OF assms(4,5)] .
  obtain r where r: "dequeue (can_retrans dev) buf 0 = Inr (0, ?d, length ?msg, r)" "queue_inv MAX_DATA_SIZE r" "contents r = []"
    using dequeue_first [OF assms(4,5), of buf 0] assms(10) by auto
  have c: "count r = 0" using r(3) by (metis length_contents list.size(3))
  have d: "of_le16 (?d ! 2) (?d ! 3) = ms" "time_of (drop 4 ?d) = sent"
    using time_of_bytes [OF assms(7)] by (simp_all add: retrans_header_def le16_def)
  have ms: "\<not> uint ms < 1" using assms(6) by (simp add: word_less_def)
  obtain es where t: "run_state getCurrentTime v = (now, v\<lparr> trace := trace v @ es \<rparr>)" using clock_read [OF assms(8,9)] by blast
  have len: "length ?msg \<le> length ?d" "take (length ?msg) ?d = ?msg" "20 \<le> length ?d" by simp_all
  obtain q' where q': "enqueue (can_tx dev) ?d (length ?msg) = Inr (0, q')" "contents q' = rest @ [?msg]"
    using enqueue_accept [OF assms(1,3) len(1) sz] assms(2) len(2) by auto
  obtain r' where r': "enqueue r ?d (length ?msg) = Inr (0, r')" "contents r' = [?msg]"
    using enqueue_accept [OF r(2) _ len(1) sz] c r(3) len(2) by auto
  show ?thesis
    using r(1,3) d ms t len(3) q' r' assms(2,9)
    by (simp add: check_turn_def check_io_def BeTimeOutMN_def can_enqueue_def sizeof_RetransHeader_def Let_def del: length_append length_header)
qed

lemma header_nth:
  "(retrans_header n ms t @ bs) ! 0 = 1" "(retrans_header n ms t @ bs) ! Suc 0 = n"
  "(retrans_header n ms t @ bs) ! 2 = ucast ms" "(retrans_header n ms t @ bs) ! 3 = ucast (drop_bit 8 ms)"
  by (simp_all add: retrans_header_def le16_def)


definition can_started :: "bytes \<Rightarrow> CANDevice" where
  "can_started m =
     (let q = snd (init_queue (can_tx can_device_create) MAX_DATA_SIZE)
      in can_device_create\<lparr> sockfd := Some 0, can_retrans := q,
           can_tx := (case enqueue q m (length m) of Inr (_, q') \<Rightarrow> q' | Inl _ \<Rightarrow> q) \<rparr>)"

lemma can_started:
  assumes "length m \<le> 256"
  shows "queue_inv MAX_DATA_SIZE (can_tx (can_started m))" "contents (can_tx (can_started m)) = [m]"
    "queue_inv MAX_DATA_SIZE (can_retrans (can_started m))" "contents (can_retrans (can_started m)) = []"
    "sockfd (can_started m) = Some 0"
proof -
  let ?q = "snd (init_queue (can_tx can_device_create) MAX_DATA_SIZE)"
  have q: "queue_inv MAX_DATA_SIZE ?q" "contents ?q = []"
    using init_queue_inv [of "can_tx can_device_create" MAX_DATA_SIZE] by (simp_all add: can_device_create_def Let_def MAX_DATA_SIZE_def)
  then have "count ?q = 0" by (metis length_contents list.size(3))
  with enqueue_accept [OF q(1), of "length m" m] assms q(2) obtain q' where
    "enqueue ?q m (length m) = Inr (0, q')" "queue_inv MAX_DATA_SIZE q'" "contents q' = [m]" by (auto simp: MAX_DATA_SIZE_def)
  with q show "queue_inv MAX_DATA_SIZE (can_tx (can_started m))" "contents (can_tx (can_started m)) = [m]"
    "queue_inv MAX_DATA_SIZE (can_retrans (can_started m))" "contents (can_retrans (can_started m)) = []"
    "sockfd (can_started m) = Some 0"
    by (simp_all add: can_started_def Let_def)
qed

text \<open>A clock that stands at a time.\<close>

definition at_time :: "timeval \<Rightarrow> world" where
  "at_time t = bus_world\<lparr> env := \<lambda>tr r. if r = Bus Gettimeofday then \<lparr> rc = t_sec t, vl = t_usec t, out = [] \<rparr> else env bus_world tr r \<rparr>"

lemma at_time: "clock_at (at_time t) t" "ub (at_time t) = None" "bus_takes (at_time t) h"
  by (simp_all add: at_time_def clock_at_def bus_world_def bus_takes_def sizeof_can_frame_def)


subsection \<open>What happens to a message\<close>

text \<open>The bytes a message takes in the queue.\<close>

definition queued_length :: "nat \<Rightarrow> u8 \<Rightarrow> u16 \<Rightarrow> nat" where
  "queued_length len number timeouts = (if number \<noteq> 0 \<and> timeouts \<noteq> 0 then len + sizeof_RetransHeader else len)"

lemma opened_queue:
  assumes "run_state (can_device_open can_device_create name) w = ((0, dev), w1)"
  shows "queue_inv MAX_DATA_SIZE (can_tx dev) \<and> contents (can_tx dev) = [] \<and> count (can_tx dev) = 0"
proof -
  have q: "can_tx dev = snd (init_queue (can_tx can_device_create) MAX_DATA_SIZE)"
    using assms by (auto simp: can_device_open_def case_prod_beta Let_def split: option.splits if_splits)
  have "length (sizes (can_tx can_device_create)) = MAX_SEGMENTS" by (simp add: can_device_create_def Let_def)
  from init_queue_inv [OF this, of MAX_DATA_SIZE] q show ?thesis by (simp add: MAX_DATA_SIZE_def length_contents [symmetric] del: length_contents)
qed

text \<open>
  After a successful start the first message is accepted exactly when it and its header fit the 256 bytes of a queue segment; a longer
  one overruns it. And a message that was accepted is never sent: the transmitting thread has a null pointer for a buffer, so its next
  turn is a null dereference.
\<close>

theorem can_first_message:
  assumes "run_state (can_device_open can_device_create name) w = ((0, dev), w1)" "ub w1 = None" "len \<le> length data"
    and "run_state (can_device_send dev data len number timeouts) w1 = (dev', w2)"
  shows "(ub w2 = None \<longleftrightarrow> queued_length len number timeouts \<le> 256) \<and>
     (ub w2 = None \<longrightarrow> ub (snd (run_state (tx_thread_turn dev') w2)) = Some NullDeref)"
proof -
  have q: "queue_inv MAX_DATA_SIZE (can_tx dev)" "count (can_tx dev) = 0" using opened_queue [OF assms(1)] by simp_all
  have accept: "run_state (can_enqueue (\<lambda>q. dev\<lparr> can_tx := q \<rparr>) (can_tx dev) d n) w0 = (dev', w2) \<Longrightarrow> ub w0 = None \<Longrightarrow> n \<le> length d \<Longrightarrow>
      (ub w2 = None \<longleftrightarrow> n \<le> 256) \<and> (ub w2 = None \<longrightarrow> tail (can_tx dev') \<noteq> head (can_tx dev'))" for d n w0
  proof (cases "n \<le> 256")
    case True
    assume a: "run_state (can_enqueue (\<lambda>q. dev\<lparr> can_tx := q \<rparr>) (can_tx dev) d n) w0 = (dev', w2)" "ub w0 = None" "n \<le> length d"
    from enqueue_accept [OF q(1) _ a(3)] q(2) True obtain q' where
      "enqueue (can_tx dev) d n = Inr (0, q')" "queue_inv MAX_DATA_SIZE q'" "contents q' = contents (can_tx dev) @ [take n d]"
      by (auto simp: MAX_DATA_SIZE_def)
    moreover from this have "count q' \<noteq> 0" by (metis length_contents length_append_singleton nat.distinct(1))
    ultimately show ?thesis using a(1,2) True count_0_iff [of MAX_DATA_SIZE q'] by (auto simp: can_enqueue_def)
  next
    case False
    assume a: "run_state (can_enqueue (\<lambda>q. dev\<lparr> can_tx := q \<rparr>) (can_tx dev) d n) w0 = (dev', w2)" "ub w0 = None" "n \<le> length d"
    from enqueue_overflow [OF q(1) _ a(3)] q(2) False have "enqueue (can_tx dev) d n = Inl BufferOverflow" by (simp add: MAX_DATA_SIZE_def)
    with a(1,2) False show ?thesis by (auto simp: can_enqueue_def fault_io_def)
  qed
  have "(ub w2 = None \<longleftrightarrow> queued_length len number timeouts \<le> 256) \<and> (ub w2 = None \<longrightarrow> tail (can_tx dev') \<noteq> head (can_tx dev'))"
  proof (cases "number \<noteq> 0 \<and> timeouts \<noteq> 0")
    case True
    let ?a = "env w1 (trace w1) (Bus Gettimeofday)"
    let ?t = "\<lparr> t_sec = rc ?a, t_usec = vl ?a \<rparr>"
    from True assms(2,3,4) have "run_state (can_enqueue (\<lambda>q. dev\<lparr> can_tx := q \<rparr>) (can_tx dev) (retrans_header number timeouts ?t @ take len data) (len + 20))
        (w1\<lparr> trace := trace w1 @ [(Bus Gettimeofday, ?a)] \<rparr>) = (dev', w2)"
      by (simp add: can_device_send_def getCurrentTime_def check_io_def sizeof_RetransHeader_def)
    from accept [OF this] True assms(2,3) show ?thesis by (simp add: queued_length_def sizeof_RetransHeader_def)
  next
    case False
    with assms(4) have "run_state (can_enqueue (\<lambda>q. dev\<lparr> can_tx := q \<rparr>) (can_tx dev) data len) w1 = (dev', w2)"
      by (auto simp: can_device_send_def)
    from accept [OF this assms(2,3)] False show ?thesis by (auto simp: queued_length_def)
  qed
  then show ?thesis by (auto simp: tx_thread_turn_def tx_turn_def fault_io_def)
qed

theorem can_first_message_witness:
  "\<exists>dev w dev' w'. run_state (can_device_open can_device_create ''can0'') bus_world = ((0, dev), w) \<and>
     run_state (can_device_send dev [1, 2, 3] 3 0 0) w = (dev', w') \<and> ub w' = None \<and>
     ub (snd (run_state (tx_thread_turn dev') w')) = Some NullDeref"
proof -
  obtain dev w where o: "run_state (can_device_open can_device_create ''can0'') bus_world = ((0, dev), w)" "ub w = None"
    by (simp add: can_device_open_def bus_world_def check_io_def Let_def)
  obtain dev' w' where s: "run_state (can_device_send dev [1, 2, 3] 3 0 0) w = (dev', w')" by fastforce
  from can_first_message [OF o _ s] o s show ?thesis
    by (intro exI [of _ dev] exI [of _ w] exI [of _ dev'] exI [of _ w']) (simp add: queued_length_def)
qed

subsection \<open>The end of the driver\<close>

text \<open>
  \<open>can_device_close\<close> clears the flag and joins both threads. The receiving thread tests the flag, the transmitting one the address of it,
  which is never null.
\<close>

datatype can_pos = C_open | C_flagged | C_rx_joined | C_tx_joined | C_closed

datatype can_loop = W_test | W_turn | W_ended

record CanLife =
  device :: CANDevice
  outside :: world
  c_pos :: can_pos
  rx_pos :: can_loop
  tx_pos :: can_loop

datatype can_act = CanClose | CanRx | CanTx | CanSend bytes nat u8 u16

definition address_not_null :: bool where "address_not_null = True"

definition can_step :: "can_act \<Rightarrow> CanLife \<Rightarrow> CanLife option" where
  "can_step act l = (if ub (outside l) \<noteq> None then None else case act of
     CanClose \<Rightarrow> (case c_pos l of
         C_open \<Rightarrow> Some (l\<lparr> device := (device l)\<lparr> running := False \<rparr>, c_pos := C_flagged \<rparr>)
       | C_flagged \<Rightarrow> if rx_pos l = W_ended then Some (l\<lparr> c_pos := C_rx_joined \<rparr>) else None
       | C_rx_joined \<Rightarrow> if tx_pos l = W_ended then Some (l\<lparr> c_pos := C_tx_joined \<rparr>) else None
       | C_tx_joined \<Rightarrow> (case run_state (can_device_close (device l)) (outside l) of
                          (d, w) \<Rightarrow> Some (l\<lparr> device := d, outside := w, c_pos := C_closed \<rparr>))
       | C_closed \<Rightarrow> None)
   | CanRx \<Rightarrow> (case rx_pos l of
         W_test \<Rightarrow> Some (l\<lparr> rx_pos := if running (device l) then W_turn else W_ended \<rparr>)
       | W_turn \<Rightarrow> Some (l\<lparr> outside := snd (run_state (rx_thread_turn (device l)) (outside l)), rx_pos := W_test \<rparr>)
       | W_ended \<Rightarrow> None)
   | CanTx \<Rightarrow> (case tx_pos l of
         W_test \<Rightarrow> Some (l\<lparr> tx_pos := if address_not_null then W_turn else W_ended \<rparr>)
       | W_turn \<Rightarrow> (case run_state (tx_thread_turn (device l)) (outside l) of
                     ((_, d), w) \<Rightarrow> Some (l\<lparr> device := d, outside := w, tx_pos := W_test \<rparr>))
       | W_ended \<Rightarrow> None)
   | CanSend data len number timeouts \<Rightarrow> (case run_state (can_device_send (device l) data len number timeouts) (outside l) of
                     (d, w) \<Rightarrow> Some (l\<lparr> device := d, outside := w \<rparr>)))"

abbreviation can_run :: "can_act list \<Rightarrow> CanLife \<Rightarrow> CanLife option" where
  "can_run \<equiv> run_acts can_step"

definition tx_lives :: "CanLife \<Rightarrow> bool" where
  "tx_lives l \<longleftrightarrow> tx_pos l \<noteq> W_ended \<and> c_pos l \<in> {C_open, C_flagged, C_rx_joined}"

interpretation can: stepwise can_step tx_lives
proof
  fix l l' a
  assume "tx_lives l" "can_step a l = Some l'"
  then show "tx_lives l'"
    by (cases a; cases "c_pos l"; cases "tx_pos l"; cases "rx_pos l")
      (auto simp: tx_lives_def can_step_def address_not_null_def split: prod.splits if_splits)
qed

text \<open>
  Once the driver is open it is never closed: whatever the threads do and whatever is sent, no run brings \<open>can_device_close\<close> past the
  join of the transmitting thread; it gets as far as that join when the receiving thread ends, for which a frame has to arrive.
\<close>

theorem can_close_never_returns:
  assumes "c_pos l = C_open" "tx_pos l = W_test" "rx_pos l = W_test" "ub (outside l) = None"
  shows "(\<forall>as l'. can_run as l = Some l' \<longrightarrow> c_pos l' \<notin> {C_tx_joined, C_closed}) \<and>
     (\<exists>l'. can_run [CanClose, CanRx, CanClose] l = Some l' \<and> c_pos l' = C_rx_joined)"
proof -
  have "tx_lives l" using assms by (simp add: tx_lives_def)
  then have "c_pos l' \<notin> {C_tx_joined, C_closed}" if "can_run as l = Some l'" for as l'
    using can.run_keeps [OF that] by (auto simp: tx_lives_def)
  moreover have "\<exists>l'. can_run [CanClose, CanRx, CanClose] l = Some l' \<and> c_pos l' = C_rx_joined"
    using assms by (simp add: can_step_def)
  ultimately show ?thesis by blast
qed

theorem can_close_never_returns_witness:
  "\<exists>l'. can_run [CanClose, CanRx, CanClose] \<lparr> device = can_device_create, outside = bus_world, c_pos = C_open, rx_pos = W_test, tx_pos = W_test \<rparr>
     = Some l' \<and> c_pos l' = C_rx_joined"
  using can_close_never_returns [of "\<lparr> device = can_device_create, outside = bus_world, c_pos = C_open, rx_pos = W_test, tx_pos = W_test \<rparr>"]
  by (simp add: bus_world_ok)

end
