(* ===== verification/UsbDevice.thy ===== *)
theory UsbDevice
  imports World
begin

text \<open>
  \<open>hal/usb.c\<close>, the driver of a USB device with bulk endpoints over libusb; commented out in \<open>src/Makefile\<close>, no service calls it.
  A handle that was closed is used again when the trace has its closing already.
\<close>

record USBDevice =
  usb_handle :: "nat option"
  vid :: u16
  pid :: u16
  in_ep :: u8
  out_ep :: u8
  bulk_interface :: u8
  usb_cb :: bool

definition LIBUSB_SUCCESS :: int where "LIBUSB_SUCCESS = 0"
definition LIBUSB_ERROR_INVALID_PARAM :: int where "LIBUSB_ERROR_INVALID_PARAM = -2"
definition LIBUSB_ERROR_NO_DEVICE :: int where "LIBUSB_ERROR_NO_DEVICE = -4"

lemmas usb_codes = LIBUSB_SUCCESS_def LIBUSB_ERROR_INVALID_PARAM_def LIBUSB_ERROR_NO_DEVICE_def

definition closed :: "nat \<Rightarrow> event list \<Rightarrow> bool" where
  "closed h tr = list_ex (\<lambda>e. fst e = Usb (UsbClose h)) tr"

definition use_handle :: "nat \<Rightarrow> unit io" where
  "use_handle h = do { w \<leftarrow> State_Monad.get; check_io (\<not> closed h (trace w)) UseAfterFree }"

subsection \<open>Opening and closing\<close>

definition usb_open :: "USBDevice \<Rightarrow> (int \<times> USBDevice) io" where
  "usb_open self = do {
     h \<leftarrow> call_handle (Usb (UsbOpen (vid self) (pid self)));
     case h of None \<Rightarrow> ret (LIBUSB_ERROR_NO_DEVICE, self\<lparr> usb_handle := None \<rparr>)
     | Some d \<Rightarrow> do {
         a \<leftarrow> call (Usb (UsbClaim d (bulk_interface self)));
         if rc a \<noteq> LIBUSB_SUCCESS
         then do { tell (Usb (UsbClose d)); ret (rc a, self\<lparr> usb_handle := None \<rparr>) }
         else ret (rc a, self\<lparr> usb_handle := h \<rparr>) } }"

definition usb_close :: "USBDevice \<Rightarrow> (int \<times> USBDevice) io" where
  "usb_close self = (case usb_handle self of
     None \<Rightarrow> ret (LIBUSB_ERROR_INVALID_PARAM, self)
   | Some d \<Rightarrow> do {
       use_handle d;
       tell (Usb (UsbRelease d (bulk_interface self)));
       tell (Usb (UsbClose d));
       ret (LIBUSB_SUCCESS, self\<lparr> usb_handle := None \<rparr>) })"

definition usb_register_callback :: "USBDevice \<Rightarrow> bool \<Rightarrow> USBDevice" where
  "usb_register_callback self cb = self\<lparr> usb_cb := cb \<rparr>"

subsection \<open>Transfers\<close>

text \<open>A handle handed to the library: a null one is dereferenced there.\<close>

definition with_handle :: "USBDevice \<Rightarrow> 'a \<Rightarrow> (nat \<Rightarrow> 'a io) \<Rightarrow> 'a io" where
  "with_handle self x m = (case usb_handle self of
     None \<Rightarrow> do { fault_io NullDeref; ret x } | Some d \<Rightarrow> do { use_handle d; m d })"

text \<open>\<open>buffer\<close> is the caller's object, \<open>None\<close> the null pointer. The library answers the bytes received.\<close>

definition usb_bulk_read :: "USBDevice \<Rightarrow> string option \<Rightarrow> int \<Rightarrow> u32 \<Rightarrow> (int \<times> string option) io" where
  "usb_bulk_read self buffer len timeout = (case buffer of
     None \<Rightarrow> ret (-1, None)
   | Some buf \<Rightarrow> if len \<le> 0 then ret (-1, buffer) else with_handle self (0, buffer) (\<lambda>d. do {
       a \<leftarrow> call (Usb (UsbBulkIn d (in_ep self) (nat len) timeout));
       if rc a < 0 then ret (rc a, buffer)
       else let bs = take (nat len) (concat (out a)) in do {
         check_io (length bs \<le> length buf) BufferOverflow;
         ret (int (length bs), Some (bs @ drop (length bs) buf)) } }))"

text \<open>
  The write cuts the buffer into packages of 64 bytes, but tests a bit of the length where it means the remainder, and hands the whole length to
  the library each time. \<open>k\<close> packages are left, the next is number \<open>i\<close>, \<open>off\<close> is how far the pointer has moved.
\<close>

definition packages :: "int \<Rightarrow> nat" where
  "packages len = nat (len div 64) + (if len AND 64 \<noteq> 0 then 1 else 0)"

definition send_len :: "int \<Rightarrow> nat \<Rightarrow> u8" where
  "send_len len i = (let rest = word_of_int len - word_of_nat (i * 64) :: u32 in if 64 < rest then 64 else ucast rest)"

fun bulk_packages :: "nat \<Rightarrow> nat \<Rightarrow> nat \<Rightarrow> nat \<Rightarrow> u8 \<Rightarrow> string \<Rightarrow> int \<Rightarrow> u32 \<Rightarrow> int io" where
  "bulk_packages 0 i off d ep buf len timeout = ret 0"
| "bulk_packages (Suc k) i off d ep buf len timeout = do {
     check_io (off + nat len \<le> length buf) OutOfBounds;
     a \<leftarrow> call (Usb (UsbBulkOut d ep (take (nat len) (drop off buf)) timeout));
     if rc a < 0 then ret (rc a)
     else bulk_packages k (i + 1) (off + unat (send_len len i)) d ep buf len timeout }"

definition usb_bulk_write :: "USBDevice \<Rightarrow> string option \<Rightarrow> int \<Rightarrow> u32 \<Rightarrow> int io" where
  "usb_bulk_write self buffer len timeout = (case buffer of
     None \<Rightarrow> ret (-1)
   | Some buf \<Rightarrow> if len \<le> 0 then ret (-1)
       else if packages len = 0 then ret 0
       else with_handle self 0 (\<lambda>d. bulk_packages (packages len) 0 0 d (out_ep self) buf len timeout))"

subsection \<open>Creating and destroying\<close>

text \<open>
  The configuration is answered as one string per alternate setting: the interface number, then for each endpoint its address and its
  attributes. The last bulk endpoint of each direction is taken.
\<close>

fun ep_list :: "string \<Rightarrow> (u8 \<times> u8) list" where
  "ep_list (a # b # s) = (of_char a, of_char b) # ep_list s"
| "ep_list _ = []"

definition take_endpoint :: "u8 \<Rightarrow> u8 \<times> u8 \<Rightarrow> USBDevice \<Rightarrow> USBDevice" where
  "take_endpoint iface e dev = (case e of (addr, attr) \<Rightarrow>
     if attr AND 3 = 2
     then (if addr AND 0x80 \<noteq> 0 then dev\<lparr> in_ep := addr \<rparr> else dev\<lparr> out_ep := addr \<rparr>)\<lparr> bulk_interface := iface \<rparr>
     else dev)"

definition take_setting :: "string \<Rightarrow> USBDevice \<Rightarrow> USBDevice" where
  "take_setting alt dev = (case alt of [] \<Rightarrow> dev | i # s \<Rightarrow> fold (take_endpoint (of_char i)) (ep_list s) dev)"

text \<open>\<open>None\<close>: the program has exited. The handle is closed at the end, and kept.\<close>

definition usb_device_create :: "u16 \<Rightarrow> u16 \<Rightarrow> USBDevice option io" where
  "usb_device_create v p = do {
     tell (Usb UsbInit);
     h \<leftarrow> call_handle (Usb (UsbOpen v p));
     case h of None \<Rightarrow> ret None
     | Some d \<Rightarrow> do {
         a \<leftarrow> call (Usb (UsbDevDesc d));
         if rc a < 0 then ret None
         else do {
           c \<leftarrow> call (Usb (UsbConfDesc d));
           if rc c < 0 then ret None
           else do {
             tell (Usb (UsbFreeConf d));
             tell (Usb (UsbClose d));
             ret (Some (fold take_setting (out c) \<lparr> usb_handle = h, vid = v, pid = p, in_ep = 0, out_ep = 0, bulk_interface = 0, usb_cb = False \<rparr>)) } } } }"

definition usb_device_destroy :: "USBDevice option \<Rightarrow> unit io" where
  "usb_device_destroy dev = (case dev of None \<Rightarrow> ret ()
     | Some self \<Rightarrow> do {
         (case usb_handle self of None \<Rightarrow> ret () | Some _ \<Rightarrow> do { usb_close self; ret () });
         tell (Usb UsbExit) })"

subsection \<open>What a write sends\<close>

lemma and_64: "(n AND 64 :: int) \<noteq> 0 \<longleftrightarrow> odd (n div 64)"
  using and_exp_eq_0_iff_not_bit [of n 6] by (simp add: bit_iff_odd)

lemma packages_small: "0 < n \<Longrightarrow> n < 64 \<Longrightarrow> packages n = 0"
  by (simp add: packages_def and_64)

lemma packages_large:
  assumes "64 \<le> n"
  shows "2 \<le> packages n"
proof -
  have "1 \<le> n div 64" using assms by linarith
  then consider "n div 64 = 1" | "2 \<le> n div 64" by linarith
  then show ?thesis by cases (auto simp: packages_def and_64)
qed

text \<open>
  A write of a whole buffer of \<open>n\<close> bytes does what it promises for no \<open>n\<close>. Below 64 it reports success and sends nothing. From 64 on, on a
  device that takes every transfer, the first transfer already sends the whole buffer, and the second reads behind its end.
\<close>

theorem bulk_write_never_right:
  assumes "ub w = None" "usb_handle self = Some d" "\<not> closed d (trace w)" "n = int (length buf)" "buf \<noteq> []" "n < 2 ^ 31"
    and "\<forall>tr ep bs t. 0 \<le> rc (env w tr (Usb (UsbBulkOut d ep bs t)))"
  shows "if n < 64 then run_state (usb_bulk_write self (Some buf) n timeout) w = (0, w)
     else map fst (events (usb_bulk_write self (Some buf) n timeout) w) = [Usb (UsbBulkOut d (out_ep self) buf timeout)] \<and>
       ub (snd (run_state (usb_bulk_write self (Some buf) n timeout) w)) = Some OutOfBounds"
proof (cases "n < 64")
  case True
  with packages_small [of n] assms show ?thesis by (simp add: usb_bulk_write_def)
next
  case False
  then obtain k where k: "packages n = Suc (Suc k)" using packages_large [of n] by (metis Suc_le_D numeral_2_eq_2 not_less Suc_le_mono)
  have s: "unat (send_len n 0) = 64"
  proof (cases "n = 64")
    case True
    then show ?thesis by (simp add: send_len_def)
  next
    case False
    with \<open>\<not> n < 64\<close> have "64 < (word_of_int n :: u32)" using assms(6) by (simp add: word_less_alt uint_word_of_int)
    then show ?thesis by (simp add: send_len_def)
  qed
  have n: "nat n = length buf" "\<not> n \<le> 0" using assms(4,5) by simp_all
  have stays: "run_state (bulk_packages j i off d ep buf m t) v = (x, v') \<Longrightarrow> ub v = Some e \<Longrightarrow> v' = v" for j i off ep m t v x v' e
    by (induction j arbitrary: i off v x) (auto simp: check_io_def fault_io_def split: if_splits)
  let ?r = "Usb (UsbBulkOut d (out_ep self) buf timeout)"
  let ?w = "w\<lparr> trace := trace w @ [(?r, env w (trace w) ?r)] \<rparr>"
  have ok: "\<not> rc (env w (trace w) ?r) < 0" using assms(7) by (simp add: not_less)
  have "run_state (bulk_packages (Suc (Suc k)) 0 0 d (out_ep self) buf n timeout) w = run_state (bulk_packages (Suc k) 1 64 d (out_ep self) buf n timeout) ?w"
    by (subst bulk_packages.simps) (use n assms(1) ok s in \<open>simp add: check_io_def del: bulk_packages.simps\<close>)
  then have "run_state (usb_bulk_write self (Some buf) n timeout) w = run_state (bulk_packages (Suc k) 1 64 d (out_ep self) buf n timeout) ?w"
    using k n assms(1,2,3) by (simp add: usb_bulk_write_def with_handle_def use_handle_def check_io_def del: bulk_packages.simps)
  moreover have "\<exists>x. run_state (bulk_packages (Suc k) 1 64 d (out_ep self) buf n timeout) ?w = (x, ?w\<lparr> ub := Some OutOfBounds \<rparr>)"
  proof -
    let ?v = "?w\<lparr> ub := Some OutOfBounds \<rparr>"
    obtain x v' where x: "run_state (bulk_packages k 2 (64 + unat (send_len n 1)) d (out_ep self) buf n timeout) ?v = (x, v')" by fastforce
    have "v' = ?v" by (rule stays [OF x]) simp
    with x show ?thesis using n assms(1) by (auto simp: check_io_def fault_io_def numeral_2_eq_2)
  qed
  ultimately show ?thesis using False unfolding events_def by auto
qed

definition usb_world :: world where
  "usb_world = \<lparr> env = \<lambda>_ r. \<lparr> rc = (case r of Usb (UsbOpen _ _) \<Rightarrow> 1 | _ \<Rightarrow> 0), vl = 0, out = [] \<rparr>,
     localtime = \<lambda>_. tm_example, trace = [], ub = None \<rparr>"

definition usb_example :: USBDevice where
  "usb_example = \<lparr> usb_handle = Some 0, vid = 1, pid = 2, in_ep = 0x81, out_ep = 1, bulk_interface = 0, usb_cb = False \<rparr>"

theorem bulk_write_never_right_witness:
  "run_state (usb_bulk_write usb_example (Some ''hello'') 5 100) usb_world = (0, usb_world) \<and>
   ub (snd (run_state (usb_bulk_write usb_example (Some (replicate 64 CHR ''x'')) 64 100) usb_world)) = Some OutOfBounds"
proof
  show "run_state (usb_bulk_write usb_example (Some ''hello'') 5 100) usb_world = (0, usb_world)"
    using bulk_write_never_right [of usb_world usb_example 0 5 "''hello''" 100] by (simp add: usb_world_def usb_example_def closed_def)
  show "ub (snd (run_state (usb_bulk_write usb_example (Some (replicate 64 CHR ''x'')) 64 100) usb_world)) = Some OutOfBounds"
    using bulk_write_never_right [of usb_world usb_example 0 64 "replicate 64 CHR ''x''" 100] by (simp add: usb_world_def usb_example_def closed_def)
qed

subsection \<open>The handle over the life of a device\<close>

datatype usb_op = UOpen | UClose

fun usb_ops :: "usb_op list \<Rightarrow> USBDevice \<Rightarrow> USBDevice io" where
  "usb_ops [] dev = ret dev"
| "usb_ops (UOpen # ops) dev = do { (_, dev) \<leftarrow> usb_open dev; usb_ops ops dev }"
| "usb_ops (UClose # ops) dev = do { (_, dev) \<leftarrow> usb_close dev; usb_ops ops dev }"

text \<open>The device and the trace: no release twice, and the handle of the device is none that was closed.\<close>

definition handle_ok :: "USBDevice \<Rightarrow> world \<Rightarrow> bool" where
  "handle_ok dev w \<longleftrightarrow> ub w = None \<and> distinct (releases (trace w)) \<and> (\<forall>h. closed h (trace w) \<longrightarrow> h < length (trace w)) \<and>
     (\<forall>h. usb_handle dev = Some h \<longrightarrow> \<not> closed h (trace w) \<and> h < length (trace w))"

lemma closed_simps [simp]: "\<not> closed h []" "closed h (tr @ tr') \<longleftrightarrow> closed h tr \<or> closed h tr'"
  "closed h ((r, a) # tr) \<longleftrightarrow> r = Usb (UsbClose h) \<or> closed h tr"
  by (simp_all add: closed_def)

lemma closed_release: "Usb (UsbClose h) \<in> set (releases tr) \<longleftrightarrow> closed h tr"
  by (force simp: releases_def closed_def list_ex_iff)

lemma open_handle:
  assumes "ub w = None" "distinct (releases (trace w))" "\<forall>h. closed h (trace w) \<longrightarrow> h < length (trace w)"
  shows "handle_ok (snd (fst (run_state (usb_open dev) w))) (snd (run_state (usb_open dev) w))"
  using assms by (auto simp: usb_open_def handle_ok_def usb_codes closed_release less_Suc_eq)

lemma close_handle:
  assumes "handle_ok dev w"
  shows "handle_ok (snd (fst (run_state (usb_close dev) w))) (snd (run_state (usb_close dev) w))"
  using assms by (auto simp: usb_close_def handle_ok_def use_handle_def check_io_def closed_release less_Suc_eq split: option.split)

lemma ops_handle: "handle_ok dev w \<Longrightarrow> handle_ok (fst (run_state (usb_ops ops dev) w)) (snd (run_state (usb_ops ops dev) w))"
proof (induction ops dev arbitrary: w rule: usb_ops.induct)
  case (2 ops dev)
  then show ?case using open_handle [of w dev] by (simp add: handle_ok_def case_prod_beta)
next
  case (3 ops dev)
  then show ?case using close_handle [of dev w] by (simp add: case_prod_beta)
qed simp

text \<open>After a closed handle was used nothing more happens.\<close>

lemma wf_usb [wf_io_intros]: "wf_io (usb_open dev)" "wf_io (usb_close dev)"
  unfolding usb_open_def usb_close_def use_handle_def by (intro wf_io_intros)+

lemma wf_usb_ops [wf_io_intros]: "wf_io (usb_ops ops dev)"
  by (induction ops dev rule: usb_ops.induct) (auto intro!: wf_io_intros)

lemma wf_usb_destroy: "wf_io (usb_device_destroy dev)"
  unfolding usb_device_destroy_def by (intro wf_io_intros)

definition usb_life :: "u16 \<Rightarrow> u16 \<Rightarrow> usb_op list \<Rightarrow> unit io" where
  "usb_life v p ops = do {
     d \<leftarrow> usb_device_create v p;
     case d of None \<Rightarrow> ret ()
     | Some dev \<Rightarrow> do { dev \<leftarrow> usb_ops ops dev; usb_device_destroy (Some dev) } }"

lemma created_device:
  assumes "ub w = None" "trace w = []" "value_of (usb_device_create v p) w = Some dev"
  shows "\<exists>w'. run_state (usb_device_create v p) w = (Some dev, w') \<and> ub w' = None \<and> closed 1 (trace w') \<and> usb_handle dev = Some 1 \<and>
     distinct (releases (trace w')) \<and> (\<forall>h. closed h (trace w') \<longrightarrow> h < length (trace w'))"
proof -
  have k: "usb_handle (take_setting s d) = usb_handle d" for s d
  proof -
    have "usb_handle (fold (take_endpoint i) es x) = usb_handle x" for i es x
      by (induction es arbitrary: x) (auto simp: take_endpoint_def split: prod.split)
    then show ?thesis by (simp add: take_setting_def split: list.split)
  qed
  have "usb_handle (fold take_setting ss d) = usb_handle d" for ss d
    by (induction ss arbitrary: d) (simp_all add: k)
  with assms show ?thesis by (auto simp: usb_device_create_def value_of_def split: if_splits)
qed



end
