(* ===== verification/I2cBus.thy ===== *)
theory I2cBus
  imports World
begin

text \<open>
  \<open>hal/iic.c\<close>, the driver of a device on the I2C bus; commented out in \<open>src/Makefile\<close>, no service calls it. A transfer is a list of messages:
  slave address, whether it reads, length, and for a write the bytes. The descriptor is \<open>None\<close> while it is 0 or -1.
\<close>

record I2CDevice =
  slave_addr :: u8
  i2c_fd :: "nat option"
  dev_path :: string

text \<open>\<open>strncpy\<close> of at most 63 characters into the cleared array.\<close>

definition i2c_device_create :: "string \<Rightarrow> u8 \<Rightarrow> I2CDevice" where
  "i2c_device_create path addr = \<lparr> slave_addr = addr, i2c_fd = None, dev_path = take 63 path \<rparr>"

text \<open>When the address cannot be set the descriptor is closed and keeps its number.\<close>

definition i2c_open :: "I2CDevice \<Rightarrow> (int \<times> I2CDevice) io" where
  "i2c_open dev = do {
     f \<leftarrow> call_handle (Dev (DevOpen (dev_path dev)));
     case f of None \<Rightarrow> ret (-1, dev\<lparr> i2c_fd := None \<rparr>)
     | Some h \<Rightarrow> do {
         a \<leftarrow> call (Bus (I2cSlave h (slave_addr dev)));
         if rc a < 0 then do { tell (Dev (DevClose h)); ret (-1, dev\<lparr> i2c_fd := f \<rparr>) }
         else ret (0, dev\<lparr> i2c_fd := f \<rparr>) } }"

definition i2c_close :: "I2CDevice \<Rightarrow> unit io" where
  "i2c_close dev = (case i2c_fd dev of None \<Rightarrow> ret () | Some h \<Rightarrow> tell (Dev (DevClose h)))"

text \<open>\<open>ioctl(I2C_RDWR)\<close>: the return value and the bytes read.\<close>

definition i2c_transfer :: "I2CDevice \<Rightarrow> (u8 \<times> bool \<times> u16 \<times> string) list \<Rightarrow> (int \<times> string) io" where
  "i2c_transfer dev msgs = (case i2c_fd dev of None \<Rightarrow> ret (-1, [])
     | Some h \<Rightarrow> do { a \<leftarrow> call (Bus (I2cTransfer h msgs)); ret (rc a, concat (out a)) })"

text \<open>The length of a message is a \<open>uint16_t\<close>; \<open>buf\<close> is the caller's object, which the bus fills up to that length.\<close>

definition i2c_read_block :: "I2CDevice \<Rightarrow> char \<Rightarrow> string \<Rightarrow> nat \<Rightarrow> (int \<times> string) io" where
  "i2c_read_block dev reg buf len = (let n = word_of_nat len :: u16 in do {
     (r, bs) \<leftarrow> i2c_transfer dev [(slave_addr dev, False, 1, [reg]), (slave_addr dev, True, n, [])];
     if r < 0 then ret (r, buf)
     else let got = take (unat n) bs in do {
       check_io (length got \<le> length buf) BufferOverflow;
       ret (r, got @ drop (length got) buf) } })"

definition i2c_read_byte :: "I2CDevice \<Rightarrow> char \<Rightarrow> char \<Rightarrow> (int \<times> char) io" where
  "i2c_read_byte dev reg old = do {
     (r, bs) \<leftarrow> i2c_transfer dev [(slave_addr dev, False, 1, [reg]), (slave_addr dev, True, 1, [])];
     ret (r, if r < 0 \<or> bs = [] then old else hd bs) }"

definition i2c_write_byte :: "I2CDevice \<Rightarrow> char \<Rightarrow> char \<Rightarrow> int io" where
  "i2c_write_byte dev reg v = do { (r, _) \<leftarrow> i2c_transfer dev [(slave_addr dev, False, 2, [reg, v])]; ret r }"

text \<open>The block goes behind the register into memory of its own, which the bus reads up to the length of the message.\<close>

definition i2c_write_block :: "I2CDevice \<Rightarrow> char \<Rightarrow> string \<Rightarrow> nat \<Rightarrow> int io" where
  "i2c_write_block dev reg data len = do {
     check_io (len \<le> length data) OutOfBounds;
     let tmp = reg # take len data; n = word_of_nat (len + 1) :: u16 in do {
       (r, _) \<leftarrow> i2c_transfer dev [(slave_addr dev, False, n, take (unat n) tmp)];
       ret r } }"

subsection \<open>Blocks\<close>

text \<open>A device with a register file: a read answers what the last write to the register at this address carried.\<close>

definition note_write :: "nat \<Rightarrow> u8 \<Rightarrow> char \<Rightarrow> event \<Rightarrow> string \<Rightarrow> string" where
  "note_write h addr reg e s = (case fst e of
     Bus (I2cTransfer g [(a, rd, n, r # bs)]) \<Rightarrow> if g = h \<and> a = addr \<and> \<not> rd \<and> r = reg then bs else s
   | _ \<Rightarrow> s)"

definition written :: "nat \<Rightarrow> u8 \<Rightarrow> char \<Rightarrow> event list \<Rightarrow> string" where
  "written h addr reg tr = fold (note_write h addr reg) tr []"

definition register_file :: "world \<Rightarrow> nat \<Rightarrow> u8 \<Rightarrow> bool" where
  "register_file w h addr \<longleftrightarrow> (\<forall>tr reg n msgs.
     0 \<le> rc (env w tr (Bus (I2cTransfer h msgs))) \<and>
     out (env w tr (Bus (I2cTransfer h [(addr, False, 1, [reg]), (addr, True, n, [])]))) = [take (unat n) (written h addr reg tr)])"

text \<open>
  A block written to a register of such a device is read back unchanged when it has fewer than 65535 bytes. Of a longer one only the
  length modulo 65536 reaches the bus, register included, and the write reports success all the same.
\<close>

theorem i2c_block_roundtrip:
  assumes "ub w = None" "i2c_fd dev = Some h" "register_file w h (slave_addr dev)" "len \<le> length data" "len \<le> length buf"
  shows "if len < 65535
     then \<exists>r w1 r' w2. run_state (i2c_write_block dev reg data len) w = (r, w1) \<and> 0 \<le> r \<and>
       run_state (i2c_read_block dev reg buf len) w1 = ((r', take len data @ drop len buf), w2) \<and> 0 \<le> r' \<and> ub w2 = None
     else 0 \<le> value_of (i2c_write_block dev reg data len) w \<and>
       map fst (events (i2c_write_block dev reg data len) w) =
         [Bus (I2cTransfer h [(slave_addr dev, False, word_of_nat (len + 1), take ((len + 1) mod 65536) (reg # take len data))])]"
proof -
  let ?n = "word_of_nat (len + 1) :: u16"
  have n: "unat ?n = (len + 1) mod 65536" by (rule unat_store_u16)
  have rf: "0 \<le> rc (env w tr (Bus (I2cTransfer h msgs)))"
    "out (env w tr (Bus (I2cTransfer h [(slave_addr dev, False, 1, [reg]), (slave_addr dev, True, k, [])]))) = [take (unat k) (written h (slave_addr dev) reg tr)]" for tr msgs k
    using assms(3) by (simp_all add: register_file_def)
  let ?m = "Bus (I2cTransfer h [(slave_addr dev, False, ?n, take (unat ?n) (reg # take len data))])"
  let ?w = "w\<lparr> trace := trace w @ [(?m, env w (trace w) ?m)] \<rparr>"
  have wr: "run_state (i2c_write_block dev reg data len) w = (rc (env w (trace w) ?m), ?w)"
    using assms(1,2,4) by (simp add: i2c_write_block_def i2c_transfer_def check_io_def Let_def del: of_nat_add)
  show ?thesis
  proof (cases "len < 65535")
    case True
    then have u: "unat ?n = Suc len" and l: "unat (word_of_nat len :: u16) = len" using n by (simp_all add: unat_store_u16)
    then have last: "written h (slave_addr dev) reg (trace ?w) = take len data"
      by (simp add: written_def note_write_def)
    let ?q = "Bus (I2cTransfer h [(slave_addr dev, False, 1, [reg]), (slave_addr dev, True, word_of_nat len, [])])"
    have "out (env w (trace ?w) ?q) = [take len data]" unfolding rf(2) last l by simp
    moreover have "\<not> rc (env w (trace ?w) ?q) < 0" using rf(1) by (simp add: not_less)
    ultimately have "run_state (i2c_read_block dev reg buf len) ?w = ((rc (env w (trace ?w) ?q), take len data @ drop len buf),
        ?w\<lparr> trace := trace ?w @ [(?q, env w (trace ?w) ?q)] \<rparr>)"
      using assms(1,2,4,5) l by (simp add: i2c_read_block_def i2c_transfer_def check_io_def Let_def)
    with wr rf(1) True assms(1) show ?thesis by auto
  next
    case False
    with wr rf(1) n show ?thesis by (simp add: value_of_def events_def)
  qed
qed

definition register_world :: world where
  "register_world = \<lparr> env = \<lambda>tr r. \<lparr> rc = 1, vl = 0, out = (case r of
       Bus (I2cTransfer h [(a, _, _, [reg]), (_, True, n, _)]) \<Rightarrow> [take (unat n) (written h a reg tr)] | _ \<Rightarrow> []) \<rparr>,
     localtime = \<lambda>_. tm_example, trace = [], ub = None \<rparr>"

definition i2c_example :: I2CDevice where
  "i2c_example = \<lparr> slave_addr = 0x50, i2c_fd = Some 3, dev_path = ''/dev/i2c-1'' \<rparr>"

theorem i2c_block_roundtrip_witness:
  "\<exists>r w1 r' w2. run_state (i2c_write_block i2c_example CHR ''r'' ''abc'' 3) register_world = (r, w1) \<and>
     run_state (i2c_read_block i2c_example CHR ''r'' ''xyzt'' 3) w1 = ((r', ''abct''), w2)"
proof -
  have "register_file register_world 3 (slave_addr i2c_example)" by (simp add: register_file_def register_world_def)
  with i2c_block_roundtrip [of register_world i2c_example 3 3 "''abc''" "''xyzt''" "CHR ''r''"] show ?thesis
    by (auto simp: register_world_def i2c_example_def)
qed

text \<open>The descriptor: closed twice when the address could not be set, and whenever the device is closed twice.\<close>

definition closes :: "nat \<Rightarrow> event list \<Rightarrow> nat" where
  "closes h es = length (filter (\<lambda>e. fst e = Dev (DevClose h)) es)"

lemma i2c_closed_twice:
  assumes "ub w = None" "rc (env w (trace w) (Dev (DevOpen (dev_path dev)))) \<noteq> 0"
    and "\<forall>tr a. rc (env w tr (Bus (I2cSlave (length (trace w)) a))) < 0"
  shows "closes (length (trace w)) (events (do { (_, d) \<leftarrow> i2c_open dev; i2c_close d }) w) = 2"
  using assms unfolding events_def by (simp add: i2c_open_def i2c_close_def closes_def)

end
