(* ===== verification/TcpServer.thy ===== *)
theory TcpServer
  imports World
begin

text \<open>
  \<open>net/tcp_server.c\<close> and \<open>net/accept_client.c\<close>: a server on an event loop that is to hold one client; commented out in \<open>src/Makefile\<close>.
  The clients are kept in the order they were allocated; a pointer to one is its position.
\<close>

record AcceptClient =
  ac_base :: "nat option"
  ac_bev :: "nat option"
  ac_fd :: nat
  ac_addr :: u32
  is_close :: bool

record TcpServerSocket =
  tcp_port :: u16
  listen_backlog :: int
  srv_client :: "nat option"
  srv_base :: "nat option"
  clients :: "AcceptClient list"

definition MAX_TIMEOUT_TIME :: int where "MAX_TIMEOUT_TIME = 2"

subsection \<open>A client\<close>

text \<open>The structure is cleared; base, descriptor and address are not stored in it.\<close>

definition accept_client_create :: "nat option \<Rightarrow> nat \<Rightarrow> u32 \<Rightarrow> AcceptClient io" where
  "accept_client_create evb fd addr = do {
     b \<leftarrow> call_handle (Evt (BevNew (case evb of None \<Rightarrow> 0 | Some n \<Rightarrow> n) fd));
     (case b of None \<Rightarrow> fault_io NullDeref | Some h \<Rightarrow> tell (Evt (BevTimeouts h MAX_TIMEOUT_TIME MAX_TIMEOUT_TIME)));
     ret \<lparr> ac_base = None, ac_bev = b, ac_fd = 0, ac_addr = 0, is_close = False \<rparr> }"

definition client_get_addr :: "AcceptClient \<Rightarrow> u32" where
  "client_get_addr self = ac_addr self"

text \<open>What arrives is read in blocks of 4096 bytes until nothing is left, and dropped; with fuel.\<close>

fun client_read_cb :: "nat \<Rightarrow> AcceptClient \<Rightarrow> unit option io" where
  "client_read_cb 0 c = ret None"
| "client_read_cb (Suc n) c = (case ac_bev c of
     None \<Rightarrow> ret (Some ())
   | Some b \<Rightarrow> do {
       a \<leftarrow> call (Evt (BevRead b 4096));
       if rc a \<le> 0 then ret (Some ()) else client_read_cb n c })"

definition client_write_cb :: "AcceptClient \<Rightarrow> AcceptClient" where
  "client_write_cb c = c"

text \<open>Timeout, end of file and error are told apart and treated alike.\<close>

definition client_event_cb :: "AcceptClient \<Rightarrow> AcceptClient" where
  "client_event_cb c = (if is_close c then c else c\<lparr> is_close := True \<rparr>)"

subsection \<open>The server\<close>

definition tcp_accept_cb :: "nat \<Rightarrow> TcpServerSocket \<Rightarrow> TcpServerSocket io" where
  "tcp_accept_cb fd s = do {
     r \<leftarrow> call_stream (Evt (SrvAccept fd));
     case r of None \<Rightarrow> ret s
     | Some (cfd, a) \<Rightarrow> do {
         let addr = word_of_int (vl a) in do {
           c \<leftarrow> accept_client_create (srv_base s) cfd addr;
           let s' = s\<lparr> clients := clients s @ [c] \<rparr> in
             ret (case srv_client s of
                 Some old \<Rightarrow> if client_get_addr c \<noteq> addr then s' else s'
               | None \<Rightarrow> s'\<lparr> srv_client := Some (length (clients s)) \<rparr>) } } }"

text \<open>The event loop: each answer other than 0 is a connection to accept; with fuel.\<close>

fun server_loop :: "nat \<Rightarrow> nat \<Rightarrow> nat \<Rightarrow> TcpServerSocket \<Rightarrow> TcpServerSocket option io" where
  "server_loop 0 b fd s = ret None"
| "server_loop (Suc n) b fd s = do {
     a \<leftarrow> call (Evt (EvWait b));
     if rc a = 0 then ret (Some s) else do { s \<leftarrow> tcp_accept_cb fd s; server_loop n b fd s } }"

definition tcp_server_entry :: "nat \<Rightarrow> TcpServerSocket \<Rightarrow> TcpServerSocket option io" where
  "tcp_server_entry fuel self = do {
     l \<leftarrow> call_handle (Dev Socket);
     case l of None \<Rightarrow> ret (Some self)
     | Some fd \<Rightarrow> do {
         tell (Evt (SrvReuse fd));
         a \<leftarrow> call (Evt (SrvBind fd (tcp_port self)));
         if rc a < 0 then ret (Some self)
         else do {
           a \<leftarrow> call (Evt (SrvListen fd (listen_backlog self)));
           if rc a < 0 then ret (Some self)
           else do {
             tell (Evt (SrvNonBlock fd));
             b \<leftarrow> call_handle (Evt EvBaseNew);
             let self = self\<lparr> srv_base := b \<rparr> in (case b of
               None \<Rightarrow> do { fault_io NullDeref; ret (Some self) }
             | Some evb \<Rightarrow> do {
                 e \<leftarrow> call_handle (Evt (EvReadNew evb fd));
                 case e of None \<Rightarrow> do { fault_io NullDeref; ret (Some self) }
                 | Some ev \<Rightarrow> do {
                     tell (Evt (EvAdd ev));
                     r \<leftarrow> server_loop fuel evb fd self;
                     tell (Evt (EvFree ev));
                     tell (Dev (SockClose fd));
                     tell (Evt (EvBaseFree evb));
                     ret r } }) } } } }"

subsection \<open>Which client the server holds\<close>

fun accepted :: "event \<Rightarrow> bool" where
  "accepted (Evt (SrvAccept _), a) = (rc a \<noteq> 0)"
| "accepted _ = False"

definition holds_first :: "TcpServerSocket \<Rightarrow> bool" where
  "holds_first s \<longleftrightarrow> srv_client s = (if clients s = [] then None else Some 0) \<and> (\<forall>c \<in> set (clients s). client_get_addr c = 0)"

lemma accept_run:
  assumes "ub w = None"
  shows "run_state (tcp_accept_cb fd s) w = (s', w') \<Longrightarrow> ub w' = None \<Longrightarrow> holds_first s \<Longrightarrow>
     holds_first s' \<and> (\<exists>es. trace w' = trace w @ es \<and> length (clients s') = length (clients s) + length (filter accepted es) \<and> releases es = [])"
proof -
  let ?a = "env w (trace w) (Evt (SrvAccept fd))"
  assume r: "run_state (tcp_accept_cb fd s) w = (s', w')" "ub w' = None" "holds_first s"
  show ?thesis
  proof (cases "rc ?a = 0")
    case True
    with assms r show ?thesis by (auto simp: tcp_accept_cb_def)
  next
    case False
    let ?w = "w\<lparr> trace := trace w @ [(Evt (SrvAccept fd), ?a)] \<rparr>"
    obtain c w1 where c: "run_state (accept_client_create (srv_base s) (length (trace w)) (word_of_int (vl ?a))) ?w = (c, w1)" by fastforce
    have w': "w' = w1" "clients s' = clients s @ [c]" "srv_client s' = (if srv_client s = None then Some (length (clients s)) else srv_client s)"
      using assms r(1) False c by (auto simp: tcp_accept_cb_def Let_def split: option.splits)
    with r(2) c assms have "client_get_addr c = 0" "\<exists>es. trace w1 = trace ?w @ es \<and> filter accepted es = [] \<and> releases es = []"
      by (auto simp: accept_client_create_def client_get_addr_def fault_io_def split: if_splits)
    with w' r(3) False show ?thesis by (auto simp: holds_first_def)
  qed
qed

text \<open>
  Whatever connects and in which order: the server holds the first client it accepted for as long as it runs, also after that one has
  closed. Every other connection is accepted, given a structure and a buffer, and lost, as the address of the new client, which is
  compared with its own address, is never stored; nothing is released.
\<close>

theorem server_keeps_first_client:
  assumes "holds_first s" "run_state (server_loop n b fd s) w = (Some s', w')" "ub w = None" "ub w' = None"
  shows "srv_client s' = (if clients s' = [] then None else Some 0) \<and> (\<forall>c \<in> set (clients s'). client_get_addr c = 0) \<and>
     (\<exists>es. trace w' = trace w @ es \<and> length (clients s') = length (clients s) + length (filter accepted es) \<and> releases es = [])"
proof -
  have wf: "wf_io (server_loop n b fd s)" for n s
    by (induction n arbitrary: s) (auto simp: tcp_accept_cb_def accept_client_create_def Let_def intro!: wf_io_intros split: option.split)
  have "holds_first s' \<and> (\<exists>es. trace w' = trace w @ es \<and> length (clients s') = length (clients s) + length (filter accepted es) \<and> releases es = [])"
    using assms
  proof (induction n arbitrary: s w)
    case (Suc n)
    let ?a = "env w (trace w) (Evt (EvWait b))"
    let ?w = "w\<lparr> trace := trace w @ [(Evt (EvWait b), ?a)] \<rparr>"
    show ?case
    proof (cases "rc ?a = 0")
      case True
      with Suc.prems show ?thesis by auto
    next
      case False
      obtain s1 w1 where 1: "run_state (tcp_accept_cb fd s) ?w = (s1, w1)" by fastforce
      with False Suc.prems have r: "run_state (server_loop n b fd s1) w1 = (Some s', w')" by simp
      have u: "ub w1 = None" using fault_stays [OF wf, of n s1 w1] r Suc.prems(4) by simp
      from accept_run [OF _ 1 u Suc.prems(1)] Suc.prems(3) obtain es where es: "holds_first s1" "trace w1 = trace ?w @ es"
        "length (clients s1) = length (clients s) + length (filter accepted es)" "releases es = []" by auto
      from Suc.IH [OF es(1) r u Suc.prems(4)] es(2-4) show ?thesis by auto
    qed
  qed simp
  then show ?thesis by (simp add: holds_first_def)
qed

text \<open>Two clients connect, from different addresses.\<close>

definition server_world :: world where
  "server_world = \<lparr> env = \<lambda>tr r. \<lparr> rc = (case r of Evt (EvWait _) \<Rightarrow> if length (filter accepted tr) < 2 then 1 else 0 | _ \<Rightarrow> 1), vl = int (length tr), out = [] \<rparr>,
     localtime = \<lambda>_. tm_example, trace = [], ub = None \<rparr>"

definition server_example :: TcpServerSocket where
  "server_example = \<lparr> tcp_port = 3000, listen_backlog = 5, srv_client = None, srv_base = Some 0, clients = [] \<rparr>"

theorem server_keeps_first_client_witness:
  "\<exists>s w. run_state (server_loop 3 0 1 server_example) server_world = (Some s, w) \<and> length (clients s) = 2 \<and> srv_client s = Some 0"
proof -
  obtain s w where s: "run_state (server_loop 3 0 1 server_example) server_world = (Some s, w)" "ub w = None" "length (clients s) = 2"
    by (simp add: server_world_def server_example_def tcp_accept_cb_def accept_client_create_def numeral_3_eq_3 Let_def)
  have "holds_first server_example" by (simp add: holds_first_def server_example_def)
  from server_keeps_first_client [OF this s(1) _ s(2)] s(3) have "srv_client s = Some 0" by (auto simp: server_world_def)
  with s show ?thesis by blast
qed

end
