(* ===== verification/Spec2Isabelle.thy ===== *)
theory Spec2Isabelle
  imports Lifecycle CloudLife Program Gateway Nmea CanBus UsbDevice I2cBus TcpServer
begin

text \<open>
  Verification library for \<open>kt_5gbd_dtb\<close>, the C program of a 5G/BeiDou data terminal on a train: it links the
  on-board unit FKZ9 (MQTT and SSH on a local network) to a cloud server (TCP and FTP/HTTP over a 5G modem), reports
  its position, and installs firmware packages the cloud orders.

  \<^bold>\<open>The parts and how they interact.\<close> \<open>src/main.c\<close> reads the device information from the unit, starts the cloud
  service and the FKZ9 service, waits for a signal in a thread of its own and stops them. Both services have an event task that takes frames
  from a ring buffer (\<open>lib/queue.c\<close>) filled by the callbacks of their link, a timer thread on a linked list
  of timers (\<open>lib/list.c\<close>), and handlers. Frames of the unit go from the MQTT callback through \<open>fkz9_queue\<close> and the FKZ9 event
  task to the transmit queue of the TCP client, whose sender thread writes them; commands of the cloud
  go from the TCP read callback through \<open>event_queue\<close> and the cloud event task to a table of handlers, which publish them to MQTT
  or serve them (wave files by SSH and FTP). The OTA timer posts a heartbeat whose answer fills a list of tasks; a thread
  works the list off, downloading packages and handing them to \<open>firmware_updater.c\<close>; tasks for the next
  reboot are kept in a file.

  \<^bold>\<open>How the code is modelled.\<close> C structs are records of the same name and mostly the same field names, enums datatypes,
  integers of fixed width words of that width, strings character lists. A function that can fault
  is in the sum type \<open>outcome\<close> of theory \<open>Prelude\<close>: null dereference, access out of bounds, buffer overflow, use after free, double free. The
  outside (shell, file system, clock, libssh, libcurl, Paho, devices) is theory \<open>World\<close>: each call is a request, the answer comes from
  the parameter \<open>env\<close>, any function of the history and the request, and both are recorded in \<open>trace\<close>, so that safety
  properties speak of the requests a function makes and of their order. \<open>cJSON\<close>'s printer and parser, \<open>malloc\<close>, and the
  content of memory the code does not initialise are arguments of the definitions that use them. Nothing happens after a fault.

  \<^bold>\<open>Theories and sources.\<close>
  \<^item> \<open>Prelude\<close>, \<open>CFloat\<close>, \<open>CString\<close>, \<open>World\<close>: bytes and words, rounding of decimal numbers to
    \<open>double\<close> and \<open>float\<close>, \<open>snprintf\<close>/\<open>sscanf\<close>/\<open>strtok\<close>, the environment and the calculus of requests
    (\<open>events\<close>, \<open>emits\<close>, \<open>ensures\<close>).
  \<^item> \<open>Fifo\<close>: the contract of a bounded queue as locale \<open>fifo\<close>, extended by \<open>rejecting_fifo\<close> for one that refuses when full.
    \<open>Queue\<close> (\<open>lib/queue.c\<close>) and \<open>Linked_List\<close> (\<open>lib/list.c\<close>, with a heap of nodes) interpret them as \<open>ring\<close> and \<open>linked\<close>; every client
    uses the queues through these facts.
  \<^item> \<open>Publib\<close>, \<open>Shell\<close> (\<open>lib/publib.c\<close>): BCD, byte order, time, \<open>_system_\<close> and the file tests.
  \<^item> \<open>Wire\<close>: frame header, \<open>checkSum_8\<close>, the checks of the two receivers.
  \<^item> \<open>TcpClient\<close>, \<open>MqttClient\<close>, \<open>SshClient\<close>, \<open>FtpHandler\<close> (\<open>src/net\<close>). The TCP client is a step relation over its connection
    threads, sender threads, timers and callbacks.
  \<^item> \<open>Context\<close>, \<open>Fkz9Comm\<close> (\<open>services/fkz9_comm.c\<close>), \<open>CloudComm\<close>, \<open>Ota\<close>, \<open>NavData\<close> (\<open>services/cloud_comm.c\<close>),
    \<open>Firmware\<close> (\<open>services/firmware_updater.c\<close>): the shared state \<open>App\<close>, the handlers, the OTA tasks and the timer that sends the position.
  \<^item> \<open>Serial\<close>, \<open>Fx650\<close>, \<open>LaneTo\<close>, \<open>Gpio\<close> (\<open>src/hal\<close>): serial port, modem, navigation receiver, LEDs.
  \<^item> \<open>Startup\<close> (\<open>main.c\<close>, start and stop of \<open>cloud_comm.c\<close> as whole operations), \<open>Program\<close> (the signal thread and \<open>main\<close> from its
    start to its exit code).
  \<^item> \<open>Steps\<close>: runs of a step function and the locale \<open>stepwise\<close> of its invariants. \<open>Lifecycle\<close> (the service of \<open>fkz9_comm.c\<close>) and
    \<open>CloudLife\<close> (the service of \<open>cloud_comm.c\<close> with its TCP client) interleave the statements of start and stop with the threads.
  \<^item> \<open>Gateway\<close>: the MQTT callback and event task of \<open>fkz9_comm.c\<close> composed with the client and threads of \<open>tcp_client.c\<close>.
  \<^item> Code that the \<open>Makefile\<close> or \<open>#if 0\<close> leaves out: \<open>CanBus\<close>, \<open>UsbDevice\<close>, \<open>I2cBus\<close> (the drivers \<open>hal/can.c\<close>, \<open>usb.c\<close>, \<open>iic.c\<close>), \<open>TcpServer\<close>
    (\<open>net/tcp_server.c\<close>, \<open>accept_client.c\<close>), \<open>Timing\<close> (lines 11 to 153 of \<open>lib/publib.c\<close>), \<open>Nmea\<close> (the other messages of
    \<open>hal/lane_to.c\<close>).

  \<^bold>\<open>What the lemmas show.\<close>
  \<^item> Queues: both implement a bounded FIFO queue over any schedule, within their memory.
  \<^item> Frames: what a sender builds both receivers' checks accept, up to the sign error of the FKZ9 one; damage in one byte is found;
    the length field decides exactly when the check leaves its buffer. A frame of the unit reaches the transmit queue byte for byte,
    and, while there is one sender thread, the wire in order; over the whole way, in every interleaving, the frames on the wire are some of
    those the unit delivered, in their order, and all of them when the link is up and the queues have room.
  \<^item> Updates: a package is installed only after its MD5 was printed with the expected one in it, whatever the transfers return; every task
    of the list is worked off once, in order; tasks survive a reboot through the mission file; a wave file is uploaded only after it was fetched.
  \<^item> Receivers and devices: a navigation line sets exactly the fields it carries; the settings of the serial port are those requested.
  \<^item> Start and stop: what a start establishes; that in every interleaving no thread is left after a stop and each object is released after
    the threads that use it, or in which interleavings not: the start that loses its event thread or is overtaken by the network, the stop
    that never returns, the client that is released under its connection thread, the frames forwarded outside the life of the cloud
    service. \<open>main\<close> leaves nothing running when it returns, and the signal thread releases what it created. Without interleaving the
    statements are the whole operations of \<open>Startup\<close> and \<open>Fkz9Comm\<close>.
  \<^item> Drivers: a CAN message is cut into frames and repeated as its header says, if the threads had a buffer to read it into, which they have
    not; an I2C block is read back as it was written; when a USB handle is used after its release; which client the server keeps; what an NMEA
    checksum detects and what a line leaves unset.
  \<^item> Where the code does not do what it means to, the theorem says exactly when: overruns, double releases, dangling pointers,
    lost bytes, tests that can never fail.

  \<^bold>\<open>Bounds and fuel.\<close> The queues hold 63 messages of 256 or 1400 bytes, the list 65535 elements. Loops over lists and streams are
  structural. \<open>send_pieces\<close>, \<open>serial_read_loop\<close>, \<open>at_loop\<close> and \<open>free_events\<close> have fuel, and \<open>None\<close> means it was used up: as many sends as
  frames, \<open>n + 3\<close> reads after \<open>n\<close> bytes, and one more step than elements are shown to be enough, and for the loops that never end
  that no fuel is. \<open>at_loop\<close>, and with it \<open>main\<close>, may be kept for ever by a modem that answers without an end; \<open>server_loop\<close> and \<open>client_read_cb\<close>
  take as much as the network delivers. The download loop runs with the count of its list and is shown to empty it.

  \<^bold>\<open>Assumptions on libraries.\<close> They are in \<open>env\<close> only, with two exceptions taken from the documentation of libevent: a timer event is freed once,
  and \<open>event_base_loopbreak\<close> acts on the loop that is running and on no later one.

  \<^bold>\<open>Not modelled.\<close> Logging (spdlog) has no effect on the rest. The functions of \<open>lane_to.c\<close> that build commands for the receiver (lines 26 to
  51) are not C: \<open>malloc\<close> with two arguments, into a pointer that was never set. The AT command names and records of \<open>fx650.h\<close>, the
  records of \<open>fkz9_comm.h\<close> and \<open>cloud_comm.h\<close> that no function uses are declarations without behaviour. The vendored libraries are the
  environment. Data races inside one handler are not modelled: a handler is one step, except in \<open>TcpClient\<close>, \<open>Lifecycle\<close> and \<open>CloudLife\<close>, where a
  step is a statement or a call.
\<close>

end
